(* ===== verification/Lotus_Prelude.thy ===== *)
theory Lotus_Prelude
  imports Main "HOL-Library.AList" "HOL-Library.Word" "HOL-Library.Multiset"
begin

text \<open>
  Shared vocabulary of the development: the Go data the components have in common (content
  identifiers, Go maps as association lists, machine integers), the errors as values, and the
  generic lemmas on lists, association lists and options that the component theories use.
\<close>

section \<open>Types shared by the components\<close>

text \<open>
  A \<^verbatim>\<open>cid.Cid\<close> is only ever compared, stored and returned by the modelled code, so a
  natural number stands for it; \<open>cidUndef\<close> is \<^verbatim>\<open>cid.Undef\<close>. Token amounts
  (\<^verbatim>\<open>abi.TokenAmount\<close>, \<^verbatim>\<open>types.BigInt\<close>) wrap \<^verbatim>\<open>math/big.Int\<close>
  and are unbounded integers. A Go map is an association list with distinct keys.
\<close>

type_synonym cid = nat
type_synonym tokenAmount = int
type_synonym ('k, 'v) gomap = "('k \<times> 'v) list"

abbreviation (input) cidUndef :: cid where
  "cidUndef \<equiv> 0"

abbreviation gm_get :: "('k, 'v) gomap \<Rightarrow> 'k \<Rightarrow> 'v option" where
  "gm_get m k \<equiv> map_of m k"

abbreviation gm_set :: "'k \<Rightarrow> 'v \<Rightarrow> ('k, 'v) gomap \<Rightarrow> ('k, 'v) gomap" where
  "gm_set k v m \<equiv> AList.update k v m"

abbreviation gm_delete :: "'k \<Rightarrow> ('k, 'v) gomap \<Rightarrow> ('k, 'v) gomap" where
  "gm_delete k m \<equiv> AList.delete k m"

abbreviation gm_ok :: "('k, 'v) gomap \<Rightarrow> bool" where
  "gm_ok m \<equiv> distinct (map fst m)"

section \<open>Collections of facts\<close>

named_theorems snap_simps \<open>behaviour of the snapshot layers of the state tree\<close>
named_theorems tree_simps \<open>unfolding of the state tree operations\<close>
named_theorems fund_simps \<open>fund request bookkeeping\<close>
named_theorems sync_simps \<open>sync buckets and their tipsets\<close>

section \<open>Go maps\<close>

lemma gm_get_set [simp]:
  "gm_get (gm_set k v m) k' = (if k' = k then Some v else gm_get m k')"
  by (simp add: update_conv')

lemma gm_get_delete [simp]:
  "gm_get (gm_delete k m) k' = (if k' = k then None else gm_get m k')"
  by (simp add: delete_conv')

lemma gm_ok_set [simp]: "gm_ok m \<Longrightarrow> gm_ok (gm_set k v m)"
  by (rule distinct_update)

lemma gm_ok_delete [simp]: "gm_ok m \<Longrightarrow> gm_ok (gm_delete k m)"
  by (rule distinct_delete)

lemma gm_set_not_empty [simp]: "gm_set k v m \<noteq> []"
  by (cases m) auto

text \<open>
  Writing every entry of one map over another (\<^verbatim>\<open>for k, v := range src { dst[k] = v }\<close>).
  The runtime visits the entries in an order of its own, so the order is the list's; with
  distinct keys the result does not depend on it.
\<close>

definition gm_merge :: "('k, 'v) gomap \<Rightarrow> ('k, 'v) gomap \<Rightarrow> ('k, 'v) gomap" where
  "gm_merge src dst = fold (\<lambda>(k, v) m. gm_set k v m) src dst"

lemma gm_merge_simps [simp]:
  "gm_merge [] dst = dst"
  "gm_merge ((k, v) # src) dst = gm_merge src (gm_set k v dst)"
  by (simp_all add: gm_merge_def)

lemma gm_ok_merge [simp]: "gm_ok dst \<Longrightarrow> gm_ok (gm_merge src dst)"
  by (induction src arbitrary: dst) auto

lemma gm_get_merge:
  "gm_ok src \<Longrightarrow>
    gm_get (gm_merge src dst) k = (case gm_get src k of None \<Rightarrow> gm_get dst k | Some v \<Rightarrow> Some v)"
proof (induction src arbitrary: dst)
  case Nil
  then show ?case by simp
next
  case (Cons x src)
  obtain k' v' where x: "x = (k', v')" by (cases x)
  have IH: "gm_get (gm_merge src (gm_set k' v' dst)) k =
      (case gm_get src k of None \<Rightarrow> gm_get (gm_set k' v' dst) k | Some v \<Rightarrow> Some v)"
    using Cons by simp
  have "k = k' \<Longrightarrow> gm_get src k = None"
    using Cons.prems by (simp add: x map_of_eq_None_iff)
  with IH show ?case
    by (cases "k = k'") (simp_all add: x split: option.split)
qed

lemma gm_get_perm:
  assumes "gm_ok xs" and "mset xs = mset ys"
  shows "gm_get ys = gm_get xs"
proof -
  have "mset (map fst xs) = mset (map fst ys)"
    using assms(2) by simp
  then have "distinct (map fst ys)"
    using assms(1) mset_eq_imp_distinct_iff by blast
  moreover have "set xs = set ys"
    using assms(2) by (rule mset_eq_setD)
  ultimately show ?thesis
    using assms(1) map_of_inject_set by blast
qed

section \<open>Machine integers\<close>

text \<open>
  Go's \<^verbatim>\<open>int64\<close> as an integer with its wrap-around written out, and Go's integer
  division, which truncates towards zero.
\<close>

definition wrap64 :: "int \<Rightarrow> int" where
  "wrap64 x = (x + 2 ^ 63) mod 2 ^ 64 - 2 ^ 63"

definition is_int64 :: "int \<Rightarrow> bool" where
  "is_int64 x \<longleftrightarrow> - (2 ^ 63) \<le> x \<and> x < 2 ^ 63"

definition tdiv :: "int \<Rightarrow> int \<Rightarrow> int" where
  "tdiv a b = sgn a * sgn b * (\<bar>a\<bar> div \<bar>b\<bar>)"

lemma wrap64_id: "is_int64 x \<Longrightarrow> wrap64 x = x"
proof -
  assume "is_int64 x"
  then have "0 \<le> x + 2 ^ 63" and "x + 2 ^ 63 < 2 ^ 64"
    unfolding is_int64_def by simp_all
  then have "(x + 2 ^ 63) mod 2 ^ 64 = x + 2 ^ 63"
    by (rule mod_pos_pos_trivial)
  then show ?thesis unfolding wrap64_def by simp
qed

lemma wrap64_bounds: "is_int64 (wrap64 x)"
proof -
  have "0 \<le> (x + 2 ^ 63) mod 2 ^ 64" and "(x + 2 ^ 63) mod 2 ^ 64 < (2 ^ 64 :: int)"
    by (rule pos_mod_sign, simp, rule pos_mod_bound, simp)
  then show ?thesis
    unfolding wrap64_def is_int64_def by simp
qed

lemma tdiv_nonneg: "0 \<le> a \<Longrightarrow> 0 < b \<Longrightarrow> tdiv a b = a div b"
  by (cases "a = 0") (simp_all add: tdiv_def)

end
