(* ===== verification/State_Snaps.thy ===== *)
theory State_Snaps
  imports Lotus_Prelude
begin

text \<open>
  The snapshot layers of the state tree (the type \<^verbatim>\<open>stateSnaps\<close> of
  \<^verbatim>\<open>chain/state/statetree.go\<close>): a stack of layers of pending actor writes and of
  cached address resolutions. The locale at the end of the first section states what a stack
  of snapshots promises its client, and the layers are shown to provide it twice: once for
  the pending actors and once for the resolution cache.
\<close>

section \<open>What a stack of snapshots promises\<close>

text \<open>
  A snapshot stack holds a list of views, newest first. A write changes the newest view only,
  a snapshot duplicates it, dropping a layer forgets it, and merging a layer keeps the newest
  view and forgets the one below it.
\<close>

datatype 's snap_op = OpLocal "'s \<Rightarrow> 's option" | OpPush | OpMerge | OpRevert

fun snap_level :: "nat \<Rightarrow> 's snap_op list \<Rightarrow> nat option" where
  "snap_level n [] = Some n"
| "snap_level n (OpLocal f # ops) = snap_level n ops"
| "snap_level n (OpPush # ops) = snap_level (Suc n) ops"
| "snap_level n (OpMerge # ops) = (case n of 0 \<Rightarrow> None | Suc m \<Rightarrow> snap_level m ops)"
| "snap_level n (OpRevert # ops) = snap_level n ops"

locale snapshot_stack =
  fixes wf :: "'s \<Rightarrow> bool"
    and views :: "'s \<Rightarrow> ('k \<rightharpoonup> 'v) list"
    and put :: "'s \<Rightarrow> 'k \<Rightarrow> 'v \<Rightarrow> 's option"
    and push :: "'s \<Rightarrow> 's"
    and drop_top :: "'s \<Rightarrow> 's option"
    and merge_top :: "'s \<Rightarrow> 's option"
  assumes views_not_empty: "wf s \<Longrightarrow> views s \<noteq> []"
    and put_ok: "wf s \<Longrightarrow>
      \<exists>s'. put s k v = Some s' \<and> wf s' \<and> views s' = (hd (views s))(k \<mapsto> v) # tl (views s)"
    and push_ok: "wf s \<Longrightarrow> wf (push s) \<and> views (push s) = hd (views s) # views s"
    and drop_ok: "wf s \<Longrightarrow> 1 < length (views s) \<Longrightarrow>
      \<exists>s'. drop_top s = Some s' \<and> wf s' \<and> views s' = tl (views s)"
    and merge_ok: "wf s \<Longrightarrow> 1 < length (views s) \<Longrightarrow>
      \<exists>s'. merge_top s = Some s' \<and> wf s' \<and> views s' = hd (views s) # tl (tl (views s))"
begin

text \<open>
  A local step of the client never fails and touches the newest view only, as a write does.
  \<open>exec_ops\<close> runs a list of operations; reverting drops the newest layer and opens a
  fresh one, as the client does.
\<close>

definition local_step :: "('s \<Rightarrow> 's option) \<Rightarrow> bool" where
  "local_step f \<longleftrightarrow> (\<forall>s. wf s \<longrightarrow>
     (\<exists>s'. f s = Some s' \<and> wf s' \<and> length (views s') = length (views s) \<and> tl (views s') = tl (views s)))"

lemma local_step_put: "local_step (\<lambda>s. put s k v)"
  unfolding local_step_def
proof (intro allI impI)
  fix s
  assume s: "wf s"
  then obtain s' where "put s k v = Some s'" "wf s'" "views s' = (hd (views s))(k \<mapsto> v) # tl (views s)"
    using put_ok by blast
  moreover have "views s \<noteq> []"
    using s by (rule views_not_empty)
  ultimately show "\<exists>s'. put s k v = Some s' \<and> wf s' \<and> length (views s') = length (views s) \<and> tl (views s') = tl (views s)"
    by (cases "views s") auto
qed

fun exec_ops :: "'s snap_op list \<Rightarrow> 's \<Rightarrow> 's option" where
  "exec_ops [] s = Some s"
| "exec_ops (OpLocal f # ops) s = Option.bind (f s) (exec_ops ops)"
| "exec_ops (OpPush # ops) s = exec_ops ops (push s)"
| "exec_ops (OpMerge # ops) s = Option.bind (merge_top s) (exec_ops ops)"
| "exec_ops (OpRevert # ops) s = Option.bind (drop_top s) (\<lambda>s'. exec_ops ops (push s'))"

text \<open>
  A run that stays above the level it started at never fails and leaves every view below that
  level alone.
\<close>

lemma exec_ops_above:
  assumes "wf s" and "length (views s) = Suc n + length vs" and "drop (Suc n) (views s) = vs"
    and "vs \<noteq> []" and "snap_level n ops = Some m"
    and "\<forall>f. OpLocal f \<in> set ops \<longrightarrow> local_step f"
  shows "\<exists>s'. exec_ops ops s = Some s' \<and> wf s' \<and> length (views s') = Suc m + length vs
    \<and> drop (Suc m) (views s') = vs"
  using assms
proof (induction ops arbitrary: s n)
  case Nil
  then show ?case by simp
next
  case (Cons opn ops)
  obtain v0 rest where views_s: "views s = v0 # rest"
    using views_not_empty [OF Cons.prems(1)] by (cases "views s") auto
  have rest: "length rest = n + length vs" "drop n rest = vs"
    using Cons.prems(2,3) views_s by simp_all
  show ?case
  proof (cases opn)
    case (OpLocal f)
    then obtain s' where s': "f s = Some s'" "wf s'" "length (views s') = length (views s)"
        "tl (views s') = rest"
      using Cons.prems(1,6) views_s unfolding local_step_def by (metis list.sel(3) list.set_intros(1))
    then have "drop (Suc n) (views s') = vs"
      using rest by (simp add: drop_Suc)
    then show ?thesis
      using Cons.IH [OF s'(2), of n] Cons.prems(2,4,5,6) OpLocal s' by simp
  next
    case OpPush
    have p: "wf (push s)" "views (push s) = v0 # v0 # rest"
      using push_ok [OF Cons.prems(1)] views_s by auto
    show ?thesis
      using Cons.IH [OF p(1), of "Suc n"] Cons.prems(4,5,6) OpPush p rest by simp
  next
    case OpMerge
    with Cons.prems(5) obtain k where k: "n = Suc k" "snap_level k ops = Some m"
      by (cases n) auto
    then obtain v1 rest' where r: "rest = v1 # rest'" "length rest' = k + length vs" "drop k rest' = vs"
      using rest by (cases rest) auto
    obtain s' where s': "merge_top s = Some s'" "wf s'" "views s' = v0 # rest'"
      using merge_ok [OF Cons.prems(1)] views_s r by auto
    show ?thesis
      using Cons.IH [OF s'(2), of k] Cons.prems(4,6) k OpMerge s' r by simp
  next
    case OpRevert
    obtain s' where s': "drop_top s = Some s'" "wf s'" "views s' = rest"
      using drop_ok [OF Cons.prems(1)] views_s rest Cons.prems(4) by auto
    obtain v1 rest' where r: "rest = v1 # rest'"
      using rest Cons.prems(4) by (cases rest) auto
    have p: "wf (push s')" "views (push s') = v1 # rest"
      using push_ok [OF s'(2)] s'(3) r by auto
    show ?thesis
      using Cons.IH [OF p(1), of n] Cons.prems(4,5,6) OpRevert s' p rest by simp
  qed
qed

text \<open>
  Taking a snapshot, working above it and reverting gives back the views there were.
\<close>

lemma revert_restores:
  assumes "wf s" and "snap_level 0 ops = Some 0"
    and "\<forall>f. OpLocal f \<in> set ops \<longrightarrow> local_step f"
  shows "\<exists>s1 s2. exec_ops ops (push s) = Some s1 \<and> drop_top s1 = Some s2 \<and> wf s2 \<and> views s2 = views s"
proof -
  have p: "wf (push s)" "views (push s) = hd (views s) # views s"
    using push_ok [OF assms(1)] by auto
  have ne: "views s \<noteq> []"
    using assms(1) by (rule views_not_empty)
  obtain s1 where s1: "exec_ops ops (push s) = Some s1" "wf s1"
      "length (views s1) = Suc 0 + length (views s)" "drop (Suc 0) (views s1) = views s"
    using exec_ops_above [of "push s" 0 "views s" ops 0] p ne assms(2,3) by auto
  obtain s2 where "drop_top s1 = Some s2" "wf s2" "views s2 = tl (views s1)"
    using drop_ok [OF s1(2)] s1(3) ne by (cases "views s") auto
  with s1 show ?thesis
    by (auto simp: drop_Suc)
qed

end

section \<open>Data model\<close>

text \<open>
  \<^verbatim>\<open>types.Actor\<close> (version 5) and the version 4 actor without the delegated address.
\<close>

record actorV4 =
  a4_Code :: cid
  a4_Head :: cid
  a4_Nonce :: "64 word"
  a4_Balance :: tokenAmount

record 'a actor =
  a_Code :: cid
  a_Head :: cid
  a_Nonce :: "64 word"
  a_Balance :: tokenAmount
  a_Address :: "'a option"

definition AsActorV4 :: "'a actor \<Rightarrow> actorV4" where
  "AsActorV4 a = \<lparr>a4_Code = a_Code a, a4_Head = a_Head a, a4_Nonce = a_Nonce a,
     a4_Balance = a_Balance a\<rparr>"

definition AsActorV5 :: "actorV4 \<Rightarrow> 'a actor" where
  "AsActorV5 a = \<lparr>a_Code = a4_Code a, a_Head = a4_Head a, a_Nonce = a4_Nonce a,
     a_Balance = a4_Balance a, a_Address = None\<rparr>"

lemma AsActorV4_V5 [simp]: "AsActorV4 (AsActorV5 a) = a"
  by (simp add: AsActorV4_def AsActorV5_def)

lemma AsActorV5_V4: "AsActorV5 (AsActorV4 a) = a\<lparr>a_Address := None\<rparr>"
  by (simp add: AsActorV4_def AsActorV5_def)

text \<open>
  \<^verbatim>\<open>streeOp\<close>: a pending write of an actor, or its deletion. A deletion carries the
  zero actor.
\<close>

definition zeroActor :: "'a actor" where
  "zeroActor = \<lparr>a_Code = cidUndef, a_Head = cidUndef, a_Nonce = 0, a_Balance = 0, a_Address = None\<rparr>"

record 'a streeOp =
  so_Act :: "'a actor"
  so_Delete :: bool

record 'a stateSnapLayer =
  actors :: "('a, 'a streeOp) gomap"
  resolveCache :: "('a, 'a) gomap"

record 'a stateSnaps =
  layers :: "'a stateSnapLayer list"
  lastMaybeNonEmptyResolveCache :: int

text \<open>
  Errors of the state tree: the sentinel \<^verbatim>\<open>types.ErrActorNotFound\<close>, formatted
  errors, errors wrapped with \<^verbatim>\<open>%w\<close>, errors of the store and the actors code,
  and a Go panic.
\<close>

datatype stree_error =
    ErrActorNotFound
  | Errorf string
  | Wrapf string stree_error
  | ExtError nat
  | Panic

fun errors_Is_NotFound :: "stree_error \<Rightarrow> bool" where
  "errors_Is_NotFound ErrActorNotFound = True"
| "errors_Is_NotFound (Wrapf s e) = errors_Is_NotFound e"
| "errors_Is_NotFound _ = False"

section \<open>Operations on the layers\<close>

text \<open>
  The operations that index the layers return \<open>None\<close> where Go panics with an index out
  of range.
\<close>

definition newStateSnapLayer :: "'a stateSnapLayer" where
  "newStateSnapLayer = \<lparr>actors = [], resolveCache = []\<rparr>"

definition addLayer :: "'a stateSnaps \<Rightarrow> 'a stateSnaps" where
  "addLayer ss = ss\<lparr>layers := layers ss @ [newStateSnapLayer]\<rparr>"

definition newStateSnaps :: "'a stateSnaps" where
  "newStateSnaps = addLayer \<lparr>layers = [], lastMaybeNonEmptyResolveCache = 0\<rparr>"

definition dropLayer :: "'a stateSnaps \<Rightarrow> 'a stateSnaps option" where
  "dropLayer ss =
     (if layers ss = [] then None
      else let ls = butlast (layers ss) in
        Some (if lastMaybeNonEmptyResolveCache ss = int (length ls)
              then ss\<lparr>layers := ls, lastMaybeNonEmptyResolveCache := int (length ls) - 1\<rparr>
              else ss\<lparr>layers := ls\<rparr>))"

definition mergeLastLayer :: "'a stateSnaps \<Rightarrow> 'a stateSnaps option" where
  "mergeLastLayer ss =
     (let n = length (layers ss) in
      if n < 2 then None
      else
        let last_l = layers ss ! (n - 1);
            nextLast = layers ss ! (n - 2);
            nextLast' = nextLast\<lparr>actors := gm_merge (actors last_l) (actors nextLast),
                                 resolveCache := gm_merge (resolveCache last_l) (resolveCache nextLast)\<rparr>
        in dropLayer (ss\<lparr>layers := (layers ss)[n - 2 := nextLast']\<rparr>))"

text \<open>
  The loop of \<open>resolveAddress\<close>: the third argument is the loop variable plus one, and the
  hint \<open>lastMaybeNonEmptyResolveCache\<close> is lowered past empty caches.
\<close>

fun resolve_loop :: "'a stateSnapLayer list \<Rightarrow> int \<Rightarrow> nat \<Rightarrow> 'a \<Rightarrow> int \<times> 'a option" where
  "resolve_loop ls hint 0 addr = (hint, None)"
| "resolve_loop ls hint (Suc i) addr =
     (if resolveCache (ls ! i) = []
      then resolve_loop ls (if hint = int i then int i - 1 else hint) i addr
      else case gm_get (resolveCache (ls ! i)) addr of
        Some resa \<Rightarrow> (hint, Some resa)
      | None \<Rightarrow> resolve_loop ls hint i addr)"

definition resolveAddress :: "'a stateSnaps \<Rightarrow> 'a \<Rightarrow> ('a option \<times> 'a stateSnaps) option" where
  "resolveAddress ss addr =
     (if lastMaybeNonEmptyResolveCache ss \<ge> int (length (layers ss)) then None
      else case resolve_loop (layers ss) (lastMaybeNonEmptyResolveCache ss)
                 (nat (lastMaybeNonEmptyResolveCache ss + 1)) addr of
        (hint, r) \<Rightarrow> Some (r, ss\<lparr>lastMaybeNonEmptyResolveCache := hint\<rparr>))"

definition cacheResolveAddress :: "'a stateSnaps \<Rightarrow> 'a \<Rightarrow> 'a \<Rightarrow> 'a stateSnaps option" where
  "cacheResolveAddress ss addr resa =
     (if layers ss = [] then None
      else let n = length (layers ss) - 1; l = layers ss ! n in
        Some (ss\<lparr>layers := (layers ss)[n := l\<lparr>resolveCache := gm_set addr resa (resolveCache l)\<rparr>],
                 lastMaybeNonEmptyResolveCache := int n\<rparr>))"

fun getActor_loop :: "'a stateSnapLayer list \<Rightarrow> 'a \<Rightarrow> stree_error + 'a actor option" where
  "getActor_loop [] addr = Inr None"
| "getActor_loop (l # ls) addr =
     (case gm_get (actors l) addr of
        Some act \<Rightarrow> if so_Delete act then Inl ErrActorNotFound else Inr (Some (so_Act act))
      | None \<Rightarrow> getActor_loop ls addr)"

definition getActor :: "'a stateSnaps \<Rightarrow> 'a \<Rightarrow> stree_error + 'a actor option" where
  "getActor ss addr = getActor_loop (rev (layers ss)) addr"

definition putOp :: "'a stateSnaps \<Rightarrow> 'a \<Rightarrow> 'a streeOp \<Rightarrow> 'a stateSnaps option" where
  "putOp ss addr opn =
     (if layers ss = [] then None
      else let n = length (layers ss) - 1; l = layers ss ! n in
        Some (ss\<lparr>layers := (layers ss)[n := l\<lparr>actors := gm_set addr opn (actors l)\<rparr>]\<rparr>))"

definition setActor :: "'a stateSnaps \<Rightarrow> 'a \<Rightarrow> 'a actor \<Rightarrow> 'a stateSnaps option" where
  "setActor ss addr act = putOp ss addr \<lparr>so_Act = act, so_Delete = False\<rparr>"

definition deleteActor :: "'a stateSnaps \<Rightarrow> 'a \<Rightarrow> 'a stateSnaps option" where
  "deleteActor ss addr = putOp ss addr \<lparr>so_Act = zeroActor, so_Delete = True\<rparr>"

section \<open>Views of the layers\<close>

text \<open>
  \<open>flat\<close> overlays maps given newest first; \<open>stack_views\<close> gives the view after
  each layer, newest first.
\<close>

fun flat :: "('k \<rightharpoonup> 'v) list \<Rightarrow> ('k \<rightharpoonup> 'v)" where
  "flat [] = Map.empty"
| "flat (m # ms) = flat ms ++ m"

fun stack_views :: "('k \<rightharpoonup> 'v) list \<Rightarrow> ('k \<rightharpoonup> 'v) list" where
  "stack_views [] = []"
| "stack_views (m # ms) = (flat ms ++ m) # stack_views ms"

definition actor_views :: "'a stateSnaps \<Rightarrow> ('a \<rightharpoonup> 'a streeOp) list" where
  "actor_views ss = stack_views (map (map_of \<circ> actors) (rev (layers ss)))"

definition cache_views :: "'a stateSnaps \<Rightarrow> ('a \<rightharpoonup> 'a) list" where
  "cache_views ss = stack_views (map (map_of \<circ> resolveCache) (rev (layers ss)))"

abbreviation actor_view :: "'a stateSnaps \<Rightarrow> ('a \<rightharpoonup> 'a streeOp)" where
  "actor_view ss \<equiv> hd (actor_views ss)"

abbreviation cache_view :: "'a stateSnaps \<Rightarrow> ('a \<rightharpoonup> 'a)" where
  "cache_view ss \<equiv> hd (cache_views ss)"

lemma length_stack_views [simp]: "length (stack_views ms) = length ms"
  by (induction ms) auto

lemma length_views [simp]:
  "length (actor_views ss) = length (layers ss)"
  "length (cache_views ss) = length (layers ss)"
  by (simp_all add: actor_views_def cache_views_def)

text \<open>
  The invariant of the layers: there is one, the maps have distinct keys, and no layer above
  the hint has a cached resolution.
\<close>

definition hint_ok :: "'a stateSnapLayer list \<Rightarrow> int \<Rightarrow> bool" where
  "hint_ok ls hint \<longleftrightarrow> - 1 \<le> hint \<and> hint < int (length ls) \<and>
     (\<forall>j. hint < int j \<longrightarrow> j < length ls \<longrightarrow> resolveCache (ls ! j) = [])"

definition layer_ok :: "'a stateSnapLayer \<Rightarrow> bool" where
  "layer_ok l \<longleftrightarrow> gm_ok (actors l) \<and> gm_ok (resolveCache l)"

definition snaps_wf :: "'a stateSnaps \<Rightarrow> bool" where
  "snaps_wf ss \<longleftrightarrow> layers ss \<noteq> [] \<and> (\<forall>l \<in> set (layers ss). layer_ok l) \<and>
     hint_ok (layers ss) (lastMaybeNonEmptyResolveCache ss)"

lemma snaps_wf_top:
  assumes "snaps_wf ss"
  obtains ls l where "layers ss = ls @ [l]"
  using assms by (cases "layers ss" rule: rev_cases) (auto simp: snaps_wf_def)

lemma snaps_wf_two:
  assumes "1 < length (layers ss)"
  obtains ls k l where "layers ss = ls @ [k, l]"
proof -
  obtain ks l where ks: "layers ss = ks @ [l]"
    using assms by (cases "layers ss" rule: rev_cases) auto
  then obtain ls k where "ks = ls @ [k]"
    using assms by (cases ks rule: rev_cases) auto
  with ks that show ?thesis by simp
qed

lemma newStateSnaps_wf: "snaps_wf newStateSnaps"
  by (simp add: newStateSnaps_def addLayer_def newStateSnapLayer_def snaps_wf_def layer_ok_def hint_ok_def)

text \<open>The operations on a stack whose top is known.\<close>

lemma putOp_top [snap_simps]:
  "layers ss = ls @ [l] \<Longrightarrow>
    putOp ss addr opn = Some (ss\<lparr>layers := ls @ [l\<lparr>actors := gm_set addr opn (actors l)\<rparr>]\<rparr>)"
  by (simp add: putOp_def)

lemma cacheResolveAddress_top [snap_simps]:
  "layers ss = ls @ [l] \<Longrightarrow>
    cacheResolveAddress ss addr resa =
      Some (ss\<lparr>layers := ls @ [l\<lparr>resolveCache := gm_set addr resa (resolveCache l)\<rparr>],
               lastMaybeNonEmptyResolveCache := int (length ls)\<rparr>)"
  by (simp add: cacheResolveAddress_def)

lemma dropLayer_top [snap_simps]:
  "layers ss = ls @ [l] \<Longrightarrow>
    dropLayer ss = Some (ss\<lparr>layers := ls, lastMaybeNonEmptyResolveCache :=
      (if lastMaybeNonEmptyResolveCache ss = int (length ls) then int (length ls) - 1
       else lastMaybeNonEmptyResolveCache ss)\<rparr>)"
  by (simp add: dropLayer_def Let_def)

lemma mergeLastLayer_top [snap_simps]:
  assumes "layers ss = ls @ [k, l]"
  shows "mergeLastLayer ss = Some (ss\<lparr>
    layers := ls @ [k\<lparr>actors := gm_merge (actors l) (actors k),
                      resolveCache := gm_merge (resolveCache l) (resolveCache k)\<rparr>],
    lastMaybeNonEmptyResolveCache :=
      (if lastMaybeNonEmptyResolveCache ss = int (length ls) + 1 then int (length ls)
       else lastMaybeNonEmptyResolveCache ss)\<rparr>)"
proof -
  have nth: "layers ss ! (length (layers ss) - 1) = l" "layers ss ! (length (layers ss) - 2) = k"
    using assms by (simp_all add: nth_append)
  have upd: "(layers ss)[length (layers ss) - 2 := k'] = (ls @ [k']) @ [l]" for k'
    using assms by (simp add: list_update_append)
  show ?thesis
    using assms
    by (simp add: mergeLastLayer_def Let_def nth upd del: append_assoc)
       (simp add: dropLayer_top [where ls = "ls @ [_]"] nth_append)
qed

lemma addLayer_layers [snap_simps]:
  "layers (addLayer ss) = layers ss @ [newStateSnapLayer]"
  "lastMaybeNonEmptyResolveCache (addLayer ss) = lastMaybeNonEmptyResolveCache ss"
  by (simp_all add: addLayer_def)

section \<open>The layers keep their invariant and provide the snapshot contract\<close>

lemma actor_views_snoc [snap_simps]:
  "layers ss = ls @ [l] \<Longrightarrow>
    actor_views ss = (flat (map (map_of \<circ> actors) (rev ls)) ++ map_of (actors l))
      # stack_views (map (map_of \<circ> actors) (rev ls))"
  by (simp add: actor_views_def)

lemma cache_views_snoc [snap_simps]:
  "layers ss = ls @ [l] \<Longrightarrow>
    cache_views ss = (flat (map (map_of \<circ> resolveCache) (rev ls)) ++ map_of (resolveCache l))
      # stack_views (map (map_of \<circ> resolveCache) (rev ls))"
  by (simp add: cache_views_def)

lemma map_of_gm_set [snap_simps]: "map_of (gm_set k v m) = (map_of m)(k \<mapsto> v)"
  by (rule update_conv')

lemma map_of_gm_merge [snap_simps]: "gm_ok src \<Longrightarrow> map_of (gm_merge src dst) = map_of dst ++ map_of src"
  by (rule ext) (simp add: gm_get_merge map_add_def split: option.split)

lemma hint_ok_replace_top:
  assumes "hint_ok (ls @ [l]) h" and "resolveCache l' = [] \<or> h = int (length ls)"
  shows "hint_ok (ls @ [l']) h"
  using assms by (auto simp: hint_ok_def nth_append less_Suc_eq)

lemma hint_ok_drop:
  assumes "hint_ok (ls @ [l]) h"
  shows "hint_ok ls (if h = int (length ls) then int (length ls) - 1 else h)"
  using assms by (auto simp: hint_ok_def nth_append split: if_splits)

lemma hint_ok_merge:
  assumes "hint_ok (ls @ [k, l]) h"
    and "resolveCache k' = gm_merge (resolveCache l) (resolveCache k)"
  shows "hint_ok (ls @ [k']) (if h = int (length ls) + 1 then int (length ls) else h)"
proof (cases "h = int (length ls) + 1")
  case True
  then show ?thesis by (auto simp: hint_ok_def nth_append)
next
  case False
  have h: "- 1 \<le> h" "h \<le> int (length ls)"
    and emp: "\<And>j. h < int j \<Longrightarrow> j < length ls + 2 \<Longrightarrow> resolveCache ((ls @ [k, l]) ! j) = []"
    using assms(1) False by (auto simp: hint_ok_def)
  have l: "resolveCache l = []"
    using emp [of "length ls + 1"] h by (simp add: nth_append)
  have k: "h < int (length ls) \<Longrightarrow> resolveCache k = []"
    using emp [of "length ls"] by (simp add: nth_append)
  have below: "h < int j \<Longrightarrow> j < length ls \<Longrightarrow> resolveCache (ls ! j) = []" for j
    using emp [of j] by (simp add: nth_append)
  show ?thesis
    using False h l k below assms(2) by (auto simp: hint_ok_def nth_append less_Suc_eq)
qed

lemma putOp_ok:
  assumes "snaps_wf ss"
  shows "\<exists>ss'. putOp ss addr opn = Some ss' \<and> snaps_wf ss'
    \<and> actor_views ss' = (actor_view ss)(addr \<mapsto> opn) # tl (actor_views ss)
    \<and> cache_views ss' = cache_views ss"
proof -
  obtain ls l where l: "layers ss = ls @ [l]"
    using assms by (rule snaps_wf_top)
  let ?l' = "l\<lparr>actors := gm_set addr opn (actors l)\<rparr>"
  have "hint_ok (ls @ [?l']) (lastMaybeNonEmptyResolveCache ss)"
    using assms l by (auto simp: snaps_wf_def hint_ok_def nth_append less_Suc_eq)
  with assms l show ?thesis
    by (auto simp: snap_simps snaps_wf_def layer_ok_def)
qed

lemma cacheResolveAddress_ok:
  assumes "snaps_wf ss"
  shows "\<exists>ss'. cacheResolveAddress ss addr resa = Some ss' \<and> snaps_wf ss'
    \<and> cache_views ss' = (cache_view ss)(addr \<mapsto> resa) # tl (cache_views ss)
    \<and> actor_views ss' = actor_views ss"
proof -
  obtain ls l where l: "layers ss = ls @ [l]"
    using assms by (rule snaps_wf_top)
  have "hint_ok (ls @ [l']) (int (length ls))" for l' :: "'a stateSnapLayer"
    by (auto simp: hint_ok_def)
  with assms l show ?thesis
    by (auto simp: snap_simps snaps_wf_def layer_ok_def)
qed

lemma addLayer_ok:
  assumes "snaps_wf ss"
  shows "snaps_wf (addLayer ss)"
    and "actor_views (addLayer ss) = actor_view ss # actor_views ss"
    and "cache_views (addLayer ss) = cache_view ss # cache_views ss"
proof -
  obtain ls l where l: "layers ss = ls @ [l]"
    using assms by (rule snaps_wf_top)
  have "hint_ok (layers ss @ [newStateSnapLayer]) (lastMaybeNonEmptyResolveCache ss)"
    using assms by (auto simp: snaps_wf_def hint_ok_def nth_append less_Suc_eq newStateSnapLayer_def)
  then show "snaps_wf (addLayer ss)"
    using assms by (simp add: snap_simps snaps_wf_def layer_ok_def) (simp add: newStateSnapLayer_def)
  show "actor_views (addLayer ss) = actor_view ss # actor_views ss"
    using l by (simp add: snap_simps actor_views_def newStateSnapLayer_def)
  show "cache_views (addLayer ss) = cache_view ss # cache_views ss"
    using l by (simp add: snap_simps cache_views_def newStateSnapLayer_def)
qed

lemma dropLayer_ok:
  assumes "snaps_wf ss" and "1 < length (layers ss)"
  shows "\<exists>ss'. dropLayer ss = Some ss' \<and> snaps_wf ss'
    \<and> actor_views ss' = tl (actor_views ss) \<and> cache_views ss' = tl (cache_views ss)"
proof -
  obtain ls l where l: "layers ss = ls @ [l]"
    using assms(1) by (rule snaps_wf_top)
  then have "ls \<noteq> []" using assms(2) by auto
  moreover have "hint_ok ls (if lastMaybeNonEmptyResolveCache ss = int (length ls)
      then int (length ls) - 1 else lastMaybeNonEmptyResolveCache ss)"
    using assms(1) l by (intro hint_ok_drop [where l = l]) (simp add: snaps_wf_def)
  ultimately show ?thesis
    using assms(1) l
    by (auto simp: dropLayer_top snaps_wf_def actor_views_def cache_views_def)
qed

lemma mergeLastLayer_ok:
  assumes "snaps_wf ss" and "1 < length (layers ss)"
  shows "\<exists>ss'. mergeLastLayer ss = Some ss' \<and> snaps_wf ss'
    \<and> actor_views ss' = actor_view ss # tl (tl (actor_views ss))
    \<and> cache_views ss' = cache_view ss # tl (tl (cache_views ss))"
proof -
  obtain ls k l where l: "layers ss = ls @ [k, l]"
    using assms(2) by (rule snaps_wf_two)
  let ?k' = "k\<lparr>actors := gm_merge (actors l) (actors k),
               resolveCache := gm_merge (resolveCache l) (resolveCache k)\<rparr>"
  let ?h' = "if lastMaybeNonEmptyResolveCache ss = int (length ls) + 1 then int (length ls)
             else lastMaybeNonEmptyResolveCache ss"
  have oks: "layer_ok l" "layer_ok k" "\<forall>m \<in> set ls. layer_ok m"
    using assms(1) l by (auto simp: snaps_wf_def)
  have "hint_ok (ls @ [?k']) ?h'"
    using assms(1) l by (intro hint_ok_merge [where k = k and l = l]) (simp_all add: snaps_wf_def)
  moreover have "layer_ok ?k'"
    using oks by (simp add: layer_ok_def)
  ultimately show ?thesis
    using l oks
    by (simp add: mergeLastLayer_top snaps_wf_def actor_views_def cache_views_def
        map_of_gm_merge layer_ok_def)
qed

lemma views_nonempty:
  assumes "snaps_wf ss"
  shows "actor_views ss \<noteq> []" and "cache_views ss \<noteq> []"
  using assms by (auto simp: snaps_wf_def simp flip: length_greater_0_conv)

interpretation actor_stack: snapshot_stack snaps_wf actor_views putOp addLayer dropLayer mergeLastLayer
proof (standard, goal_cases)
  case (1 ss)
  then show ?case by (rule views_nonempty)
next
  case (2 ss k v)
  then show ?case using putOp_ok [of ss k v] by fast
next
  case (3 ss)
  then show ?case by (simp add: addLayer_ok)
next
  case (4 ss)
  then show ?case using dropLayer_ok [of ss] by (simp, fast)
next
  case (5 ss)
  then show ?case using mergeLastLayer_ok [of ss] by (simp, fast)
qed

interpretation cache_stack: snapshot_stack snaps_wf cache_views cacheResolveAddress addLayer dropLayer mergeLastLayer
proof (standard, goal_cases)
  case (1 ss)
  then show ?case by (rule views_nonempty)
next
  case (2 ss k v)
  then show ?case using cacheResolveAddress_ok [of ss k v] by fast
next
  case (3 ss)
  then show ?case by (simp add: addLayer_ok)
next
  case (4 ss)
  then show ?case using dropLayer_ok [of ss] by (simp, fast)
next
  case (5 ss)
  then show ?case using mergeLastLayer_ok [of ss] by (simp, fast)
qed

section \<open>Lookups agree with the views\<close>

lemma getActor_loop_flat:
  "getActor_loop ls addr =
    (case flat (map (map_of \<circ> actors) ls) addr of
       None \<Rightarrow> Inr None
     | Some opn \<Rightarrow> if so_Delete opn then Inl ErrActorNotFound else Inr (Some (so_Act opn)))"
  by (induction ls) (auto simp: map_add_def split: option.splits)

lemma hd_stack_views: "ms \<noteq> [] \<Longrightarrow> hd (stack_views ms) = flat ms"
  by (cases ms) auto

lemma getActor_view:
  assumes "snaps_wf ss"
  shows "getActor ss addr =
    (case actor_view ss addr of
       None \<Rightarrow> Inr None
     | Some opn \<Rightarrow> if so_Delete opn then Inl ErrActorNotFound else Inr (Some (so_Act opn)))"
  using assms
  by (simp add: getActor_def getActor_loop_flat actor_views_def snaps_wf_def hd_stack_views)

lemma resolve_loop_value:
  "i \<le> length ls \<Longrightarrow>
    snd (resolve_loop ls h i addr) = flat (map (map_of \<circ> resolveCache) (rev (take i ls))) addr"
proof (induction i arbitrary: h)
  case 0
  then show ?case by simp
next
  case (Suc i)
  then have "take (Suc i) ls = take i ls @ [ls ! i]"
    by (simp add: take_Suc_conv_app_nth)
  with Suc show ?case
    by (auto simp: map_add_def split: option.splits)
qed

lemma resolve_loop_hint:
  "hint_ok ls h \<Longrightarrow> i \<le> length ls \<Longrightarrow> hint_ok ls (fst (resolve_loop ls h i addr))"
proof (induction i arbitrary: h)
  case 0
  then show ?case by simp
next
  case (Suc i)
  show ?case
  proof (cases "resolveCache (ls ! i) = []")
    case True
    have "hint_ok ls (if h = int i then int i - 1 else h)"
    proof (cases "h = int i")
      case h: True
      have "resolveCache (ls ! j) = []" if "int i - 1 < int j" "j < length ls" for j
        using that Suc.prems(1) True h by (cases "j = i") (auto simp: hint_ok_def)
      with h Suc.prems show ?thesis by (auto simp: hint_ok_def)
    qed (use Suc.prems in simp)
    then show ?thesis using Suc True by simp
  next
    case False
    with Suc show ?thesis by (simp split: option.split)
  qed
qed

lemma flat_skip_empty: "(\<forall>m \<in> set ms. m = Map.empty) \<Longrightarrow> flat (ms @ ns) = flat ns"
  by (induction ms) auto

lemma flat_below_hint:
  assumes "hint_ok ls h"
  shows "flat (map (map_of \<circ> resolveCache) (rev (take (nat (h + 1)) ls)))
    = flat (map (map_of \<circ> resolveCache) (rev ls))"
proof -
  let ?n = "nat (h + 1)"
  have "resolveCache l = []" if "l \<in> set (drop ?n ls)" for l
  proof -
    from that obtain j where "j < length ls - ?n" "l = ls ! (?n + j)"
      by (auto simp: in_set_conv_nth)
    moreover have "h < int (?n + j)"
      using assms by (auto simp: hint_ok_def)
    ultimately show ?thesis
      using assms unfolding hint_ok_def by (metis less_diff_conv2 add.commute less_diff_conv)
  qed
  then have "\<forall>m \<in> set (map (map_of \<circ> resolveCache) (rev (drop ?n ls))). m = Map.empty"
    by auto
  then have "flat (map (map_of \<circ> resolveCache) (rev (drop ?n ls))
        @ map (map_of \<circ> resolveCache) (rev (take ?n ls)))
      = flat (map (map_of \<circ> resolveCache) (rev (take ?n ls)))"
    by (rule flat_skip_empty)
  moreover have "rev (drop ?n ls) @ rev (take ?n ls) = rev ls"
    by (metis append_take_drop_id rev_append)
  ultimately show ?thesis
    by (metis map_append)
qed

lemma resolveAddress_ok:
  assumes "snaps_wf ss"
  shows "\<exists>h. resolveAddress ss addr = Some (cache_view ss addr, ss\<lparr>lastMaybeNonEmptyResolveCache := h\<rparr>)
    \<and> snaps_wf (ss\<lparr>lastMaybeNonEmptyResolveCache := h\<rparr>)"
proof -
  let ?h = "lastMaybeNonEmptyResolveCache ss" and ?ls = "layers ss"
  have wf: "hint_ok ?ls ?h" "?ls \<noteq> []"
    using assms by (auto simp: snaps_wf_def)
  then have i: "nat (?h + 1) \<le> length ?ls"
    by (auto simp: hint_ok_def)
  obtain h r where loop: "resolve_loop ?ls ?h (nat (?h + 1)) addr = (h, r)"
    by fastforce
  have "r = cache_view ss addr"
    using resolve_loop_value [OF i, of ?h addr] loop flat_below_hint [OF wf(1)] wf(2)
    by (simp add: cache_views_def hd_stack_views)
  moreover have "hint_ok ?ls h"
    using resolve_loop_hint [OF wf(1) i, of addr] loop by simp
  ultimately show ?thesis
    using assms wf loop by (auto simp: resolveAddress_def snaps_wf_def hint_ok_def)
qed

text \<open>
  Property C22. The cached resolution of an address is found by searching downwards from a hint
  that is lowered past empty caches. On well-formed layers the search never indexes out of
  range, returns what a full search from the newest layer returns, and leaves the layers as
  they were and the invariant intact.
\<close>

theorem resolveAddress_equiv:
  assumes "snaps_wf ss"
  shows "\<exists>ss'. resolveAddress ss addr = Some (flat (map (map_of \<circ> resolveCache) (rev (layers ss))) addr, ss')
    \<and> layers ss' = layers ss \<and> snaps_wf ss'"
  using resolveAddress_ok [OF assms, of addr] assms
  by (auto simp: cache_views_def snaps_wf_def hd_stack_views)

text \<open>Witness of C22: an address cached two layers below the top, with an empty layer above it.\<close>

theorem resolveAddress_equiv_witness:
  "\<exists>ss'. resolveAddress
      \<lparr>layers = [\<lparr>actors = [], resolveCache = [(7::nat, 70)]\<rparr>, newStateSnapLayer, newStateSnapLayer],
       lastMaybeNonEmptyResolveCache = 2\<rparr> 7 = Some (Some 70, ss')
    \<and> layers ss' = [\<lparr>actors = [], resolveCache = [(7, 70)]\<rparr>, newStateSnapLayer, newStateSnapLayer]"
proof -
  let ?ss = "\<lparr>layers = [\<lparr>actors = [], resolveCache = [(7::nat, 70)]\<rparr>, newStateSnapLayer, newStateSnapLayer],
       lastMaybeNonEmptyResolveCache = 2\<rparr>"
  have "snaps_wf ?ss"
    by (auto simp: snaps_wf_def layer_ok_def hint_ok_def newStateSnapLayer_def)
  from resolveAddress_equiv [OF this, of 7] show ?thesis
    by (simp add: newStateSnapLayer_def) blast
qed

end
