(* ===== verification/State_Tree.thy ===== *)
theory State_Tree
  imports State_Snaps
begin

text \<open>
  The state tree of \<^verbatim>\<open>chain/state/statetree.go\<close>: actors in a HAMT with the pending
  writes of the snapshot layers on top. The HAMT, the block store, the init actor's state and
  the address format are code outside the repository; they are the fields of \<open>tree_env\<close>,
  an argument of every operation that calls them.
\<close>

section \<open>Data model\<close>

record stateRoot =
  sr_Version :: nat
  sr_Actors :: cid
  sr_Info :: cid

text \<open>
  \<open>tree_env\<close>: the address format (\<open>e_isID\<close> is \<^verbatim>\<open>addr.Protocol() == address.ID\<close>,
  \<open>e_newFromBytes\<close> is \<^verbatim>\<open>address.NewFromBytes\<close>), the init actor
  (\<^verbatim>\<open>init_.Load\<close>, \<^verbatim>\<open>ResolveAddress\<close>, \<^verbatim>\<open>MapAddressToNewID\<close>), the IPLD
  store (one field per type of object put or read) and the HAMT behind \<^verbatim>\<open>adt.Map\<close>
  (\<^verbatim>\<open>Get\<close>, \<^verbatim>\<open>Put\<close>, \<^verbatim>\<open>Delete\<close>, \<^verbatim>\<open>Root\<close>, \<^verbatim>\<open>ForEach\<close>), with the
  version 4 and the current actor as the decoded value.
\<close>

record ('a, 's, 'm, 'i, 'kb) tree_env =
  e_isID :: "'a \<Rightarrow> bool"
  e_Undef :: 'a
  e_InitAddr :: 'a
  e_newFromBytes :: "'kb \<Rightarrow> stree_error + 'a"
  e_initLoad :: "'s \<Rightarrow> 'a actor \<Rightarrow> stree_error + 'i"
  e_resolve :: "'i \<Rightarrow> 'a \<Rightarrow> stree_error + 'a option"
  e_mapNewID :: "'i \<Rightarrow> 'a \<Rightarrow> stree_error + 'a \<times> 'i"
  e_putInit :: "'s \<Rightarrow> 'i \<Rightarrow> stree_error + cid \<times> 's"
  e_putInfo :: "'s \<Rightarrow> stree_error + cid \<times> 's"
  e_putRoot :: "'s \<Rightarrow> stateRoot \<Rightarrow> stree_error + cid \<times> 's"
  e_getRoot :: "'s \<Rightarrow> cid \<Rightarrow> stree_error + stateRoot"
  e_newTree :: "nat \<Rightarrow> 's \<Rightarrow> stree_error + 'm \<times> 's"
  e_loadTree :: "nat \<Rightarrow> 's \<Rightarrow> cid \<Rightarrow> stree_error + 'm"
  e_get4 :: "'m \<Rightarrow> 'a \<Rightarrow> stree_error + actorV4 option"
  e_get5 :: "'m \<Rightarrow> 'a \<Rightarrow> stree_error + 'a actor option"
  e_put4 :: "'m \<Rightarrow> 'a \<Rightarrow> actorV4 \<Rightarrow> stree_error + 'm"
  e_put5 :: "'m \<Rightarrow> 'a \<Rightarrow> 'a actor \<Rightarrow> stree_error + 'm"
  e_delete :: "'m \<Rightarrow> 'a \<Rightarrow> stree_error + 'm"
  e_rootCid :: "'m \<Rightarrow> 's \<Rightarrow> stree_error + cid \<times> 's"
  e_forEach4 :: "'m \<Rightarrow> (stree_error + 'kb \<times> actorV4) list"
  e_forEach5 :: "'m \<Rightarrow> (stree_error + 'kb \<times> 'a actor) list"

record ('a, 's, 'm) stateTree =
  st_root :: 'm
  st_version :: nat
  st_info :: cid
  st_Store :: 's
  st_snaps :: "'a stateSnaps"

section \<open>Versions, creation and loading\<close>

definition VersionForNetwork :: "nat \<Rightarrow> stree_error + nat" where
  "VersionForNetwork ver =
     (if ver \<le> 3 then Inr 0
      else if ver \<le> 9 then Inr 1
      else if ver \<le> 11 then Inr 2
      else if ver = 12 then Inr 3
      else if ver \<le> 17 then Inr 4
      else if ver \<le> 21 then Inr 5
      else Inl Panic)"

definition NewStateTree ::
  "('a, 's, 'm, 'i, 'kb) tree_env \<Rightarrow> 's \<Rightarrow> nat \<Rightarrow> stree_error + ('a, 's, 'm) stateTree" where
  "NewStateTree E cst ver =
     (case (if ver = 0 then Inr (cidUndef, cst)
            else if ver \<le> 5 then e_putInfo E cst
            else Inl (Errorf ''unsupported state tree version'')) of
        Inl err \<Rightarrow> Inl err
      | Inr (info0, cst1) \<Rightarrow>
          (case e_newTree E ver cst1 of
             Inl err \<Rightarrow> Inl (Wrapf ''failed to create state tree'' err)
           | Inr (hamt, cst2) \<Rightarrow>
               Inr \<lparr>st_root = hamt, st_version = ver, st_info = info0, st_Store = cst2,
                    st_snaps = newStateSnaps\<rparr>))"

definition LoadStateTree ::
  "('a, 's, 'm, 'i, 'kb) tree_env \<Rightarrow> 's \<Rightarrow> cid \<Rightarrow> stree_error + ('a, 's, 'm) stateTree" where
  "LoadStateTree E cst c =
     (let root = (case e_getRoot E cst c of
                    Inl _ \<Rightarrow> \<lparr>sr_Version = 0, sr_Actors = c, sr_Info = cidUndef\<rparr>
                  | Inr r \<Rightarrow> r)
      in if sr_Version root > 5 then Inl (Errorf ''unsupported state tree version'')
         else case e_loadTree E (sr_Version root) cst (sr_Actors root) of
           Inl err \<Rightarrow> Inl (Wrapf ''failed to load state tree'' err)
         | Inr hamt \<Rightarrow>
             Inr \<lparr>st_root = hamt, st_version = sr_Version root, st_info = sr_Info root,
                  st_Store = cst, st_snaps = newStateSnaps\<rparr>)"

section \<open>Lookups\<close>

text \<open>
  Reading an actor from the HAMT: trees up to version 4 hold version 4 actors.
\<close>

definition root_get ::
  "('a, 's, 'm, 'i, 'kb) tree_env \<Rightarrow> nat \<Rightarrow> 'm \<Rightarrow> 'a \<Rightarrow> stree_error + 'a actor option" where
  "root_get E ver m addr =
     (if ver \<le> 4
      then (case e_get4 E m addr of Inl err \<Rightarrow> Inl err | Inr r \<Rightarrow> Inr (map_option AsActorV5 r))
      else e_get5 E m addr)"

text \<open>
  \<open>LookupID\<close> calls the tree's \<^verbatim>\<open>lookupIDFun\<close>, which calls \<open>GetActor\<close> on the
  init actor's address, which calls \<open>LookupID\<close> again; the two operations take the lookup
  function as an argument, and the inner call is cut where the init actor's address is not an
  ID address and the Go code would recurse without end.
\<close>

type_synonym ('a, 's, 'm, 'r) tree_fun = "('a, 's, 'm) stateTree \<Rightarrow> (stree_error + 'r) \<times> ('a, 's, 'm) stateTree"

definition LookupID_with ::
  "('a \<Rightarrow> ('a, 's, 'm, 'a) tree_fun) \<Rightarrow> ('a, 's, 'm, 'i, 'kb) tree_env \<Rightarrow> 'a \<Rightarrow> ('a, 's, 'm, 'a) tree_fun" where
  "LookupID_with lookupIDFun E addr st =
     (if e_isID E addr then (Inr addr, st)
      else case resolveAddress (st_snaps st) addr of
        None \<Rightarrow> (Inl Panic, st)
      | Some (Some resa, ss) \<Rightarrow> (Inr resa, st\<lparr>st_snaps := ss\<rparr>)
      | Some (None, ss) \<Rightarrow>
          (case lookupIDFun addr (st\<lparr>st_snaps := ss\<rparr>) of
             (Inl err, st1) \<Rightarrow> (Inl err, st1)
           | (Inr a, st1) \<Rightarrow>
               (case cacheResolveAddress (st_snaps st1) addr a of
                  None \<Rightarrow> (Inl Panic, st1)
                | Some ss1 \<Rightarrow> (Inr a, st1\<lparr>st_snaps := ss1\<rparr>))))"

definition GetActor_with ::
  "('a \<Rightarrow> ('a, 's, 'm, 'a) tree_fun) \<Rightarrow> ('a, 's, 'm, 'i, 'kb) tree_env \<Rightarrow> 'a \<Rightarrow> ('a, 's, 'm, 'a actor) tree_fun" where
  "GetActor_with lookupIDFun E addr st =
     (if addr = e_Undef E then (Inl (Errorf ''GetActor called on undefined address''), st)
      else case LookupID_with lookupIDFun E addr st of
        (Inl err, st1) \<Rightarrow>
          (Inl (if errors_Is_NotFound err then Wrapf ''resolution lookup failed'' err
                else Wrapf ''address resolution'' err), st1)
      | (Inr iaddr, st1) \<Rightarrow>
          (case getActor (st_snaps st1) iaddr of
             Inl err \<Rightarrow> (Inl err, st1)
           | Inr (Some act) \<Rightarrow> (Inr act, st1)
           | Inr None \<Rightarrow>
               (case root_get E (st_version st1) (st_root st1) iaddr of
                  Inl err \<Rightarrow> (Inl (Wrapf ''hamt find failed'' err), st1)
                | Inr None \<Rightarrow> (Inl ErrActorNotFound, st1)
                | Inr (Some act) \<Rightarrow>
                    (case setActor (st_snaps st1) iaddr act of
                       None \<Rightarrow> (Inl Panic, st1)
                     | Some ss \<Rightarrow> (Inr act, st1\<lparr>st_snaps := ss\<rparr>)))))"

definition lookupIDinternal ::
  "('a, 's, 'm, 'i, 'kb) tree_env \<Rightarrow> 'a \<Rightarrow> ('a, 's, 'm, 'a) tree_fun" where
  "lookupIDinternal E addr st =
     (case GetActor_with (\<lambda>_ st'. (Inl Panic, st')) E (e_InitAddr E) st of
        (Inl err, st1) \<Rightarrow> (Inl (Wrapf ''getting init actor'' err), st1)
      | (Inr act, st1) \<Rightarrow>
          (case e_initLoad E (st_Store st1) act of
             Inl err \<Rightarrow> (Inl (Wrapf ''loading init actor state'' err), st1)
           | Inr ias \<Rightarrow>
               (case e_resolve E ias addr of
                  Inl err \<Rightarrow> (Inl (Wrapf ''resolve address'' err), st1)
                | Inr None \<Rightarrow> (Inl (Wrapf ''resolve address'' ErrActorNotFound), st1)
                | Inr (Some a) \<Rightarrow> (Inr a, st1))))"

definition LookupID :: "('a, 's, 'm, 'i, 'kb) tree_env \<Rightarrow> 'a \<Rightarrow> ('a, 's, 'm, 'a) tree_fun" where
  "LookupID E = LookupID_with (lookupIDinternal E) E"

definition GetActor :: "('a, 's, 'm, 'i, 'kb) tree_env \<Rightarrow> 'a \<Rightarrow> ('a, 's, 'm, 'a actor) tree_fun" where
  "GetActor E = GetActor_with (lookupIDinternal E) E"

section \<open>Updates\<close>

definition SetActor :: "('a, 's, 'm, 'i, 'kb) tree_env \<Rightarrow> 'a \<Rightarrow> 'a actor \<Rightarrow> ('a, 's, 'm, unit) tree_fun" where
  "SetActor E addr act st =
     (case LookupID E addr st of
        (Inl err, st1) \<Rightarrow> (Inl (Wrapf ''ID lookup failed'' err), st1)
      | (Inr iaddr, st1) \<Rightarrow>
          (case setActor (st_snaps st1) iaddr act of
             None \<Rightarrow> (Inl Panic, st1)
           | Some ss \<Rightarrow> (Inr (), st1\<lparr>st_snaps := ss\<rparr>)))"

definition DeleteActor :: "('a, 's, 'm, 'i, 'kb) tree_env \<Rightarrow> 'a \<Rightarrow> ('a, 's, 'm, unit) tree_fun" where
  "DeleteActor E addr st =
     (if addr = e_Undef E then (Inl (Errorf ''DeleteActor called on undefined address''), st)
      else case LookupID E addr st of
        (Inl err, st1) \<Rightarrow>
          (Inl (if errors_Is_NotFound err then Wrapf ''resolution lookup failed'' err
                else Wrapf ''address resolution'' err), st1)
      | (Inr iaddr, st1) \<Rightarrow>
          (case GetActor E iaddr st1 of
             (Inl err, st2) \<Rightarrow> (Inl err, st2)
           | (Inr _, st2) \<Rightarrow>
               (case deleteActor (st_snaps st2) iaddr of
                  None \<Rightarrow> (Inl Panic, st2)
                | Some ss \<Rightarrow> (Inr (), st2\<lparr>st_snaps := ss\<rparr>))))"

text \<open>
  \<open>MutateActor\<close>: the callback gets the actor and the store it closes over, and returns
  the mutated actor with a result of its own.
\<close>

definition MutateActor ::
  "('a, 's, 'm, 'i, 'kb) tree_env \<Rightarrow> 'a \<Rightarrow> ('a actor \<Rightarrow> 's \<Rightarrow> (stree_error + 'a actor \<times> 'x) \<times> 's)
     \<Rightarrow> ('a, 's, 'm, 'x) tree_fun" where
  "MutateActor E addr f st =
     (case GetActor E addr st of
        (Inl err, st1) \<Rightarrow> (Inl err, st1)
      | (Inr act, st1) \<Rightarrow>
          (case f act (st_Store st1) of
             (Inl err, cst) \<Rightarrow> (Inl err, st1\<lparr>st_Store := cst\<rparr>)
           | (Inr (act', x), cst) \<Rightarrow>
               (case SetActor E addr act' (st1\<lparr>st_Store := cst\<rparr>) of
                  (Inl err, st2) \<Rightarrow> (Inl err, st2)
                | (Inr _, st2) \<Rightarrow> (Inr x, st2))))"

definition RegisterNewAddress :: "('a, 's, 'm, 'i, 'kb) tree_env \<Rightarrow> 'a \<Rightarrow> ('a, 's, 'm, 'a) tree_fun" where
  "RegisterNewAddress E addr =
     MutateActor E (e_InitAddr E)
       (\<lambda>initact cst.
          case e_initLoad E cst initact of
            Inl err \<Rightarrow> (Inl err, cst)
          | Inr ias \<Rightarrow>
              (case e_mapNewID E ias addr of
                 Inl err \<Rightarrow> (Inl err, cst)
               | Inr (oaddr, ias') \<Rightarrow>
                   (case e_putInit E cst ias' of
                      Inl err \<Rightarrow> (Inl err, cst)
                    | Inr (ncid, cst') \<Rightarrow> (Inr (initact\<lparr>a_Head := ncid\<rparr>, oaddr), cst'))))"

section \<open>Snapshots\<close>

definition Snapshot :: "('a, 's, 'm) stateTree \<Rightarrow> ('a, 's, 'm) stateTree" where
  "Snapshot st = st\<lparr>st_snaps := addLayer (st_snaps st)\<rparr>"

definition ClearSnapshot :: "('a, 's, 'm) stateTree \<Rightarrow> ('a, 's, 'm) stateTree option" where
  "ClearSnapshot st =
     (case mergeLastLayer (st_snaps st) of None \<Rightarrow> None | Some ss \<Rightarrow> Some (st\<lparr>st_snaps := ss\<rparr>))"

definition Revert :: "('a, 's, 'm) stateTree \<Rightarrow> ('a, 's, 'm) stateTree option" where
  "Revert st =
     (case dropLayer (st_snaps st) of None \<Rightarrow> None | Some ss \<Rightarrow> Some (st\<lparr>st_snaps := addLayer ss\<rparr>))"

section \<open>Flushing and iterating\<close>

text \<open>
  \<open>Flush\<close> writes the only layer into the HAMT. The runtime chooses the order in which it
  visits the layer's entries: the argument \<open>ord\<close>.
\<close>

definition root_put ::
  "('a, 's, 'm, 'i, 'kb) tree_env \<Rightarrow> nat \<Rightarrow> 'm \<Rightarrow> 'a \<Rightarrow> 'a streeOp \<Rightarrow> stree_error + 'm" where
  "root_put E ver m addr sto =
     (if so_Delete sto then e_delete E m addr
      else if ver \<le> 4 then e_put4 E m addr (AsActorV4 (so_Act sto))
      else e_put5 E m addr (so_Act sto))"

fun flush_entries ::
  "('a, 's, 'm, 'i, 'kb) tree_env \<Rightarrow> nat \<Rightarrow> 'm \<Rightarrow> ('a \<times> 'a streeOp) list \<Rightarrow> (stree_error + unit) \<times> 'm" where
  "flush_entries E ver m [] = (Inr (), m)"
| "flush_entries E ver m ((addr, sto) # es) =
     (case root_put E ver m addr sto of
        Inl err \<Rightarrow> (Inl err, m)
      | Inr m' \<Rightarrow> flush_entries E ver m' es)"

definition Flush ::
  "('a, 's, 'm, 'i, 'kb) tree_env \<Rightarrow> (('a \<times> 'a streeOp) list \<Rightarrow> ('a \<times> 'a streeOp) list)
     \<Rightarrow> ('a, 's, 'm, cid) tree_fun" where
  "Flush E ord st =
     (if length (layers (st_snaps st)) \<noteq> 1
      then (Inl (Errorf ''tried to flush state tree with snapshots on the stack''), st)
      else case flush_entries E (st_version st) (st_root st) (ord (actors (layers (st_snaps st) ! 0))) of
        (Inl err, m) \<Rightarrow> (Inl err, st\<lparr>st_root := m\<rparr>)
      | (Inr _, m) \<Rightarrow>
          (let st1 = st\<lparr>st_root := m\<rparr> in
           case e_rootCid E m (st_Store st1) of
             Inl err \<Rightarrow> (Inl (Wrapf ''failed to flush state-tree hamt'' err), st1)
           | Inr (root, cst) \<Rightarrow>
               (let st2 = st1\<lparr>st_Store := cst\<rparr> in
                if st_version st2 = 0 then (Inr root, st2)
                else case e_putRoot E cst \<lparr>sr_Version = st_version st2, sr_Actors = root, sr_Info = st_info st2\<rparr> of
                  Inl err \<Rightarrow> (Inl err, st2)
                | Inr (c, cst2) \<Rightarrow> (Inr c, st2\<lparr>st_Store := cst2\<rparr>))))"

text \<open>
  \<open>ForEach\<close> calls \<open>f\<close> on every live actor: first the layers, newest first, then the
  HAMT. The callback has a state of its own and stops the walk with an error. \<open>seen\<close> is
  the map of addresses met in the layers.
\<close>

fun forEach_layer ::
  "('a \<Rightarrow> 'a actor \<Rightarrow> 'x \<Rightarrow> (stree_error + unit) \<times> 'x) \<Rightarrow> ('a \<times> 'a streeOp) list \<Rightarrow> 'a list \<Rightarrow> 'x
     \<Rightarrow> (stree_error + 'a list) \<times> 'x" where
  "forEach_layer f [] seen x = (Inr seen, x)"
| "forEach_layer f ((addr, opn) # es) seen x =
     (if addr \<in> set seen then forEach_layer f es seen x
      else if so_Delete opn then forEach_layer f es (addr # seen) x
      else case f addr (so_Act opn) x of
        (Inl err, x') \<Rightarrow> (Inl err, x')
      | (Inr _, x') \<Rightarrow> forEach_layer f es (addr # seen) x')"

fun forEach_layers ::
  "('a \<Rightarrow> 'a actor \<Rightarrow> 'x \<Rightarrow> (stree_error + unit) \<times> 'x) \<Rightarrow> ('a \<times> 'a streeOp) list list \<Rightarrow> 'a list \<Rightarrow> 'x
     \<Rightarrow> (stree_error + 'a list) \<times> 'x" where
  "forEach_layers f [] seen x = (Inr seen, x)"
| "forEach_layers f (es # ess) seen x =
     (case forEach_layer f es seen x of
        (Inl err, x') \<Rightarrow> (Inl err, x')
      | (Inr seen', x') \<Rightarrow> forEach_layers f ess seen' x')"

fun forEach_root ::
  "('kb \<Rightarrow> stree_error + 'a) \<Rightarrow> ('v \<Rightarrow> 'a actor) \<Rightarrow> ('a \<Rightarrow> 'a actor \<Rightarrow> 'x \<Rightarrow> (stree_error + unit) \<times> 'x)
     \<Rightarrow> 'a list \<Rightarrow> (stree_error + 'kb \<times> 'v) list \<Rightarrow> 'x \<Rightarrow> (stree_error + unit) \<times> 'x" where
  "forEach_root parse conv f seen [] x = (Inr (), x)"
| "forEach_root parse conv f seen (Inl err # es) x = (Inl err, x)"
| "forEach_root parse conv f seen (Inr (k, act) # es) x =
     (case parse k of
        Inl err \<Rightarrow> (Inl (Wrapf ''invalid address found in state tree key'' err), x)
      | Inr addr \<Rightarrow>
          (if addr \<in> set seen then forEach_root parse conv f seen es x
           else case f addr (conv act) x of
             (Inl err, x') \<Rightarrow> (Inl err, x')
           | (Inr _, x') \<Rightarrow> forEach_root parse conv f seen es x'))"

definition ForEach ::
  "('a, 's, 'm, 'i, 'kb) tree_env \<Rightarrow> (('a \<times> 'a streeOp) list \<Rightarrow> ('a \<times> 'a streeOp) list)
     \<Rightarrow> ('a \<Rightarrow> 'a actor \<Rightarrow> 'x \<Rightarrow> (stree_error + unit) \<times> 'x) \<Rightarrow> ('a, 's, 'm) stateTree \<Rightarrow> 'x
     \<Rightarrow> (stree_error + unit) \<times> 'x" where
  "ForEach E ord f st x =
     (case forEach_layers f (map (\<lambda>l. ord (actors l)) (rev (layers (st_snaps st)))) [] x of
        (Inl err, x') \<Rightarrow> (Inl err, x')
      | (Inr seen, x') \<Rightarrow>
          (if st_version st \<le> 4
           then forEach_root (e_newFromBytes E) AsActorV5 f seen (e_forEach4 E (st_root st)) x'
           else forEach_root (e_newFromBytes E) id f seen (e_forEach5 E (st_root st)) x'))"

section \<open>What the tree holds, and what an operation may touch\<close>

text \<open>
  \<open>view_at\<close> is the actor stored under an ID address: the newest pending write, or else
  what the HAMT holds. An operation is local when it leaves the HAMT, the version and every
  layer below the newest alone; it is a read when it also leaves \<open>view_at\<close> alone.
\<close>

definition view_at :: "('a, 's, 'm, 'i, 'kb) tree_env \<Rightarrow> ('a, 's, 'm) stateTree \<Rightarrow> 'a \<Rightarrow> stree_error + 'a actor" where
  "view_at E st a =
     (case actor_view (st_snaps st) a of
        Some opn \<Rightarrow> if so_Delete opn then Inl ErrActorNotFound else Inr (so_Act opn)
      | None \<Rightarrow>
          (case root_get E (st_version st) (st_root st) a of
             Inl err \<Rightarrow> Inl (Wrapf ''hamt find failed'' err)
           | Inr None \<Rightarrow> Inl ErrActorNotFound
           | Inr (Some act) \<Rightarrow> Inr act))"

abbreviation tree_wf :: "('a, 's, 'm) stateTree \<Rightarrow> bool" where
  "tree_wf st \<equiv> snaps_wf (st_snaps st)"

definition tree_local :: "('a, 's, 'm) stateTree \<Rightarrow> ('a, 's, 'm) stateTree \<Rightarrow> bool" where
  "tree_local st st' \<longleftrightarrow> tree_wf st' \<and> st_root st' = st_root st \<and> st_version st' = st_version st
     \<and> st_info st' = st_info st
     \<and> length (layers (st_snaps st')) = length (layers (st_snaps st))
     \<and> tl (actor_views (st_snaps st')) = tl (actor_views (st_snaps st))
     \<and> tl (cache_views (st_snaps st')) = tl (cache_views (st_snaps st))"

definition tree_read ::
  "('a, 's, 'm, 'i, 'kb) tree_env \<Rightarrow> ('a, 's, 'm) stateTree \<Rightarrow> ('a, 's, 'm) stateTree \<Rightarrow> bool" where
  "tree_read E st st' \<longleftrightarrow> tree_local st st' \<and> st_Store st' = st_Store st \<and> (\<forall>a. view_at E st' a = view_at E st a)"

lemma tree_local_refl: "tree_wf st \<Longrightarrow> tree_local st st"
  by (simp add: tree_local_def)

lemma tree_local_trans: "tree_local s t \<Longrightarrow> tree_local t u \<Longrightarrow> tree_local s u"
  by (simp add: tree_local_def)

lemma tree_local_wf: "tree_local s t \<Longrightarrow> tree_wf t"
  by (simp add: tree_local_def)

lemma tree_read_refl: "tree_wf st \<Longrightarrow> tree_read E st st"
  by (simp add: tree_read_def tree_local_refl)

lemma tree_read_trans: "tree_read E s t \<Longrightarrow> tree_read E t u \<Longrightarrow> tree_read E s u"
  by (auto simp: tree_read_def intro: tree_local_trans)

lemma tree_read_local: "tree_read E s t \<Longrightarrow> tree_local s t"
  by (simp add: tree_read_def)

lemma tree_local_store: "tree_local s t \<Longrightarrow> tree_local s (t\<lparr>st_Store := cst\<rparr>)"
  by (simp add: tree_local_def)

lemma length_tl_views:
  "snaps_wf ss \<Longrightarrow> actor_views ss = v # tl vs \<Longrightarrow> vs \<noteq> [] \<Longrightarrow> length (actor_views ss) = length vs"
  by (cases vs) simp_all

lemma views_hint [simp]:
  "actor_views (ss\<lparr>lastMaybeNonEmptyResolveCache := h\<rparr>) = actor_views ss"
  "cache_views (ss\<lparr>lastMaybeNonEmptyResolveCache := h\<rparr>) = cache_views ss"
  by (simp_all add: actor_views_def cache_views_def)

lemma view_at_cong:
  "actor_view (st_snaps s) = actor_view (st_snaps t) \<Longrightarrow> st_version s = st_version t \<Longrightarrow> st_root s = st_root t \<Longrightarrow>
    view_at E s a = view_at E t a"
  by (simp add: view_at_def split: option.split)

lemma view_at_put:
  "actor_view ss = (actor_view (st_snaps st))(a \<mapsto> opn) \<Longrightarrow>
    view_at E (st\<lparr>st_snaps := ss\<rparr>) b =
      (if b = a then (if so_Delete opn then Inl ErrActorNotFound else Inr (so_Act opn)) else view_at E st b)"
  by (simp add: view_at_def split: option.split)

text \<open>A write into the newest layer is local and changes the view at one address.\<close>

lemma putOp_tree:
  assumes "tree_wf st"
  shows "\<exists>ss. putOp (st_snaps st) a opn = Some ss \<and> tree_local st (st\<lparr>st_snaps := ss\<rparr>)
    \<and> actor_view ss = (actor_view (st_snaps st))(a \<mapsto> opn)"
proof -
  obtain ss where ss: "putOp (st_snaps st) a opn = Some ss" "snaps_wf ss"
      "actor_views ss = (actor_view (st_snaps st))(a \<mapsto> opn) # tl (actor_views (st_snaps st))"
      "cache_views ss = cache_views (st_snaps st)"
    using putOp_ok [OF assms, of a opn] by fast
  have "length (layers ss) = length (layers (st_snaps st))"
    using ss(4) by (metis length_views(2))
  with ss show ?thesis
    by (simp add: tree_local_def)
qed

lemma resolveAddress_tree:
  assumes "tree_wf st"
  shows "\<exists>ss. resolveAddress (st_snaps st) a = Some (cache_view (st_snaps st) a, ss)
    \<and> tree_read E st (st\<lparr>st_snaps := ss\<rparr>) \<and> cache_views ss = cache_views (st_snaps st)"
proof -
  obtain h where h: "resolveAddress (st_snaps st) a =
        Some (cache_view (st_snaps st) a, st_snaps st\<lparr>lastMaybeNonEmptyResolveCache := h\<rparr>)"
      "snaps_wf (st_snaps st\<lparr>lastMaybeNonEmptyResolveCache := h\<rparr>)"
    using resolveAddress_ok [OF assms, of a] by fast
  moreover have "view_at E (st\<lparr>st_snaps := st_snaps st\<lparr>lastMaybeNonEmptyResolveCache := h\<rparr>\<rparr>) b = view_at E st b" for b
    by (rule view_at_cong) simp_all
  ultimately show ?thesis
    by (simp add: tree_read_def tree_local_def)
qed

lemma cacheResolveAddress_tree:
  assumes "tree_wf st"
  shows "\<exists>ss. cacheResolveAddress (st_snaps st) a r = Some ss \<and> tree_read E st (st\<lparr>st_snaps := ss\<rparr>)"
proof -
  obtain ss where ss: "cacheResolveAddress (st_snaps st) a r = Some ss" "snaps_wf ss"
      "cache_views ss = (cache_view (st_snaps st))(a \<mapsto> r) # tl (cache_views (st_snaps st))"
      "actor_views ss = actor_views (st_snaps st)"
    using cacheResolveAddress_ok [OF assms, of a r] by fast
  have "length (layers ss) = length (layers (st_snaps st))"
    using ss(4) by (metis length_views(1))
  moreover have "view_at E (st\<lparr>st_snaps := ss\<rparr>) b = view_at E st b" for b
    by (rule view_at_cong) (simp_all add: ss)
  ultimately show ?thesis
    using ss by (simp add: tree_read_def tree_local_def)
qed

section \<open>Lookups are reads\<close>

text \<open>\<open>pure_lookup F\<close>: the lookup function is a read itself.\<close>

definition pure_lookup ::
  "('a, 's, 'm, 'i, 'kb) tree_env \<Rightarrow> ('a \<Rightarrow> ('a, 's, 'm, 'a) tree_fun) \<Rightarrow> bool" where
  "pure_lookup E F \<longleftrightarrow> (\<forall>a st. tree_wf st \<longrightarrow> tree_read E st (snd (F a st)))"

lemma LookupID_with_read:
  assumes "pure_lookup E F" and wf: "tree_wf st"
  shows "tree_read E st (snd (LookupID_with F E addr st))"
proof (cases "e_isID E addr")
  case True
  then show ?thesis by (simp add: LookupID_with_def tree_read_refl wf)
next
  case False
  obtain ss where ss: "resolveAddress (st_snaps st) addr = Some (cache_view (st_snaps st) addr, ss)"
      "tree_read E st (st\<lparr>st_snaps := ss\<rparr>)"
    using resolveAddress_tree [OF wf] by fast
  show ?thesis
  proof (cases "cache_view (st_snaps st) addr")
    case (Some resa)
    then show ?thesis using False ss by (simp add: LookupID_with_def)
  next
    case None
    let ?st = "st\<lparr>st_snaps := ss\<rparr>"
    obtain r st1 where F: "F addr ?st = (r, st1)" by fastforce
    have wf1: "tree_wf ?st"
      using ss(2) by (simp add: tree_read_def tree_local_def)
    then have st1: "tree_read E ?st st1"
      using assms(1) F unfolding pure_lookup_def by (metis snd_conv)
    show ?thesis
    proof (cases r)
      case (Inl err)
      then show ?thesis
        using False None ss F st1 by (simp add: LookupID_with_def tree_read_trans)
    next
      case (Inr a)
      have "tree_wf st1" using st1 by (simp add: tree_read_def tree_local_def)
      then obtain ss1 where "cacheResolveAddress (st_snaps st1) addr a = Some ss1"
          "tree_read E st1 (st1\<lparr>st_snaps := ss1\<rparr>)"
        using cacheResolveAddress_tree by fast
      then show ?thesis
        using False None ss F st1 Inr
        by (simp add: LookupID_with_def) (blast intro: tree_read_trans)
    qed
  qed
qed

lemma root_cached_read:
  assumes wf: "tree_wf st" and none: "actor_view (st_snaps st) a = None"
    and act: "root_get E (st_version st) (st_root st) a = Inr (Some act)"
  shows "\<exists>ss. setActor (st_snaps st) a act = Some ss \<and> tree_read E st (st\<lparr>st_snaps := ss\<rparr>)"
proof -
  obtain ss where ss: "setActor (st_snaps st) a act = Some ss" "tree_local st (st\<lparr>st_snaps := ss\<rparr>)"
      "actor_view ss = (actor_view (st_snaps st))(a \<mapsto> \<lparr>so_Act = act, so_Delete = False\<rparr>)"
    using putOp_tree [OF wf] unfolding setActor_def by fast
  then have "view_at E (st\<lparr>st_snaps := ss\<rparr>) b = view_at E st b" for b
    using none act by (simp add: view_at_def split: option.split)
  with ss show ?thesis by (simp add: tree_read_def)
qed

text \<open>
  What \<open>GetActor\<close> answers at an ID address, and that it is a read.
\<close>

lemma GetActor_with_read:
  assumes "pure_lookup E F" and wf: "tree_wf st"
  shows "tree_read E st (snd (GetActor_with F E addr st))"
proof (cases "addr = e_Undef E")
  case True
  then show ?thesis by (simp add: GetActor_with_def tree_read_refl wf)
next
  case False
  obtain r st1 where L: "LookupID_with F E addr st = (r, st1)" by fastforce
  have st1: "tree_read E st st1"
    using LookupID_with_read [OF assms, of addr] L by simp
  then have wf1: "tree_wf st1" by (simp add: tree_read_def tree_local_def)
  show ?thesis
  proof (cases r)
    case (Inl err)
    with False L st1 show ?thesis by (simp add: GetActor_with_def)
  next
    case (Inr iaddr)
    show ?thesis
    proof (cases "actor_view (st_snaps st1) iaddr")
      case None
      then have g: "getActor (st_snaps st1) iaddr = Inr None"
        by (simp add: getActor_view [OF wf1])
      show ?thesis
      proof (cases "\<exists>act. root_get E (st_version st1) (st_root st1) iaddr = Inr (Some act)")
        case True
        then obtain act ss where "root_get E (st_version st1) (st_root st1) iaddr = Inr (Some act)"
            "setActor (st_snaps st1) iaddr act = Some ss" "tree_read E st1 (st1\<lparr>st_snaps := ss\<rparr>)"
          using root_cached_read [OF wf1 None] by fast
        with False L Inr g st1 show ?thesis
          by (simp add: GetActor_with_def) (blast intro: tree_read_trans)
      next
        case no: False
        with False L Inr g st1 show ?thesis
          by (auto simp: GetActor_with_def split: sum.split option.split)
      qed
    next
      case (Some opn)
      with False L Inr st1 show ?thesis
        by (simp add: GetActor_with_def getActor_view [OF wf1])
    qed
  qed
qed

lemma GetActor_with_ID:
  assumes "tree_wf st" and "e_isID E addr" and "addr \<noteq> e_Undef E"
  shows "fst (GetActor_with F E addr st) = view_at E st addr"
proof (cases "actor_view (st_snaps st) addr")
  case None
  have "setActor (st_snaps st) addr act \<noteq> None" for act
    unfolding setActor_def using putOp_tree [OF assms(1)] by fastforce
  then show ?thesis
    using assms None
    by (auto simp: GetActor_with_def LookupID_with_def view_at_def getActor_view
        split: sum.split option.split) (metis option.distinct(1))
next
  case (Some opn)
  then show ?thesis
    using assms by (simp add: GetActor_with_def LookupID_with_def view_at_def getActor_view)
qed

lemma lookupIDinternal_read:
  fixes E :: "('a, 's, 'm, 'i, 'kb) tree_env"
  shows "pure_lookup E (lookupIDinternal E)"
  unfolding pure_lookup_def
proof (intro allI impI)
  fix a st
  assume wf: "tree_wf (st :: ('a, 's, 'm) stateTree)"
  let ?F = "\<lambda>(_::'a) (st'::('a, 's, 'm) stateTree). (Inl Panic :: stree_error + 'a, st')"
  obtain r st1 where G: "GetActor_with ?F E (e_InitAddr E) st = (r, st1)" by fastforce
  have "pure_lookup E ?F" by (simp add: pure_lookup_def tree_read_refl)
  from GetActor_with_read [OF this wf, of "e_InitAddr E"] G have "tree_read E st st1" by simp
  then show "tree_read E st (snd (lookupIDinternal E a st))"
    using G by (auto simp: lookupIDinternal_def split: sum.split option.split)
qed

lemmas LookupID_read = LookupID_with_read [OF lookupIDinternal_read, folded LookupID_def]
lemmas GetActor_read = GetActor_with_read [OF lookupIDinternal_read, folded GetActor_def]

lemma GetActor_ID:
  "tree_wf st \<Longrightarrow> e_isID E addr \<Longrightarrow> addr \<noteq> e_Undef E \<Longrightarrow> fst (GetActor E addr st) = view_at E st addr"
  unfolding GetActor_def by (rule GetActor_with_ID)

section \<open>Updates are local\<close>

text \<open>
  \<open>SetActor\<close> either fails in the address lookup and is a read, or writes the actor under
  the resolved address and nothing else.
\<close>

lemma SetActor_cases:
  assumes wf: "tree_wf st"
  shows "(\<exists>err st1. SetActor E addr act st = (Inl (Wrapf ''ID lookup failed'' err), st1) \<and> tree_read E st st1
        \<and> LookupID E addr st = (Inl err, st1))
    \<or> (\<exists>iaddr st1 st2. SetActor E addr act st = (Inr (), st2) \<and> LookupID E addr st = (Inr iaddr, st1)
        \<and> tree_local st st2 \<and> st_Store st2 = st_Store st
        \<and> (\<forall>b. view_at E st2 b = (if b = iaddr then Inr act else view_at E st b)))"
proof -
  obtain r st1 where L: "LookupID E addr st = (r, st1)" by fastforce
  have st1: "tree_read E st st1"
    using LookupID_read [OF wf, of E addr] L by simp
  then have wf1: "tree_wf st1" by (simp add: tree_read_def tree_local_def)
  show ?thesis
  proof (cases r)
    case (Inl err)
    with L st1 show ?thesis by (simp add: SetActor_def)
  next
    case (Inr iaddr)
    obtain ss where ss: "setActor (st_snaps st1) iaddr act = Some ss"
        "tree_local st1 (st1\<lparr>st_snaps := ss\<rparr>)"
        "actor_view ss = (actor_view (st_snaps st1))(iaddr \<mapsto> \<lparr>so_Act = act, so_Delete = False\<rparr>)"
      using putOp_tree [OF wf1] unfolding setActor_def by fast
    have "view_at E (st1\<lparr>st_snaps := ss\<rparr>) b = (if b = iaddr then Inr act else view_at E st b)" for b
      using view_at_put [OF ss(3), of E b] st1 by (simp add: tree_read_def)
    moreover have "tree_local st (st1\<lparr>st_snaps := ss\<rparr>)"
      using st1 ss(2) by (blast intro: tree_local_trans tree_read_local)
    ultimately show ?thesis
      using L Inr ss(1) st1 by (auto simp: SetActor_def tree_read_def)
  qed
qed

lemma SetActor_local: "tree_wf st \<Longrightarrow> tree_local st (snd (SetActor E addr act st))"
  using SetActor_cases [of st E addr act] by (auto dest: tree_read_local)

lemma DeleteActor_local:
  assumes wf: "tree_wf st"
  shows "tree_local st (snd (DeleteActor E addr st))"
proof (cases "addr = e_Undef E")
  case True
  then show ?thesis by (simp add: DeleteActor_def tree_local_refl wf)
next
  case False
  obtain r st1 where L: "LookupID E addr st = (r, st1)" by fastforce
  have st1: "tree_local st st1"
    using LookupID_read [OF wf, of E addr] L by (simp add: tree_read_def)
  show ?thesis
  proof (cases r)
    case (Inl err)
    with L st1 False show ?thesis by (simp add: DeleteActor_def)
  next
    case (Inr iaddr)
    obtain g st2 where G: "GetActor E iaddr st1 = (g, st2)" by fastforce
    have st2: "tree_local st1 st2"
      using GetActor_read [OF tree_local_wf [OF st1], of E iaddr] G by (simp add: tree_read_def)
    then obtain ss where ss: "deleteActor (st_snaps st2) iaddr = Some ss" "tree_local st2 (st2\<lparr>st_snaps := ss\<rparr>)"
      using putOp_tree [OF tree_local_wf [OF st2]] unfolding deleteActor_def by fast
    show ?thesis
    proof (cases g)
      case (Inl err)
      then show ?thesis
        using False L Inr G st1 st2 by (simp add: DeleteActor_def tree_local_trans)
    next
      case inr: (Inr act)
      have "tree_local st (st2\<lparr>st_snaps := ss\<rparr>)"
        using st1 st2 ss(2) by (blast intro: tree_local_trans)
      then show ?thesis
        using False L Inr G inr ss(1) by (simp add: DeleteActor_def)
    qed
  qed
qed

lemma MutateActor_local:
  assumes wf: "tree_wf st"
  shows "tree_local st (snd (MutateActor E addr f st))"
proof -
  obtain g st1 where G: "GetActor E addr st = (g, st1)" by fastforce
  have st1: "tree_local st st1"
    using GetActor_read [OF wf, of E addr] G by (simp add: tree_read_def)
  show ?thesis
  proof (cases g)
    case (Inl err)
    with G st1 show ?thesis by (simp add: MutateActor_def)
  next
    case (Inr act)
    obtain fr cst where F: "f act (st_Store st1) = (fr, cst)" by fastforce
    let ?st = "st1\<lparr>st_Store := cst\<rparr>"
    have loc: "tree_local st ?st" using st1 by (rule tree_local_store)
    show ?thesis
    proof (cases fr)
      case (Inl err)
      with G Inr F loc show ?thesis by (simp add: MutateActor_def)
    next
      case inr: (Inr ax)
      obtain act' x where ax: "ax = (act', x)" by fastforce
      obtain r st2 where S: "SetActor E addr act' ?st = (r, st2)" by fastforce
      have "tree_local st st2"
        using SetActor_local [OF tree_local_wf [OF loc], of E addr act'] S loc
        by (auto intro: tree_local_trans)
      with G Inr F inr ax S show ?thesis by (auto simp: MutateActor_def split: sum.split)
    qed
  qed
qed

lemma RegisterNewAddress_local: "tree_wf st \<Longrightarrow> tree_local st (snd (RegisterNewAddress E addr st))"
  unfolding RegisterNewAddress_def by (rule MutateActor_local)

section \<open>Runs of the tree operations\<close>

text \<open>
  The operations a client interleaves between a snapshot and its end, with the results of the
  single operations dropped: an error is a value the client sees, and the run goes on. A run is
  \<open>None\<close> when ending a snapshot panics.
\<close>

datatype ('a, 's, 'x) tree_op =
    TLookup 'a
  | TGet 'a
  | TSet 'a "'a actor"
  | TDelete 'a
  | TMutate 'a "'a actor \<Rightarrow> 's \<Rightarrow> (stree_error + 'a actor \<times> 'x) \<times> 's"
  | TRegister 'a
  | TSnapshot
  | TClear
  | TRevert

fun tree_step ::
  "('a, 's, 'm, 'i, 'kb) tree_env \<Rightarrow> ('a, 's, 'x) tree_op \<Rightarrow> ('a, 's, 'm) stateTree \<Rightarrow> ('a, 's, 'm) stateTree option" where
  "tree_step E (TLookup a) st = Some (snd (LookupID E a st))"
| "tree_step E (TGet a) st = Some (snd (GetActor E a st))"
| "tree_step E (TSet a act) st = Some (snd (SetActor E a act st))"
| "tree_step E (TDelete a) st = Some (snd (DeleteActor E a st))"
| "tree_step E (TMutate a f) st = Some (snd (MutateActor E a f st))"
| "tree_step E (TRegister a) st = Some (snd (RegisterNewAddress E a st))"
| "tree_step E TSnapshot st = Some (Snapshot st)"
| "tree_step E TClear st = ClearSnapshot st"
| "tree_step E TRevert st = Revert st"

fun run_tree ::
  "('a, 's, 'm, 'i, 'kb) tree_env \<Rightarrow> ('a, 's, 'x) tree_op list \<Rightarrow> ('a, 's, 'm) stateTree \<Rightarrow> ('a, 's, 'm) stateTree option" where
  "run_tree E [] st = Some st"
| "run_tree E (opn # ops) st = Option.bind (tree_step E opn st) (run_tree E ops)"

fun snap_of ::
  "('a, 's, 'm, 'i, 'kb) tree_env \<Rightarrow> ('a, 's, 'x) tree_op \<Rightarrow> ('a, 's, 'm) stateTree snap_op" where
  "snap_of E TSnapshot = OpPush"
| "snap_of E TClear = OpMerge"
| "snap_of E TRevert = OpRevert"
| "snap_of E opn = OpLocal (tree_step E opn)"

text \<open>\<open>balanced ops\<close>: every snapshot taken in the run is ended in it, and no more.\<close>

definition balanced :: "('a, 's, 'm, 'i, 'kb) tree_env \<Rightarrow> ('a, 's, 'x) tree_op list \<Rightarrow> bool" where
  "balanced E ops \<longleftrightarrow> snap_level 0 (map (snap_of E) ops) = Some 0"

definition tree_put :: "('a, 's, 'm) stateTree \<Rightarrow> 'a \<Rightarrow> 'a streeOp \<Rightarrow> ('a, 's, 'm) stateTree option" where
  "tree_put st a opn = map_option (\<lambda>ss. st\<lparr>st_snaps := ss\<rparr>) (putOp (st_snaps st) a opn)"

definition tree_drop :: "('a, 's, 'm) stateTree \<Rightarrow> ('a, 's, 'm) stateTree option" where
  "tree_drop st = map_option (\<lambda>ss. st\<lparr>st_snaps := ss\<rparr>) (dropLayer (st_snaps st))"

lemma Revert_drop: "Revert st = map_option Snapshot (tree_drop st)"
  by (simp add: Revert_def tree_drop_def Snapshot_def split: option.split)

text \<open>The tree over a fixed HAMT is a snapshot stack itself.\<close>

interpretation tree_stack: snapshot_stack
  "\<lambda>st :: ('a, 's, 'm) stateTree. tree_wf st \<and> st_root st = m \<and> st_version st = v"
  "\<lambda>st. actor_views (st_snaps st)" tree_put Snapshot tree_drop ClearSnapshot
  for m v
proof (standard, goal_cases)
  case (1 st)
  then show ?case by (simp add: views_nonempty)
next
  case (2 st k opn)
  then obtain ss where "putOp (st_snaps st) k opn = Some ss" "snaps_wf ss"
      "actor_views ss = (actor_view (st_snaps st))(k \<mapsto> opn) # tl (actor_views (st_snaps st))"
    using putOp_ok [of "st_snaps st" k opn] by fast
  with 2 show ?case by (simp add: tree_put_def)
next
  case (3 st)
  then show ?case by (simp add: Snapshot_def addLayer_ok)
next
  case (4 st)
  then obtain ss where "dropLayer (st_snaps st) = Some ss" "snaps_wf ss"
      "actor_views ss = tl (actor_views (st_snaps st))"
    using dropLayer_ok [of "st_snaps st"] by auto
  with 4 show ?case by (simp add: tree_drop_def)
next
  case (5 st)
  then obtain ss where "mergeLastLayer (st_snaps st) = Some ss" "snaps_wf ss"
      "actor_views ss = actor_view (st_snaps st) # tl (tl (actor_views (st_snaps st)))"
    using mergeLastLayer_ok [of "st_snaps st"] by auto
  with 5 show ?case by (simp add: ClearSnapshot_def)
qed

lemma run_tree_exec: "run_tree E ops st = tree_stack.exec_ops (map (snap_of E) ops) st"
proof (induction ops arbitrary: st)
  case Nil
  show ?case by simp
next
  case (Cons opn ops)
  then have IH: "run_tree E ops = tree_stack.exec_ops (map (snap_of E) ops)" by blast
  show ?case
    by (cases opn) (simp_all add: IH Revert_drop bind_map_option comp_def)
qed

lemma tree_op_local:
  assumes "snap_of E opn = OpLocal f"
  shows "tree_stack.local_step m v f"
proof -
  have "\<exists>st'. f st = Some st' \<and> tree_local st st'" if "tree_wf st" for st
    using assms that
    by (cases opn)
       (auto intro: SetActor_local DeleteActor_local MutateActor_local RegisterNewAddress_local
          LookupID_read [THEN tree_read_local] GetActor_read [THEN tree_read_local])
  then show ?thesis
    unfolding tree_stack.local_step_def tree_local_def by fastforce
qed

lemma run_above_snapshot:
  assumes "tree_wf st" and "balanced E ops"
  shows "\<exists>st1 st2. run_tree E ops (Snapshot st) = Some st1 \<and> tree_drop st1 = Some st2 \<and> tree_wf st2
    \<and> st_root st2 = st_root st \<and> st_version st2 = st_version st
    \<and> actor_views (st_snaps st2) = actor_views (st_snaps st)"
proof -
  have "\<forall>f. OpLocal f \<in> set (map (snap_of E) ops) \<longrightarrow> tree_stack.local_step (st_root st) (st_version st) f"
    by (auto intro: tree_op_local sym)
  with tree_stack.revert_restores [of st "st_root st" "st_version st" "map (snap_of E) ops"] assms
  show ?thesis
    by (auto simp: balanced_def run_tree_exec)
qed

text \<open>
  Property C1. Whatever a client does to the tree after a snapshot (lookups, reads, writes,
  deletions, mutations, registrations, nested snapshots that it commits or reverts), reverting
  does not panic and gives back, at every ID address, the answer \<open>GetActor\<close> gave before the
  snapshot.
\<close>

theorem snapshot_revert_restores:
  assumes "tree_wf st" and "balanced E ops" and "e_isID E a" and "a \<noteq> e_Undef E"
  shows "\<exists>st1 st2. run_tree E ops (Snapshot st) = Some st1 \<and> Revert st1 = Some st2
    \<and> fst (GetActor E a st2) = fst (GetActor E a st)"
proof -
  obtain st1 st2 where st: "run_tree E ops (Snapshot st) = Some st1" "tree_drop st1 = Some st2"
      "tree_wf st2" "st_root st2 = st_root st" "st_version st2 = st_version st"
      "actor_views (st_snaps st2) = actor_views (st_snaps st)"
    using run_above_snapshot [OF assms(1,2)] by blast
  have wf: "tree_wf (Snapshot st2)"
    using st(3) by (simp add: Snapshot_def addLayer_ok)
  have "view_at E (Snapshot st2) a = view_at E st a"
    by (rule view_at_cong) (use st in \<open>simp_all add: Snapshot_def addLayer_ok\<close>)
  then have "fst (GetActor E a (Snapshot st2)) = fst (GetActor E a st)"
    using GetActor_ID [OF wf assms(3,4)] GetActor_ID [OF assms(1,3,4)] by simp
  with st(1,2) show ?thesis by (simp add: Revert_drop)
qed

text \<open>
  Committing a snapshot with \<open>ClearSnapshot\<close> does not panic while there is one
  to commit, removes one layer, changes no answer of \<open>GetActor\<close> at an ID address, and leaves
  the views of the layers below for an enclosing revert.
\<close>

theorem ClearSnapshot_keeps_view:
  assumes "tree_wf st" and "1 < length (layers (st_snaps st))" and "e_isID E a" and "a \<noteq> e_Undef E"
  shows "\<exists>st'. ClearSnapshot st = Some st' \<and> tree_wf st'
    \<and> length (layers (st_snaps st')) + 1 = length (layers (st_snaps st))
    \<and> tl (actor_views (st_snaps st')) = tl (tl (actor_views (st_snaps st)))
    \<and> fst (GetActor E a st') = fst (GetActor E a st)"
proof -
  obtain ss where ss: "mergeLastLayer (st_snaps st) = Some ss" "snaps_wf ss"
      "actor_views ss = actor_view (st_snaps st) # tl (tl (actor_views (st_snaps st)))"
    using mergeLastLayer_ok [OF assms(1,2)] by auto
  have "length (layers ss) = length (actor_views ss)" by simp
  then have len: "length (layers ss) + 1 = length (layers (st_snaps st))"
    using ss(3) assms(2) by simp
  have "view_at E (st\<lparr>st_snaps := ss\<rparr>) a = view_at E st a"
    by (rule view_at_cong) (simp_all add: ss)
  then have "fst (GetActor E a (st\<lparr>st_snaps := ss\<rparr>)) = fst (GetActor E a st)"
    using GetActor_ID [OF _ assms(3,4), of "st\<lparr>st_snaps := ss\<rparr>"] GetActor_ID [OF assms(1,3,4)] ss(2) by simp
  with ss len show ?thesis by (simp add: ClearSnapshot_def)
qed

text \<open>
  A write is read back: after a successful \<open>SetActor\<close> through any address,
  \<open>GetActor\<close> at the ID address it resolved to gives the actor that was set, and at every
  other ID address what it gave before.
\<close>

theorem SetActor_GetActor:
  assumes "tree_wf st" and "SetActor E addr act st = (Inr (), st')"
    and "e_isID E b" and "b \<noteq> e_Undef E"
  shows "\<exists>iaddr. fst (LookupID E addr st) = Inr iaddr
    \<and> fst (GetActor E b st') = (if b = iaddr then Inr act else fst (GetActor E b st))"
proof -
  obtain iaddr st1 where "LookupID E addr st = (Inr iaddr, st1)" "tree_local st st'"
      "\<forall>c. view_at E st' c = (if c = iaddr then Inr act else view_at E st c)"
    using SetActor_cases [OF assms(1), of E addr act] assms(2) by auto
  then show ?thesis
    using GetActor_ID [OF assms(1,3,4)] GetActor_ID [OF _ assms(3,4), of st']
    by (auto dest: tree_local_wf)
qed

section \<open>Flushing and loading\<close>

text \<open>
  What the tree relies on of the HAMT: a successful \<^verbatim>\<open>Put\<close> or \<^verbatim>\<open>Delete\<close>
  changes what \<^verbatim>\<open>Get\<close> answers at that key only.
\<close>

definition hamt_lawful :: "('a, 's, 'm, 'i, 'kb) tree_env \<Rightarrow> bool" where
  "hamt_lawful E \<longleftrightarrow>
     (\<forall>m a x m' b. e_put4 E m a x = Inr m' \<longrightarrow> e_get4 E m' b = (if b = a then Inr (Some x) else e_get4 E m b))
   \<and> (\<forall>m a x m' b. e_put5 E m a x = Inr m' \<longrightarrow> e_get5 E m' b = (if b = a then Inr (Some x) else e_get5 E m b))
   \<and> (\<forall>m a m' b. e_delete E m a = Inr m' \<longrightarrow>
        e_get4 E m' b = (if b = a then Inr None else e_get4 E m b)
      \<and> e_get5 E m' b = (if b = a then Inr None else e_get5 E m b))"

text \<open>
  What it relies on of the store, at a tree version: a flushed HAMT loads with the same
  contents and its root does not decode as a versioned root, a versioned root reads back, and
  writing one leaves what was there.
\<close>

definition hamt_loads :: "('a, 's, 'm, 'i, 'kb) tree_env \<Rightarrow> nat \<Rightarrow> 's \<Rightarrow> cid \<Rightarrow> 'm \<Rightarrow> bool" where
  "hamt_loads E v cst c m \<longleftrightarrow>
     (\<exists>m'. e_loadTree E v cst c = Inr m' \<and> (\<forall>a. root_get E v m' a = root_get E v m a))"

definition store_lawful :: "('a, 's, 'm, 'i, 'kb) tree_env \<Rightarrow> nat \<Rightarrow> bool" where
  "store_lawful E v \<longleftrightarrow>
     (\<forall>m cst c cst'. e_rootCid E m cst = Inr (c, cst') \<longrightarrow>
        hamt_loads E v cst' c m \<and> (\<exists>err. e_getRoot E cst' c = Inl err))
   \<and> (\<forall>cst r c cst'. e_putRoot E cst r = Inr (c, cst') \<longrightarrow>
        e_getRoot E cst' c = Inr r \<and> (\<forall>c0 m. hamt_loads E v cst c0 m \<longrightarrow> hamt_loads E v cst' c0 m))"

text \<open>Trees up to version 4 do not keep the delegated address of an actor.\<close>

definition persisted :: "nat \<Rightarrow> 'a actor \<Rightarrow> 'a actor" where
  "persisted v act = (if v \<le> 4 then act\<lparr>a_Address := None\<rparr> else act)"

lemma persisted_root: "root_get E v m a = Inr (Some act) \<Longrightarrow> persisted v act = act"
  by (auto simp: root_get_def persisted_def AsActorV5_def split: if_splits sum.splits)

lemma newStateSnaps_view: "actor_view newStateSnaps a = None"
  by (simp add: newStateSnaps_def addLayer_def actor_views_def newStateSnapLayer_def)

lemma root_put_get:
  assumes "hamt_lawful E" and "root_put E v m a sto = Inr m'"
  shows "root_get E v m' b =
    (if b = a then Inr (if so_Delete sto then None else Some (persisted v (so_Act sto))) else root_get E v m b)"
proof (cases "so_Delete sto")
  case True
  with assms have "e_get4 E m' b = (if b = a then Inr None else e_get4 E m b)"
      "e_get5 E m' b = (if b = a then Inr None else e_get5 E m b)"
    unfolding hamt_lawful_def root_put_def by (auto simp del: split_paired_All)
  with True show ?thesis by (cases "b = a") (simp_all add: root_get_def)
next
  case False
  show ?thesis
  proof (cases "v \<le> 4")
    case True
    with False assms have "e_get4 E m' b = (if b = a then Inr (Some (AsActorV4 (so_Act sto))) else e_get4 E m b)"
      unfolding hamt_lawful_def root_put_def by simp
    with True False show ?thesis
      by (cases "b = a") (simp_all add: root_get_def persisted_def AsActorV5_V4)
  next
    case v: False
    with False assms have "e_get5 E m' b = (if b = a then Inr (Some (so_Act sto)) else e_get5 E m b)"
      unfolding hamt_lawful_def root_put_def by simp
    with v False show ?thesis
      by (cases "b = a") (simp_all add: root_get_def persisted_def)
  qed
qed

lemma flush_entries_get:
  assumes "hamt_lawful E" and "gm_ok es" and "flush_entries E v m es = (Inr u, m')"
  shows "root_get E v m' b =
    (case gm_get es b of
       None \<Rightarrow> root_get E v m b
     | Some sto \<Rightarrow> Inr (if so_Delete sto then None else Some (persisted v (so_Act sto))))"
  using assms(2,3)
proof (induction es arbitrary: m)
  case Nil
  then show ?case by simp
next
  case (Cons e es)
  obtain a sto where e: "e = (a, sto)" by (cases e)
  with Cons.prems obtain m1 where m1: "root_put E v m a sto = Inr m1" "flush_entries E v m1 es = (Inr u, m')"
    by (auto split: sum.splits)
  have IH: "root_get E v m' b = (case gm_get es b of
       None \<Rightarrow> root_get E v m1 b
     | Some sto \<Rightarrow> Inr (if so_Delete sto then None else Some (persisted v (so_Act sto))))"
    using Cons.IH Cons.prems(1) m1(2) e by simp
  have "b = a \<Longrightarrow> gm_get es b = None"
    using Cons.prems(1) e by (simp add: map_of_eq_None_iff)
  with IH root_put_get [OF assms(1) m1(1), of b] show ?case
    by (cases "b = a") (simp_all add: e split: option.split)
qed

lemma Flush_root:
  assumes "tree_wf st" and "hamt_lawful E" and "\<forall>xs. mset (ord xs) = mset xs"
    and "Flush E ord st = (Inr c, st')"
  shows "root_get E (st_version st) (st_root st') a =
    (case actor_view (st_snaps st) a of
       None \<Rightarrow> root_get E (st_version st) (st_root st) a
     | Some sto \<Rightarrow> Inr (if so_Delete sto then None else Some (persisted (st_version st) (so_Act sto))))"
proof -
  obtain l where l: "layers (st_snaps st) = [l]"
    using assms(4) by (cases "layers (st_snaps st)") (auto simp: Flush_def split: if_splits)
  have ok: "gm_ok (actors l)"
    using assms(1) l by (simp add: snaps_wf_def layer_ok_def)
  have perm: "mset (actors l) = mset (ord (actors l))"
    using assms(3) by simp
  then have "mset (map fst (actors l)) = mset (map fst (ord (actors l)))" by simp
  then have ok': "gm_ok (ord (actors l))"
    using ok mset_eq_imp_distinct_iff by blast
  have get: "gm_get (ord (actors l)) = gm_get (actors l)"
    using ok perm by (rule gm_get_perm)
  obtain u where "flush_entries E (st_version st) (st_root st) (ord (actors l)) = (Inr u, st_root st')"
    using assms(4) l
    by (auto simp: Flush_def Let_def split: if_splits prod.splits sum.splits)
  from flush_entries_get [OF assms(2) ok' this] show ?thesis
    by (simp add: get actor_views_def l)
qed

text \<open>
  Property C23. A tree that was flushed and is loaded again from the identifier \<open>Flush\<close>
  returned has the same version and answers, at every address, what the flushed tree answered,
  whatever order the runtime visited the pending writes in; trees up to version 4 drop the
  delegated addresses of the written actors.
\<close>

theorem Flush_Load_roundtrip:
  assumes "tree_wf st" and "hamt_lawful E" and "store_lawful E (st_version st)" and "st_version st \<le> 5"
    and "\<forall>xs. mset (ord xs) = mset xs" and "Flush E ord st = (Inr c, st')"
  shows "\<exists>st2. LoadStateTree E (st_Store st') c = Inr st2 \<and> st_version st2 = st_version st
    \<and> (\<forall>a. view_at E st2 a = map_sum id (persisted (st_version st)) (view_at E st a))"
proof -
  let ?v = "st_version st" and ?m = "st_root st'"
  obtain rc cst where rc: "e_rootCid E ?m (st_Store st) = Inr (rc, cst)"
      "?v = 0 \<Longrightarrow> c = rc \<and> st_Store st' = cst"
      "?v \<noteq> 0 \<Longrightarrow> e_putRoot E cst \<lparr>sr_Version = ?v, sr_Actors = rc, sr_Info = st_info st\<rparr> = Inr (c, st_Store st')"
    using assms(6) by (auto simp: Flush_def Let_def split: if_splits prod.splits sum.splits)
  have loads: "hamt_loads E ?v cst rc ?m" and old: "\<exists>err. e_getRoot E cst rc = Inl err"
    using assms(3) rc(1) unfolding store_lawful_def by blast+
  have "\<exists>st2 m2. LoadStateTree E (st_Store st') c = Inr st2 \<and> st_version st2 = ?v \<and> st_root st2 = m2
      \<and> st_snaps st2 = newStateSnaps \<and> (\<forall>a. root_get E ?v m2 a = root_get E ?v ?m a)"
  proof (cases "?v = 0")
    case True
    with rc(2) loads old show ?thesis
      by (auto simp: LoadStateTree_def hamt_loads_def Let_def)
  next
    case False
    with rc(3) assms(3) loads have "hamt_loads E ?v (st_Store st') rc ?m"
        "e_getRoot E (st_Store st') c = Inr \<lparr>sr_Version = ?v, sr_Actors = rc, sr_Info = st_info st\<rparr>"
      unfolding store_lawful_def by blast+
    with assms(4) show ?thesis
      by (auto simp: LoadStateTree_def hamt_loads_def Let_def)
  qed
  then obtain st2 where st2: "LoadStateTree E (st_Store st') c = Inr st2" "st_version st2 = ?v"
      "st_snaps st2 = newStateSnaps" "\<And>a. root_get E ?v (st_root st2) a = root_get E ?v ?m a"
    by blast
  have v2: "view_at E st2 a = (case root_get E ?v ?m a of
       Inl err \<Rightarrow> Inl (Wrapf ''hamt find failed'' err)
     | Inr None \<Rightarrow> Inl ErrActorNotFound | Inr (Some act) \<Rightarrow> Inr act)" for a
    by (simp add: view_at_def st2 newStateSnaps_view)
  have "view_at E st2 a = map_sum id (persisted ?v) (view_at E st a)" for a
  proof (cases "actor_view (st_snaps st) a")
    case None
    then show ?thesis
      using v2 [of a] Flush_root [OF assms(1,2,5,6), of a]
      by (auto simp: view_at_def persisted_root split: sum.split option.split)
  next
    case (Some sto)
    then show ?thesis
      using v2 [of a] Flush_root [OF assms(1,2,5,6), of a] by (simp add: view_at_def)
  qed
  with st2 show ?thesis by blast
qed

section \<open>Iterating\<close>

text \<open>A callback that notes what it is called on, and never fails.\<close>

definition collect :: "'a \<Rightarrow> 'a actor \<Rightarrow> ('a \<times> 'a actor) list \<Rightarrow> (stree_error + unit) \<times> ('a \<times> 'a actor) list" where
  "collect a act xs = (Inr (), xs @ [(a, act)])"

lemma forEach_layer_collect:
  assumes "gm_ok es"
  shows "forEach_layer collect es seen xs =
    (Inr (rev (map fst (filter (\<lambda>e. fst e \<notin> set seen) es)) @ seen),
     xs @ map (\<lambda>(a, opn). (a, so_Act opn)) (filter (\<lambda>(a, opn). a \<notin> set seen \<and> \<not> so_Delete opn) es))"
  using assms
proof (induction es arbitrary: seen xs)
  case Nil
  then show ?case by simp
next
  case (Cons e es)
  obtain a opn where e: "e = (a, opn)" by (cases e)
  have ne: "x \<noteq> a" if "(x, y) \<in> set es" for x y
    using Cons.prems e that by (auto simp: rev_image_eqI)
  have f: "filter (\<lambda>e. fst e \<noteq> a \<and> fst e \<notin> set seen) es = filter (\<lambda>e. fst e \<notin> set seen) es"
    "filter (\<lambda>(x, opn). x \<noteq> a \<and> x \<notin> set seen \<and> \<not> so_Delete opn) es
       = filter (\<lambda>(x, opn). x \<notin> set seen \<and> \<not> so_Delete opn) es"
    by (auto intro!: filter_cong dest: ne)
  show ?case
    using Cons.IH Cons.prems by (auto simp: e collect_def f)
qed

lemma forEach_layers_collect:
  assumes "\<forall>es \<in> set ess. gm_ok es" and "distinct (map fst xs)" and "fst ` set xs \<subseteq> set seen"
  shows "\<exists>seen' xs'. forEach_layers collect ess seen xs = (Inr seen', xs')
    \<and> set seen' = set seen \<union> dom (flat (map map_of ess))
    \<and> distinct (map fst xs') \<and> fst ` set xs' \<subseteq> set seen'
    \<and> (\<forall>a act. (a, act) \<in> set xs' \<longleftrightarrow> (a, act) \<in> set xs
         \<or> (a \<notin> set seen \<and> (\<exists>opn. flat (map map_of ess) a = Some opn \<and> \<not> so_Delete opn \<and> so_Act opn = act)))"
  using assms
proof (induction ess arbitrary: seen xs)
  case Nil
  then show ?case by simp
next
  case (Cons es ess)
  let ?new = "filter (\<lambda>e. fst e \<notin> set seen) es"
  let ?live = "filter (\<lambda>(a, opn). a \<notin> set seen \<and> \<not> so_Delete opn) es"
  define seen1 where "seen1 = rev (map fst ?new) @ seen"
  define xs1 where "xs1 = xs @ map (\<lambda>(a, opn). (a, so_Act opn)) ?live"
  have ok: "gm_ok es" using Cons.prems(1) by simp
  then have layer: "forEach_layer collect es seen xs = (Inr seen1, xs1)"
    unfolding seen1_def xs1_def by (rule forEach_layer_collect)
  have get: "(a, opn) \<in> set es \<longleftrightarrow> gm_get es a = Some opn" for a opn
    using ok by (simp add: map_of_eq_Some_iff)
  have fst_live: "map fst (map (\<lambda>(a, opn). (a, so_Act opn)) ?live) = map fst ?live"
    by (simp add: comp_def case_prod_unfold)
  have "distinct (map fst ?live)"
    using ok by (rule distinct_map_filter)
  moreover have "set (map fst ?live) \<inter> fst ` set xs = {}"
    using Cons.prems(3) by auto
  ultimately have d1: "distinct (map fst xs1)"
    using Cons.prems(2) by (simp only: xs1_def map_append fst_live distinct_append) auto
  have s1: "fst ` set xs1 \<subseteq> set seen1"
    using Cons.prems(3) unfolding xs1_def seen1_def by (fastforce intro: rev_image_eqI)
  have seen1: "set seen1 = set seen \<union> dom (map_of es)"
    using ok unfolding seen1_def by (auto simp: dom_map_of_conv_image_fst)
  have x1: "(a, act) \<in> set xs1 \<longleftrightarrow> (a, act) \<in> set xs
      \<or> (a \<notin> set seen \<and> (\<exists>opn. gm_get es a = Some opn \<and> \<not> so_Delete opn \<and> so_Act opn = act))" for a act
    unfolding xs1_def by (auto simp: get [symmetric])
  obtain seen' xs' where IH: "forEach_layers collect ess seen1 xs1 = (Inr seen', xs')"
      "set seen' = set seen1 \<union> dom (flat (map map_of ess))"
      "distinct (map fst xs')" "fst ` set xs' \<subseteq> set seen'"
      "\<And>a act. (a, act) \<in> set xs' \<longleftrightarrow> (a, act) \<in> set xs1
         \<or> (a \<notin> set seen1 \<and> (\<exists>opn. flat (map map_of ess) a = Some opn \<and> \<not> so_Delete opn \<and> so_Act opn = act))"
    using Cons.IH [OF _ d1 s1] Cons.prems(1) by auto
  have "(a, act) \<in> set xs' \<longleftrightarrow> (a, act) \<in> set xs
         \<or> (a \<notin> set seen \<and> (\<exists>opn. flat (map map_of (es # ess)) a = Some opn \<and> \<not> so_Delete opn \<and> so_Act opn = act))" for a act
    by (cases "gm_get es a") (auto simp: IH(5) x1 seen1 map_add_def dom_def)
  moreover have "set seen' = set seen \<union> dom (flat (map map_of (es # ess)))"
    using IH(2) seen1 by auto
  ultimately show ?case
    using layer IH(1,3,4) by simp
qed

lemma forEach_root_collect:
  assumes "map (\<lambda>(k, x). (parse k, conv x)) es = map (\<lambda>(a, x). (Inr a, x)) ps"
  shows "forEach_root parse conv collect seen (map Inr es) xs =
    (Inr (), xs @ filter (\<lambda>(a, x). a \<notin> set seen) ps)"
  using assms
proof (induction es arbitrary: ps xs)
  case Nil
  then show ?case by simp
next
  case (Cons e es)
  then show ?case by (cases ps) (auto simp: collect_def split: prod.splits)
qed

text \<open>
  \<open>lists_root E v m ps\<close>: walking the HAMT gives the actors \<open>ps\<close>, one per key, exactly
  those that \<^verbatim>\<open>Get\<close> finds, with keys that parse as addresses.
\<close>

definition lists_root :: "('a, 's, 'm, 'i, 'kb) tree_env \<Rightarrow> nat \<Rightarrow> 'm \<Rightarrow> ('a \<times> 'a actor) list \<Rightarrow> bool" where
  "lists_root E v m ps \<longleftrightarrow>
     (if v \<le> 4
      then (\<exists>es. e_forEach4 E m = map Inr es
             \<and> map (\<lambda>(k, x). (e_newFromBytes E k, AsActorV5 x)) es = map (\<lambda>(a, x). (Inr a, x)) ps)
      else (\<exists>es. e_forEach5 E m = map Inr es
             \<and> map (\<lambda>(k, x). (e_newFromBytes E k, id x)) es = map (\<lambda>(a, x). (Inr a, x)) ps))
   \<and> distinct (map fst ps) \<and> (\<forall>a act. (a, act) \<in> set ps \<longleftrightarrow> root_get E v m a = Inr (Some act))"

text \<open>
  Property C30. \<open>ForEach\<close> calls its callback on every live actor of the tree, pending writes
  included and deleted actors excluded, on each exactly once and with the value
  \<open>GetActor\<close> would give, whatever order the runtime visits the layers' maps in.
\<close>

theorem ForEach_visits_live_once:
  assumes "tree_wf st" and "\<forall>xs. mset (ord xs) = mset xs"
    and "lists_root E (st_version st) (st_root st) ps"
  shows "\<exists>xs. ForEach E ord collect st [] = (Inr (), xs) \<and> distinct (map fst xs)
    \<and> (\<forall>a act. (a, act) \<in> set xs \<longleftrightarrow> view_at E st a = Inr act)"
proof -
  let ?ess = "map (\<lambda>l. ord (actors l)) (rev (layers (st_snaps st)))"
  have lay: "gm_ok (ord (actors l)) \<and> map_of (ord (actors l)) = map_of (actors l)"
    if "l \<in> set (layers (st_snaps st))" for l
  proof -
    have ok: "gm_ok (actors l)"
      using assms(1) that by (simp add: snaps_wf_def layer_ok_def)
    have perm: "mset (actors l) = mset (ord (actors l))" using assms(2) by simp
    then have "mset (map fst (actors l)) = mset (map fst (ord (actors l)))" by simp
    with ok have "gm_ok (ord (actors l))" using mset_eq_imp_distinct_iff by blast
    with gm_get_perm [OF ok perm] show ?thesis by simp
  qed
  have ess: "\<forall>es \<in> set ?ess. gm_ok es" using lay by auto
  have m: "map map_of ?ess = map (map_of \<circ> actors) (rev (layers (st_snaps st)))"
    using lay by auto
  have view: "flat (map map_of ?ess) = actor_view (st_snaps st)"
    unfolding m using assms(1) by (simp add: actor_views_def snaps_wf_def hd_stack_views)
  obtain seen xs where L: "forEach_layers collect ?ess [] [] = (Inr seen, xs)"
      "set seen = dom (actor_view (st_snaps st))" "distinct (map fst xs)" "fst ` set xs \<subseteq> set seen"
      "\<forall>a act. (a, act) \<in> set xs \<longleftrightarrow>
         (\<exists>opn. actor_view (st_snaps st) a = Some opn \<and> \<not> so_Delete opn \<and> so_Act opn = act)"
    using forEach_layers_collect [OF ess, of "[]" "[]"] view by auto
  let ?rest = "filter (\<lambda>(a, x). a \<notin> set seen) ps"
  have F: "ForEach E ord collect st [] = (Inr (), xs @ ?rest)"
    using assms(3) L(1)
    by (auto simp: ForEach_def lists_root_def forEach_root_collect split: if_splits)
  have ps: "distinct (map fst ps)" "\<And>a act. (a, act) \<in> set ps \<longleftrightarrow> root_get E (st_version st) (st_root st) a = Inr (Some act)"
    using assms(3) by (simp_all add: lists_root_def)
  have "distinct (map fst ?rest)"
    using ps(1) by (rule distinct_map_filter)
  moreover have "set (map fst ?rest) \<inter> set (map fst xs) = {}"
    using L(4) by auto
  ultimately have "distinct (map fst (xs @ ?rest))"
    using L(3) by auto
  moreover have "(a, act) \<in> set (xs @ ?rest) \<longleftrightarrow> view_at E st a = Inr act" for a act
    using L(2,5) ps(2)
    by (cases "actor_view (st_snaps st) a") (auto simp: view_at_def split: sum.splits option.splits)
  ultimately show ?thesis using F by blast
qed

section \<open>A concrete environment, and witnesses\<close>

text \<open>
  A small environment in which the hypotheses of the properties hold: numbers below 100 are ID
  addresses, the store is a list of objects, a HAMT is an association list, and the init
  actor's state maps addresses to identifiers from 50 on.
\<close>

datatype demo_obj =
    DTree "(nat \<times> nat actor) list"
  | DRoot stateRoot
  | DInfo
  | DInit "(nat \<times> nat) list"

definition demo_find :: "demo_obj list \<Rightarrow> cid \<Rightarrow> demo_obj option" where
  "demo_find cst c = (if 0 < c \<and> c \<le> length cst then Some (cst ! (c - 1)) else None)"

definition demo_env :: "(nat, demo_obj list, (nat \<times> nat actor) list, (nat \<times> nat) list, nat) tree_env" where
  "demo_env =
    \<lparr>e_isID = (\<lambda>a. a < 100), e_Undef = 0, e_InitAddr = 1, e_newFromBytes = Inr,
     e_initLoad = (\<lambda>cst act. case demo_find cst (a_Head act) of Some (DInit i) \<Rightarrow> Inr i | _ \<Rightarrow> Inl (ExtError 1)),
     e_resolve = (\<lambda>i a. Inr (map_of i a)),
     e_mapNewID = (\<lambda>i a. Inr (50 + length i, (a, 50 + length i) # i)),
     e_putInit = (\<lambda>cst i. Inr (Suc (length cst), cst @ [DInit i])),
     e_putInfo = (\<lambda>cst. Inr (Suc (length cst), cst @ [DInfo])),
     e_putRoot = (\<lambda>cst r. Inr (Suc (length cst), cst @ [DRoot r])),
     e_getRoot = (\<lambda>cst c. case demo_find cst c of Some (DRoot r) \<Rightarrow> Inr r | _ \<Rightarrow> Inl (ExtError 2)),
     e_newTree = (\<lambda>v cst. Inr ([], cst)),
     e_loadTree = (\<lambda>v cst c. case demo_find cst c of Some (DTree m) \<Rightarrow> Inr m | _ \<Rightarrow> Inl (ExtError 3)),
     e_get4 = (\<lambda>m a. Inr (map_option AsActorV4 (gm_get m a))),
     e_get5 = (\<lambda>m a. Inr (gm_get m a)),
     e_put4 = (\<lambda>m a x. Inr (gm_set a (AsActorV5 x) m)),
     e_put5 = (\<lambda>m a x. Inr (gm_set a x m)),
     e_delete = (\<lambda>m a. Inr (gm_delete a m)),
     e_rootCid = (\<lambda>m cst. Inr (Suc (length cst), cst @ [DTree m])),
     e_forEach4 = (\<lambda>m. map (\<lambda>(k, x). Inr (k, AsActorV4 x)) m),
     e_forEach5 = (\<lambda>m. map Inr m)\<rparr>"

lemma demo_env_simps:
  "e_isID demo_env a \<longleftrightarrow> a < 100" "e_Undef demo_env = 0" "e_InitAddr demo_env = 1"
  "e_newFromBytes demo_env k = Inr k"
  "e_putRoot demo_env cst r = Inr (Suc (length cst), cst @ [DRoot r])"
  "e_getRoot demo_env cst c = (case demo_find cst c of Some (DRoot r) \<Rightarrow> Inr r | _ \<Rightarrow> Inl (ExtError 2))"
  "e_loadTree demo_env v cst c = (case demo_find cst c of Some (DTree m) \<Rightarrow> Inr m | _ \<Rightarrow> Inl (ExtError 3))"
  "e_get4 demo_env m a = Inr (map_option AsActorV4 (gm_get m a))" "e_get5 demo_env m a = Inr (gm_get m a)"
  "e_put4 demo_env m a x4 = Inr (gm_set a (AsActorV5 x4) m)" "e_put5 demo_env m a x5 = Inr (gm_set a x5 m)"
  "e_delete demo_env m a = Inr (gm_delete a m)"
  "e_rootCid demo_env m cst = Inr (Suc (length cst), cst @ [DTree m])"
  "e_forEach5 demo_env m = map Inr m"
  by (simp_all add: demo_env_def)

definition demo_actor :: "nat \<Rightarrow> nat actor" where
  "demo_actor n = \<lparr>a_Code = 9, a_Head = n, a_Nonce = 0, a_Balance = int n, a_Address = None\<rparr>"

definition demo_tree :: "(nat, demo_obj list, (nat \<times> nat actor) list) stateTree" where
  "demo_tree = \<lparr>st_root = [(1, demo_actor 1), (5, demo_actor 3), (6, demo_actor 4)], st_version = 5, st_info = 0,
     st_Store = [DInit [(200, 5)]], st_snaps = newStateSnaps\<rparr>"

lemma demo_tree_wf: "tree_wf demo_tree"
  by (simp add: demo_tree_def newStateSnaps_wf)

lemma demo_hamt_lawful: "hamt_lawful demo_env"
  by (simp add: hamt_lawful_def demo_env_simps)

lemma demo_find_append: "c \<le> length cst \<Longrightarrow> demo_find (cst @ xs) c = demo_find cst c"
  by (auto simp: demo_find_def nth_append)

lemma demo_find_last: "demo_find (cst @ [x]) (Suc (length cst)) = Some x"
  by (simp add: demo_find_def)

lemma demo_store_lawful: "store_lawful demo_env v"
proof -
  have keep: "hamt_loads demo_env v (cst @ [x]) c0 m" if "hamt_loads demo_env v cst c0 m" for cst x c0 m
  proof -
    from that have "demo_find cst c0 \<noteq> None"
      by (auto simp: hamt_loads_def demo_env_simps split: option.splits)
    then have "c0 \<le> length cst" by (auto simp: demo_find_def split: if_splits)
    with that show ?thesis by (simp add: hamt_loads_def demo_env_simps demo_find_append)
  qed
  show ?thesis
    unfolding store_lawful_def
    by (simp add: demo_env_simps keep demo_find_last) (simp add: hamt_loads_def demo_env_simps demo_find_last)
qed

text \<open>
  Witness of C1: after the snapshot actor 5 is read, overwritten, and deleted in a nested
  snapshot that is reverted and closed, and address 300 is registered.
\<close>

theorem snapshot_revert_restores_witness:
  "\<exists>st1 st2. run_tree demo_env
       [TGet 5, TSet 200 (demo_actor 7), TSnapshot, TDelete 5, TRevert, TClear, TRegister 300 :: (nat, demo_obj list, unit) tree_op]
       (Snapshot demo_tree) = Some st1
     \<and> Revert st1 = Some st2 \<and> fst (GetActor demo_env 5 st2) = Inr (demo_actor 3)"
proof -
  let ?ops = "[TGet 5, TSet 200 (demo_actor 7), TSnapshot, TDelete 5, TRevert, TClear, TRegister 300 :: (nat, demo_obj list, unit) tree_op]"
  have b: "balanced demo_env ?ops" by (simp add: balanced_def)
  have i: "e_isID demo_env 5" "5 \<noteq> e_Undef demo_env" by (simp_all add: demo_env_simps)
  have "fst (GetActor demo_env 5 demo_tree) = Inr (demo_actor 3)"
    using GetActor_ID [OF demo_tree_wf i]
    by (simp add: view_at_def demo_tree_def newStateSnaps_view root_get_def demo_env_simps)
  with snapshot_revert_restores [OF demo_tree_wf b i] show ?thesis by simp
qed

text \<open>An instance: a snapshot with one write is committed.\<close>

theorem ClearSnapshot_keeps_view_witness:
  "\<exists>st'. ClearSnapshot (snd (SetActor demo_env 5 (demo_actor 7) (Snapshot demo_tree))) = Some st'
     \<and> fst (GetActor demo_env 5 st') = Inr (demo_actor 7)"
proof -
  let ?st = "snd (SetActor demo_env 5 (demo_actor 7) (Snapshot demo_tree))"
  have loc: "tree_local (Snapshot demo_tree) ?st"
    by (rule SetActor_local) (simp add: Snapshot_def addLayer_ok demo_tree_wf)
  then have wf: "tree_wf ?st" by (rule tree_local_wf)
  have len: "1 < length (layers (st_snaps ?st))"
    using loc by (simp add: tree_local_def Snapshot_def snap_simps demo_tree_def newStateSnaps_def)
  have i: "e_isID demo_env 5" "5 \<noteq> e_Undef demo_env" by (simp_all add: demo_env_simps)
  have "fst (GetActor demo_env 5 ?st) = Inr (demo_actor 7)"
    by code_simp
  with ClearSnapshot_keeps_view [OF wf len i] show ?thesis by auto
qed

text \<open>An instance: a write through the non-ID address 200, which resolves to actor 5.\<close>

theorem SetActor_GetActor_witness:
  "\<exists>iaddr. fst (LookupID demo_env 200 demo_tree) = Inr iaddr
     \<and> fst (GetActor demo_env 5 (snd (SetActor demo_env 200 (demo_actor 7) demo_tree)))
       = (if 5 = iaddr then Inr (demo_actor 7) else fst (GetActor demo_env 5 demo_tree))"
proof -
  have "fst (SetActor demo_env 200 (demo_actor 7) demo_tree) = Inr ()" by code_simp
  then have s: "SetActor demo_env 200 (demo_actor 7) demo_tree
      = (Inr (), snd (SetActor demo_env 200 (demo_actor 7) demo_tree))"
    by (metis prod.collapse)
  have i: "e_isID demo_env 5" "5 \<noteq> e_Undef demo_env" by (simp_all add: demo_env_simps)
  show ?thesis by (rule SetActor_GetActor [OF demo_tree_wf s i])
qed

text \<open>Witness of C23: a tree with a pending write and a pending deletion, visited in reverse.\<close>

definition demo_dirty :: "(nat, demo_obj list, (nat \<times> nat actor) list) stateTree" where
  "demo_dirty = snd (DeleteActor demo_env 6 (snd (SetActor demo_env 5 (demo_actor 7) demo_tree)))"

lemma demo_dirty_wf: "tree_wf demo_dirty"
  unfolding demo_dirty_def
  by (intro tree_local_wf [OF DeleteActor_local] tree_local_wf [OF SetActor_local] demo_tree_wf)

lemma demo_dirty_version: "st_version demo_dirty = 5"
  by code_simp

theorem Flush_Load_roundtrip_witness:
  "\<exists>c st' st2. Flush demo_env rev demo_dirty = (Inr c, st') \<and> LoadStateTree demo_env (st_Store st') c = Inr st2
     \<and> (\<forall>a. view_at demo_env st2 a = map_sum id (persisted 5) (view_at demo_env demo_dirty a))"
proof -
  have "\<exists>c. fst (Flush demo_env rev demo_dirty) = Inr c"
    by (rule exI [where x = 3]) code_simp
  then obtain c st' where F: "Flush demo_env rev demo_dirty = (Inr c, st')"
    by (metis prod.collapse)
  have v: "st_version demo_dirty \<le> 5" by (simp add: demo_dirty_version)
  have r: "\<forall>xs :: (nat \<times> nat streeOp) list. mset (rev xs) = mset xs" by simp
  from Flush_Load_roundtrip [OF demo_dirty_wf demo_hamt_lawful demo_store_lawful v r F] F
  show ?thesis by (auto simp: demo_dirty_version)
qed

lemma demo_lists_root: "gm_ok m \<Longrightarrow> \<not> v \<le> 4 \<Longrightarrow> lists_root demo_env v m m"
  by (auto simp: lists_root_def root_get_def demo_env_simps map_of_eq_Some_iff intro!: exI [where x = m])

text \<open>Witness of C30: the same tree; actors 1 and 5 are live, actor 6 is deleted.\<close>

theorem ForEach_visits_live_once_witness:
  "\<exists>xs. ForEach demo_env id collect demo_dirty [] = (Inr (), xs) \<and> distinct (map fst xs)
     \<and> (\<forall>a act. (a, act) \<in> set xs \<longleftrightarrow> view_at demo_env demo_dirty a = Inr act)"
proof -
  have root: "st_root demo_dirty = [(1, demo_actor 1), (5, demo_actor 3), (6, demo_actor 4)]"
    by code_simp
  have l: "lists_root demo_env (st_version demo_dirty) (st_root demo_dirty) (st_root demo_dirty)"
    by (rule demo_lists_root) (simp_all add: demo_dirty_version root)
  have "\<forall>xs :: (nat \<times> nat streeOp) list. mset (id xs) = mset xs" by simp
  from ForEach_visits_live_once [OF demo_dirty_wf this l] show ?thesis .
qed

end
