(* ===== verification/Fund_Manager.thy ===== *)
theory Fund_Manager
  imports Lotus_Prelude
begin

text \<open>
  The market fund manager of \<^verbatim>\<open>chain/market/fundmanager.go\<close>: per address, queues of
  reserve, release and withdraw requests that are served by sending at most one message at a
  time to the storage market actor. The node API (balances, message pool) and the parameter
  serialisation are the record \<open>fund_env\<close>, an argument of the operations that call them.
\<close>

section \<open>Data model\<close>

datatype fm_error =
    FmExt nat
  | FmInsufficient tokenAmount tokenAmount tokenAmount tokenAmount

record reqResult =
  rr_msgCid :: cid
  rr_err :: "fm_error option"

text \<open>
  \<^verbatim>\<open>fundRequest\<close>: the pointer is the identifier \<open>rq_id\<close>; \<open>rq_cancelled\<close> is
  \<^verbatim>\<open>ctx.Err() != nil\<close>. The channel \<^verbatim>\<open>completed\<close> and the result offered on
  \<^verbatim>\<open>Result\<close> are an entry of the log of completions.
\<close>

record 'a fundRequest =
  rq_id :: nat
  rq_amt :: tokenAmount
  rq_Wallet :: 'a
  rq_cancelled :: bool

type_synonym completions = "(nat, reqResult) gomap"

record 'a fundedAddressState =
  fs_Addr :: 'a
  fs_AmtReserved :: tokenAmount
  fs_MsgCid :: "cid option"

record ('a, 'b) market_msg =
  mm_To :: 'a
  mm_From :: 'a
  mm_Value :: tokenAmount
  mm_Method :: nat
  mm_Params :: 'b

text \<open>
  \<open>fund_env\<close>: \<^verbatim>\<open>StateMarketBalance\<close> (escrow and locked), \<^verbatim>\<open>MpoolPushMessage\<close>,
  \<^verbatim>\<open>actors.SerializeParams\<close> on the two parameter types, the market actor's address and
  method numbers, \<^verbatim>\<open>address.Undef\<close>, and whether the datastore accepts a write.
\<close>

record ('a, 'b) fund_env =
  fe_Undef :: 'a
  fe_StateMarketBalance :: "'a \<Rightarrow> fm_error + tokenAmount \<times> tokenAmount"
  fe_MpoolPushMessage :: "('a, 'b) market_msg \<Rightarrow> fm_error + cid"
  fe_serializeAddr :: "'a \<Rightarrow> fm_error + 'b"
  fe_serializeWithdraw :: "'a \<Rightarrow> tokenAmount \<Rightarrow> fm_error + 'b"
  fe_MarketActor :: 'a
  fe_AddBalance :: nat
  fe_WithdrawBalance :: nat
  fe_saveOk :: bool

text \<open>
  \<^verbatim>\<open>fundedAddress\<close> with what it leaves in the world: the state last saved, the log of
  completed requests, the messages pushed, the message waits in flight, and the number of
  \<^verbatim>\<open>go a.process()\<close> calls that have not run yet. \<open>fa_listener\<close> is the answer of
  the tests' \<^verbatim>\<open>onProcessStartListener\<close>, if there is one.
\<close>

record ('a, 'b) fundedAddress =
  fa_state :: "'a fundedAddressState"
  fa_reservations :: "'a fundRequest list"
  fa_releases :: "'a fundRequest list"
  fa_withdrawals :: "'a fundRequest list"
  fa_listener :: "bool option"
  fa_saved :: "'a fundedAddressState option"
  fa_done :: completions
  fa_sent :: "('a, 'b) market_msg list"
  fa_waits :: "cid list"
  fa_pending :: nat

definition newFundedAddress :: "'a \<Rightarrow> ('a, 'b) fundedAddress" where
  "newFundedAddress addr =
     \<lparr>fa_state = \<lparr>fs_Addr = addr, fs_AmtReserved = 0, fs_MsgCid = None\<rparr>,
      fa_reservations = [], fa_releases = [], fa_withdrawals = [], fa_listener = None,
      fa_saved = None, fa_done = [], fa_sent = [], fa_waits = [], fa_pending = 0\<rparr>"

section \<open>Requests\<close>

definition newFundRequest :: "nat \<Rightarrow> 'a \<Rightarrow> tokenAmount \<Rightarrow> 'a fundRequest" where
  "newFundRequest i wallet amt = \<lparr>rq_id = i, rq_amt = amt, rq_Wallet = wallet, rq_cancelled = False\<rparr>"

definition Amount :: "'a fundRequest \<Rightarrow> tokenAmount" where
  "Amount req = (if rq_cancelled req then 0 else rq_amt req)"

text \<open>
  \<open>Complete\<close> offers a result and closes the \<^verbatim>\<open>completed\<close> channel; closing it a
  second time is a panic (\<open>None\<close>).
\<close>

definition Complete :: "completions \<Rightarrow> 'a fundRequest \<Rightarrow> cid \<Rightarrow> fm_error option \<Rightarrow> completions option" where
  "Complete done req msgCid err =
     (case gm_get done (rq_id req) of
        Some _ \<Rightarrow> None
      | None \<Rightarrow> Some (gm_set (rq_id req) \<lparr>rr_msgCid = msgCid, rr_err = err\<rparr> done))"

definition Completed :: "completions \<Rightarrow> 'a fundRequest \<Rightarrow> bool" where
  "Completed done req \<longleftrightarrow> gm_get done (rq_id req) \<noteq> None"

fun completeAll :: "completions \<Rightarrow> 'a fundRequest list \<Rightarrow> cid \<Rightarrow> fm_error option \<Rightarrow> completions option" where
  "completeAll done [] msgCid err = Some done"
| "completeAll done (req # reqs) msgCid err =
     (case Complete done req msgCid err of
        None \<Rightarrow> None
      | Some done' \<Rightarrow> completeAll done' reqs msgCid err)"

definition filterOutProcessedReqs :: "completions \<Rightarrow> 'a fundRequest list \<Rightarrow> 'a fundRequest list" where
  "filterOutProcessedReqs done reqs = filter (\<lambda>req. \<not> Completed done req) reqs"

section \<open>The node API\<close>

definition AvailableFunds :: "('a, 'b) fund_env \<Rightarrow> 'a \<Rightarrow> fm_error + tokenAmount" where
  "AvailableFunds env addr =
     (case fe_StateMarketBalance env addr of
        Inl err \<Rightarrow> Inl err
      | Inr (escrow, locked) \<Rightarrow> Inr (escrow - locked))"

definition AddFunds ::
  "('a, 'b) fund_env \<Rightarrow> 'a \<Rightarrow> 'a \<Rightarrow> tokenAmount \<Rightarrow> fm_error + cid \<times> ('a, 'b) market_msg" where
  "AddFunds env wallet addr amt =
     (case fe_serializeAddr env addr of
        Inl err \<Rightarrow> Inl err
      | Inr params \<Rightarrow>
          (let msg = \<lparr>mm_To = fe_MarketActor env, mm_From = wallet, mm_Value = amt,
                      mm_Method = fe_AddBalance env, mm_Params = params\<rparr>
           in case fe_MpoolPushMessage env msg of
                Inl err \<Rightarrow> Inl err
              | Inr c \<Rightarrow> Inr (c, msg)))"

definition WithdrawFunds ::
  "('a, 'b) fund_env \<Rightarrow> 'a \<Rightarrow> 'a \<Rightarrow> tokenAmount \<Rightarrow> fm_error + cid \<times> ('a, 'b) market_msg" where
  "WithdrawFunds env wallet addr amt =
     (case fe_serializeWithdraw env addr amt of
        Inl err \<Rightarrow> Inl err
      | Inr params \<Rightarrow>
          (let msg = \<lparr>mm_To = fe_MarketActor env, mm_From = wallet, mm_Value = 0,
                      mm_Method = fe_WithdrawBalance env, mm_Params = params\<rparr>
           in case fe_MpoolPushMessage env msg of
                Inl err \<Rightarrow> Inl err
              | Inr c \<Rightarrow> Inr (c, msg)))"

section \<open>Reservations and releases\<close>

text \<open>
  The loop of \<open>splitReservations\<close>: remaining releases, batch wallet, amount to add, and
  the two lists built so far.
\<close>

fun split_loop ::
  "'a \<Rightarrow> 'a fundRequest list \<Rightarrow> tokenAmount \<Rightarrow> 'a \<Rightarrow> tokenAmount \<Rightarrow> 'a fundRequest list \<Rightarrow> 'a fundRequest list
     \<Rightarrow> 'a fundRequest list \<times> 'a fundRequest list \<times> tokenAmount" where
  "split_loop undef [] releaseAmt batchWallet toAddAmt toCancel toAdd =
     (toCancel, toAdd, toAddAmt - releaseAmt)"
| "split_loop undef (req # reqs) releaseAmt batchWallet toAddAmt toCancel toAdd =
     (let amt = Amount req in
      if amt \<le> releaseAmt
      then split_loop undef reqs (releaseAmt - amt) batchWallet toAddAmt (toCancel @ [req]) toAdd
      else
        let batchWallet' = (if batchWallet = undef then rq_Wallet req else batchWallet) in
        if batchWallet' = rq_Wallet req
        then split_loop undef reqs 0 batchWallet' (toAddAmt + (amt - releaseAmt)) toCancel (toAdd @ [req])
        else split_loop undef reqs releaseAmt batchWallet' toAddAmt toCancel toAdd)"

definition splitReservations ::
  "'a \<Rightarrow> 'a fundRequest list \<Rightarrow> 'a fundRequest list \<Rightarrow> 'a fundRequest list \<times> 'a fundRequest list \<times> tokenAmount" where
  "splitReservations undef reservations releases =
     split_loop undef reservations (sum_list (map Amount releases)) undef 0 [] []"

record 'a processResult =
  pr_covered :: "'a fundRequest list"
  pr_added :: "'a fundRequest list"
  pr_amtReserved :: tokenAmount
  pr_msgCid :: "cid option"

text \<open>
  The body of \<open>processReservations\<close>: the result and the messages it pushed.
\<close>

definition processReservations_body ::
  "('a, 'b) fund_env \<Rightarrow> 'a fundedAddressState \<Rightarrow> 'a fundRequest list \<Rightarrow> 'a fundRequest list
     \<Rightarrow> (fm_error + 'a processResult) \<times> ('a, 'b) market_msg list" where
  "processReservations_body env state reservations releases =
     (case splitReservations (fe_Undef env) reservations releases of
        (toCancel, toAdd, reservedDelta) \<Rightarrow>
          let reserved = (if fs_AmtReserved state + reservedDelta < 0 then 0
                          else fs_AmtReserved state + reservedDelta);
              res = \<lparr>pr_covered = toCancel, pr_added = [], pr_amtReserved = reserved, pr_msgCid = None\<rparr>
          in case (if toAdd \<noteq> [] \<and> reserved > 0
                   then (case AvailableFunds env (fs_Addr state) of
                           Inl err \<Rightarrow> Inl err
                         | Inr avail \<Rightarrow> Inr (reserved - avail))
                   else Inr 0) of
               Inl err \<Rightarrow> (Inl err, [])
             | Inr amtToAdd \<Rightarrow>
                 (if amtToAdd \<le> 0
                  then (Inr (res\<lparr>pr_covered := toCancel @ toAdd\<rparr>), [])
                  else case AddFunds env (rq_Wallet (hd toAdd)) (fs_Addr state) amtToAdd of
                    Inl err \<Rightarrow> (Inl err, [])
                  | Inr (c, msg) \<Rightarrow> (Inr (res\<lparr>pr_added := toAdd, pr_msgCid := Some c\<rparr>), [msg])))"

text \<open>
  \<open>processReservations\<close> with its deferred function, which completes the requests: all of
  them with the error if there is one, otherwise the releases, the covered reservations and,
  when a message was sent, the added ones.
\<close>

definition processReservations ::
  "('a, 'b) fund_env \<Rightarrow> 'a fundedAddressState \<Rightarrow> completions \<Rightarrow> 'a fundRequest list \<Rightarrow> 'a fundRequest list
     \<Rightarrow> ((fm_error + 'a processResult) \<times> completions \<times> ('a, 'b) market_msg list) option" where
  "processReservations env state done reservations releases =
     (case processReservations_body env state reservations releases of
        (Inl err, sent) \<Rightarrow>
          (case completeAll done (reservations @ releases) cidUndef (Some err) of
             None \<Rightarrow> None
           | Some done' \<Rightarrow> Some (Inl err, done', sent))
      | (Inr pr, sent) \<Rightarrow>
          (case completeAll done releases cidUndef None of
             None \<Rightarrow> None
           | Some done1 \<Rightarrow>
               (case completeAll done1 (pr_covered pr) cidUndef None of
                  None \<Rightarrow> None
                | Some done2 \<Rightarrow>
                    (case pr_msgCid pr of
                       None \<Rightarrow> Some (Inr pr, done2, sent)
                     | Some c \<Rightarrow>
                         (case completeAll done2 (pr_added pr) c None of
                            None \<Rightarrow> None
                          | Some done3 \<Rightarrow> Some (Inr pr, done3, sent))))))"

section \<open>Withdrawals\<close>

text \<open>
  The loop of \<open>processWithdrawals\<close>: total queued so far, amount and requests allowed, the
  batch wallet, and the log of completions.
\<close>

fun withdraw_loop ::
  "'a \<Rightarrow> tokenAmount \<Rightarrow> tokenAmount \<Rightarrow> tokenAmount \<Rightarrow> 'a fundRequest list \<Rightarrow> tokenAmount \<Rightarrow> tokenAmount
     \<Rightarrow> 'a fundRequest list \<Rightarrow> 'a \<Rightarrow> completions
     \<Rightarrow> (tokenAmount \<times> 'a fundRequest list \<times> completions) option" where
  "withdraw_loop undef avail reserved netAvail [] withdrawalAmt allowedAmt allowed batchWallet done =
     Some (allowedAmt, allowed, done)"
| "withdraw_loop undef avail reserved netAvail (req # reqs) withdrawalAmt allowedAmt allowed batchWallet done =
     (let amt = Amount req in
      if amt = 0
      then (case Complete done req cidUndef None of
              None \<Rightarrow> None
            | Some done' \<Rightarrow>
                withdraw_loop undef avail reserved netAvail reqs withdrawalAmt allowedAmt allowed batchWallet done')
      else
        let newWithdrawalAmt = withdrawalAmt + amt in
        if newWithdrawalAmt > netAvail
        then (case Complete done req cidUndef
                     (Some (FmInsufficient amt (netAvail - withdrawalAmt) avail reserved)) of
                None \<Rightarrow> None
              | Some done' \<Rightarrow>
                  withdraw_loop undef avail reserved netAvail reqs withdrawalAmt allowedAmt allowed batchWallet done')
        else
          let batchWallet' = (if batchWallet = undef then rq_Wallet req else batchWallet) in
          if rq_Wallet req \<noteq> batchWallet'
          then withdraw_loop undef avail reserved netAvail reqs withdrawalAmt allowedAmt allowed batchWallet' done
          else withdraw_loop undef avail reserved netAvail reqs newWithdrawalAmt (allowedAmt + amt)
                 (allowed @ [req]) batchWallet' done)"

text \<open>
  \<open>processWithdrawals\<close> with its deferred function: an error completes every withdrawal
  with it.
\<close>

definition processWithdrawals ::
  "('a, 'b) fund_env \<Rightarrow> 'a fundedAddressState \<Rightarrow> completions \<Rightarrow> 'a fundRequest list
     \<Rightarrow> ((fm_error + cid) \<times> completions \<times> ('a, 'b) market_msg list) option" where
  "processWithdrawals env state done withdrawals =
     (let fail = (\<lambda>d err. case completeAll d withdrawals cidUndef (Some err) of
                            None \<Rightarrow> None
                          | Some d' \<Rightarrow> Some (Inl err, d', []))
      in case AvailableFunds env (fs_Addr state) of
        Inl err \<Rightarrow> fail done err
      | Inr avail \<Rightarrow>
          (case withdraw_loop (fe_Undef env) avail (fs_AmtReserved state) (avail - fs_AmtReserved state)
                  withdrawals 0 0 [] (fe_Undef env) done of
             None \<Rightarrow> None
           | Some (allowedAmt, allowed, done1) \<Rightarrow>
               (if allowedAmt = 0
                then (case completeAll done1 allowed cidUndef None of
                        None \<Rightarrow> None
                      | Some done2 \<Rightarrow> Some (Inr cidUndef, done2, []))
                else case WithdrawFunds env (rq_Wallet (hd allowed)) (fs_Addr state) allowedAmt of
                  Inl err \<Rightarrow> fail done1 err
                | Inr (c, msg) \<Rightarrow>
                    (case completeAll done1 allowed c None of
                       None \<Rightarrow> None
                     | Some done2 \<Rightarrow> Some (Inr c, done2, [msg])))))"

section \<open>Processing the queues\<close>

definition saveState :: "('a, 'b) fund_env \<Rightarrow> ('a, 'b) fundedAddress \<Rightarrow> ('a, 'b) fundedAddress" where
  "saveState env a = (if fe_saveOk env then a\<lparr>fa_saved := Some (fa_state a)\<rparr> else a)"

text \<open>\<open>applyStateChange\<close>: an amount of \<open>None\<close> is the nil \<^verbatim>\<open>types.EmptyInt\<close>.\<close>

definition applyStateChange ::
  "('a, 'b) fund_env \<Rightarrow> ('a, 'b) fundedAddress \<Rightarrow> cid option \<Rightarrow> tokenAmount option \<Rightarrow> ('a, 'b) fundedAddress" where
  "applyStateChange env a msgCid amtReserved =
     (let s = (fa_state a)\<lparr>fs_MsgCid := msgCid\<rparr>;
          s' = (case amtReserved of None \<Rightarrow> s | Some amt \<Rightarrow> s\<lparr>fs_AmtReserved := amt\<rparr>)
      in saveState env (a\<lparr>fa_state := s'\<rparr>))"

definition clearWaitState :: "('a, 'b) fund_env \<Rightarrow> ('a, 'b) fundedAddress \<Rightarrow> ('a, 'b) fundedAddress" where
  "clearWaitState env a = saveState env (a\<lparr>fa_state := (fa_state a)\<lparr>fs_MsgCid := None\<rparr>\<rparr>)"

definition startWaitForResults :: "('a, 'b) fundedAddress \<Rightarrow> cid \<Rightarrow> ('a, 'b) fundedAddress" where
  "startWaitForResults a c = a\<lparr>fa_waits := fa_waits a @ [c]\<rparr>"

definition process_reservations_part ::
  "('a, 'b) fund_env \<Rightarrow> ('a, 'b) fundedAddress \<Rightarrow> ('a, 'b) fundedAddress option" where
  "process_reservations_part env a =
     (case processReservations env (fa_state a) (fa_done a) (fa_reservations a) (fa_releases a) of
        None \<Rightarrow> None
      | Some (res, done, sent) \<Rightarrow>
          (let a1 = a\<lparr>fa_done := done, fa_sent := fa_sent a @ sent\<rparr>;
               a2 = (case res of
                       Inl _ \<Rightarrow> a1
                     | Inr pr \<Rightarrow> applyStateChange env a1 (pr_msgCid pr) (Some (pr_amtReserved pr)))
           in Some (a2\<lparr>fa_reservations := filterOutProcessedReqs done (fa_reservations a2),
                       fa_releases := filterOutProcessedReqs done (fa_releases a2)\<rparr>)))"

definition process_withdrawals_part ::
  "('a, 'b) fund_env \<Rightarrow> ('a, 'b) fundedAddress \<Rightarrow> ('a, 'b) fundedAddress option" where
  "process_withdrawals_part env a =
     (case processWithdrawals env (fa_state a) (fa_done a) (fa_withdrawals a) of
        None \<Rightarrow> None
      | Some (res, done, sent) \<Rightarrow>
          (let a1 = a\<lparr>fa_done := done, fa_sent := fa_sent a @ sent\<rparr>;
               a2 = (case res of
                       Inl _ \<Rightarrow> a1
                     | Inr c \<Rightarrow> if c \<noteq> cidUndef then applyStateChange env a1 (Some c) None else a1)
           in Some (a2\<lparr>fa_withdrawals := filterOutProcessedReqs done (fa_withdrawals a2)\<rparr>)))"

definition process :: "('a, 'b) fund_env \<Rightarrow> ('a, 'b) fundedAddress \<Rightarrow> ('a, 'b) fundedAddress option" where
  "process env a =
     (if fa_listener a = Some False then Some a
      else
        let a0 = a\<lparr>fa_listener := None\<rparr>;
            haveReservations = (fa_reservations a0 \<noteq> [] \<or> fa_releases a0 \<noteq> []);
            haveWithdrawals = (fa_withdrawals a0 \<noteq> [])
        in if fs_MsgCid (fa_state a0) \<noteq> None then Some a0
           else if \<not> haveReservations \<and> \<not> haveWithdrawals then Some a0
           else case (if haveReservations then process_reservations_part env a0 else Some a0) of
             None \<Rightarrow> None
           | Some a1 \<Rightarrow>
               (case (if haveWithdrawals \<and> fs_MsgCid (fa_state a1) = None \<and> fa_reservations a1 = []
                      then process_withdrawals_part env a1 else Some a1) of
                  None \<Rightarrow> None
                | Some a2 \<Rightarrow>
                    (let a3 = (case fs_MsgCid (fa_state a2) of
                                 None \<Rightarrow> a2
                               | Some c \<Rightarrow> startWaitForResults a2 c)
                     in Some (a3\<lparr>fa_pending := fa_pending a3 + 1\<rparr>))))"

section \<open>The interface of a funded address\<close>

definition onProcessStart :: "bool \<Rightarrow> ('a, 'b) fundedAddress \<Rightarrow> ('a, 'b) fundedAddress" where
  "onProcessStart answer a = a\<lparr>fa_listener := Some answer\<rparr>"

definition start :: "('a, 'b) fundedAddress \<Rightarrow> ('a, 'b) fundedAddress" where
  "start a = (case fs_MsgCid (fa_state a) of None \<Rightarrow> a | Some c \<Rightarrow> startWaitForResults a c)"

definition getReserved :: "('a, 'b) fundedAddress \<Rightarrow> tokenAmount" where
  "getReserved a = fs_AmtReserved (fa_state a)"

text \<open>
  \<open>requestAndWait\<close> queues a request and schedules \<open>process\<close>; its answer is the
  result that is later logged under the request's identifier.
\<close>

definition reserve :: "nat \<Rightarrow> 'a \<Rightarrow> tokenAmount \<Rightarrow> ('a, 'b) fundedAddress \<Rightarrow> ('a, 'b) fundedAddress" where
  "reserve i wallet amt a =
     a\<lparr>fa_reservations := fa_reservations a @ [newFundRequest i wallet amt], fa_pending := fa_pending a + 1\<rparr>"

definition release :: "'a \<Rightarrow> nat \<Rightarrow> tokenAmount \<Rightarrow> ('a, 'b) fundedAddress \<Rightarrow> ('a, 'b) fundedAddress" where
  "release undef i amt a =
     a\<lparr>fa_releases := fa_releases a @ [newFundRequest i undef amt], fa_pending := fa_pending a + 1\<rparr>"

definition withdraw :: "nat \<Rightarrow> 'a \<Rightarrow> tokenAmount \<Rightarrow> ('a, 'b) fundedAddress \<Rightarrow> ('a, 'b) fundedAddress" where
  "withdraw i wallet amt a =
     a\<lparr>fa_withdrawals := fa_withdrawals a @ [newFundRequest i wallet amt], fa_pending := fa_pending a + 1\<rparr>"

text \<open>
  The goroutine of \<open>startWaitForResults\<close>, once the message has landed or the wait has
  failed: clear the wait state, then process.
\<close>

definition waitDone :: "('a, 'b) fund_env \<Rightarrow> cid \<Rightarrow> ('a, 'b) fundedAddress \<Rightarrow> ('a, 'b) fundedAddress" where
  "waitDone env c a =
     (let a1 = clearWaitState env (a\<lparr>fa_waits := remove1 c (fa_waits a)\<rparr>)
      in a1\<lparr>fa_pending := fa_pending a1 + 1\<rparr>)"

section \<open>The manager\<close>

record ('a, 'b) fundManager =
  fm_fundedAddrs :: "('a, ('a, 'b) fundedAddress) gomap"

definition newFundManager :: "('a, 'b) fundManager" where
  "newFundManager = \<lparr>fm_fundedAddrs = []\<rparr>"

text \<open>\<open>Start\<close> visits the saved states in the order the datastore lists them.\<close>

definition Start :: "'a fundedAddressState list \<Rightarrow> ('a, 'b) fundManager \<Rightarrow> ('a, 'b) fundManager" where
  "Start stored fm =
     fold (\<lambda>st m. let fa = (newFundedAddress (fs_Addr st))\<lparr>fa_state := st, fa_saved := Some st\<rparr>
                  in m\<lparr>fm_fundedAddrs := gm_set (fs_Addr st) (start fa) (fm_fundedAddrs m)\<rparr>) stored fm"

definition getFundedAddress ::
  "'a \<Rightarrow> ('a, 'b) fundManager \<Rightarrow> ('a, 'b) fundedAddress \<times> ('a, 'b) fundManager" where
  "getFundedAddress addr fm =
     (case gm_get (fm_fundedAddrs fm) addr of
        Some fa \<Rightarrow> (fa, fm)
      | None \<Rightarrow>
          (let fa = newFundedAddress addr
           in (fa, fm\<lparr>fm_fundedAddrs := gm_set addr fa (fm_fundedAddrs fm)\<rparr>)))"

definition updateFunded ::
  "'a \<Rightarrow> (('a, 'b) fundedAddress \<Rightarrow> ('a, 'b) fundedAddress) \<Rightarrow> ('a, 'b) fundManager \<Rightarrow> ('a, 'b) fundManager" where
  "updateFunded addr f fm =
     (case getFundedAddress addr fm of
        (fa, fm') \<Rightarrow> fm'\<lparr>fm_fundedAddrs := gm_set addr (f fa) (fm_fundedAddrs fm')\<rparr>)"

definition Reserve :: "nat \<Rightarrow> 'a \<Rightarrow> 'a \<Rightarrow> tokenAmount \<Rightarrow> ('a, 'b) fundManager \<Rightarrow> ('a, 'b) fundManager" where
  "Reserve i wallet addr amt = updateFunded addr (reserve i wallet amt)"

definition Release :: "'a \<Rightarrow> nat \<Rightarrow> 'a \<Rightarrow> tokenAmount \<Rightarrow> ('a, 'b) fundManager \<Rightarrow> ('a, 'b) fundManager" where
  "Release undef i addr amt = updateFunded addr (release undef i amt)"

definition Withdraw :: "nat \<Rightarrow> 'a \<Rightarrow> 'a \<Rightarrow> tokenAmount \<Rightarrow> ('a, 'b) fundManager \<Rightarrow> ('a, 'b) fundManager" where
  "Withdraw i wallet addr amt = updateFunded addr (withdraw i wallet amt)"

definition GetReserved :: "'a \<Rightarrow> ('a, 'b) fundManager \<Rightarrow> tokenAmount \<times> ('a, 'b) fundManager" where
  "GetReserved addr fm = (case getFundedAddress addr fm of (fa, fm') \<Rightarrow> (getReserved fa, fm'))"

section \<open>Completing requests\<close>

abbreviation ids :: "'a fundRequest list \<Rightarrow> nat list" where
  "ids reqs \<equiv> map rq_id reqs"

abbreviation total :: "'a fundRequest list \<Rightarrow> tokenAmount" where
  "total reqs \<equiv> sum_list (map Amount reqs)"

text \<open>\<open>open_reqs done reqs\<close>: distinct requests, none of them completed.\<close>

definition open_reqs :: "completions \<Rightarrow> 'a fundRequest list \<Rightarrow> bool" where
  "open_reqs done reqs \<longleftrightarrow> distinct (ids reqs) \<and> (\<forall>i \<in> set (ids reqs). gm_get done i = None)"

lemma open_reqs_Nil [simp]: "open_reqs done []"
  by (simp add: open_reqs_def)

lemma open_reqs_append [fund_simps]:
  "open_reqs done (xs @ ys) \<longleftrightarrow> open_reqs done xs \<and> open_reqs done ys \<and> set (ids xs) \<inter> set (ids ys) = {}"
  by (auto simp: open_reqs_def)

lemma open_reqs_Cons [fund_simps]:
  "open_reqs done (r # rs) \<longleftrightarrow> open_reqs done rs \<and> rq_id r \<notin> set (ids rs) \<and> gm_get done (rq_id r) = None"
  by (auto simp: open_reqs_def)

lemma completeAll_open:
  assumes "open_reqs done reqs"
  shows "\<exists>done'. completeAll done reqs c err = Some done'
    \<and> (\<forall>i. gm_get done' i = (if i \<in> set (ids reqs) then Some \<lparr>rr_msgCid = c, rr_err = err\<rparr> else gm_get done i))"
  using assms
proof (induction reqs arbitrary: "done")
  case Nil
  then show ?case by simp
next
  case (Cons r rs)
  let ?done1 = "gm_set (rq_id r) \<lparr>rr_msgCid = c, rr_err = err\<rparr> done"
  have c: "Complete done r c err = Some ?done1"
    using Cons.prems by (simp add: Complete_def open_reqs_Cons)
  have "open_reqs ?done1 rs"
    using Cons.prems by (auto simp: open_reqs_def) (metis imageI)
  from Cons.IH [OF this] c Cons.prems show ?case
    by (auto simp: open_reqs_def)
qed

lemma completeAll_twice:
  "r \<in> set reqs \<Longrightarrow> gm_get done (rq_id r) \<noteq> None \<Longrightarrow> completeAll done reqs c err = None"
  by (induction reqs arbitrary: "done") (auto simp: Complete_def split: option.split)

lemma open_reqs_subset:
  assumes "open_reqs done ys" and "distinct (ids xs)" and "set xs \<subseteq> set ys"
  shows "open_reqs done xs"
  using assms by (auto simp: open_reqs_def)

section \<open>Splitting the reservations\<close>

lemma split_loop_sum:
  assumes "split_loop undef reqs releaseAmt bw toAddAmt toCancel toAdd = (c, a, delta)"
  shows "delta = toAddAmt - releaseAmt + (total c - total toCancel) + (total a - total toAdd)"
  using assms
  by (induction undef reqs releaseAmt bw toAddAmt toCancel toAdd rule: split_loop.induct)
     (auto simp: Let_def split: if_splits)

lemma split_loop_lists:
  assumes "split_loop undef reqs releaseAmt bw toAddAmt toCancel toAdd = (c, a, delta)"
  shows "\<exists>c' a'. c = toCancel @ c' \<and> a = toAdd @ a' \<and> mset c' + mset a' \<subseteq># mset reqs
    \<and> (\<forall>r \<in> set a'. bw \<noteq> undef \<longrightarrow> rq_Wallet r = bw)
    \<and> ((\<forall>r \<in> set reqs. rq_Wallet r \<noteq> undef) \<longrightarrow> (\<exists>w. \<forall>r \<in> set a'. rq_Wallet r = w))
    \<and> (bw = undef \<longrightarrow> reqs \<noteq> [] \<longrightarrow> hd reqs \<in> set c' \<union> set a')"
  using assms
proof (induction undef reqs releaseAmt bw toAddAmt toCancel toAdd rule: split_loop.induct)
  case (1 undef releaseAmt bw toAddAmt toCancel toAdd)
  then show ?case by simp
next
  case (2 undef req reqs releaseAmt bw toAddAmt toCancel toAdd)
  let ?bw = "if bw = undef then rq_Wallet req else bw"
  consider (cancel) "Amount req \<le> releaseAmt"
    | (add) "\<not> Amount req \<le> releaseAmt" "?bw = rq_Wallet req"
    | (skip) "\<not> Amount req \<le> releaseAmt" "?bw \<noteq> rq_Wallet req" by blast
  then show ?case
  proof cases
    case cancel
    then obtain c' a' where IH: "c = (toCancel @ [req]) @ c'" "a = toAdd @ a'" "mset c' + mset a' \<subseteq># mset reqs"
        "\<forall>r \<in> set a'. bw \<noteq> undef \<longrightarrow> rq_Wallet r = bw"
        "(\<forall>r \<in> set reqs. rq_Wallet r \<noteq> undef) \<longrightarrow> (\<exists>w. \<forall>r \<in> set a'. rq_Wallet r = w)"
      using "2.IH"(1) "2.prems" by auto
    then show ?thesis
      by (intro exI [where x = "req # c'"] exI [where x = a']) auto
  next
    case add
    have loop: "split_loop undef reqs 0 ?bw (toAddAmt + (Amount req - releaseAmt)) toCancel (toAdd @ [req]) = (c, a, delta)"
      using "2.prems" add by (simp add: Let_def)
    obtain c' a' where IH: "c = toCancel @ c'" "a = (toAdd @ [req]) @ a'" "mset c' + mset a' \<subseteq># mset reqs"
        "\<forall>r \<in> set a'. ?bw \<noteq> undef \<longrightarrow> rq_Wallet r = ?bw"
      using "2.IH"(2) [OF refl add(1) refl add(2) loop] by blast
    have "\<exists>w. \<forall>r \<in> set (req # a'). rq_Wallet r = w" if "\<forall>r \<in> set (req # reqs). rq_Wallet r \<noteq> undef"
      using IH(4) add that by (intro exI [where x = ?bw]) auto
    with IH add show ?thesis
      by (intro exI [where x = c'] exI [where x = "req # a'"]) (auto split: if_splits)
  next
    case skip
    then have bw: "bw \<noteq> undef" "?bw = bw" by (auto split: if_splits)
    have loop: "split_loop undef reqs releaseAmt ?bw toAddAmt toCancel toAdd = (c, a, delta)"
      using "2.prems" skip by (simp add: Let_def)
    obtain c' a' where IH: "c = toCancel @ c'" "a = toAdd @ a'" "mset c' + mset a' \<subseteq># mset reqs"
        "\<forall>r \<in> set a'. bw \<noteq> undef \<longrightarrow> rq_Wallet r = bw"
      using "2.IH"(3) [OF refl skip(1) refl skip(2) loop] bw by metis
    with bw show ?thesis
      by (intro exI [where x = c'] exI [where x = a'])
         (auto intro: subset_mset.order_trans)
  qed
qed

text \<open>
  Splitting reservations against releases loses no tokens: the change of the
  reserved amount is what the cancelled and the added reservations ask for, less everything
  released. The two lists are disjoint parts of the reservations, the added ones come from one
  wallet, and the first reservation is always in one of them.
\<close>

theorem splitReservations_conserves:
  assumes "splitReservations undef reservations releases = (toCancel, toAdd, delta)"
    and "\<forall>r \<in> set reservations. rq_Wallet r \<noteq> undef"
  shows "delta = total toCancel + total toAdd - total releases
    \<and> mset toCancel + mset toAdd \<subseteq># mset reservations
    \<and> (\<exists>w. \<forall>r \<in> set toAdd. rq_Wallet r = w)
    \<and> (reservations \<noteq> [] \<longrightarrow> hd reservations \<in> set toCancel \<union> set toAdd)"
  using split_loop_sum [OF assms(1) [unfolded splitReservations_def]]
    split_loop_lists [OF assms(1) [unfolded splitReservations_def]] assms(2)
  by auto

text \<open>An instance: two wallets, a release that covers the first request and part of the second.\<close>

theorem splitReservations_conserves_witness:
  "splitReservations (0::nat)
      [newFundRequest 1 7 3, newFundRequest 2 7 10, newFundRequest 3 8 5] [newFundRequest 4 0 4]
    = ([newFundRequest 1 7 3], [newFundRequest 2 7 10], 9)
   \<and> (9::int) = total [newFundRequest 1 (7::nat) 3] + total [newFundRequest 2 (7::nat) 10] - total [newFundRequest 4 (0::nat) 4]"
proof -
  have s: "splitReservations (0::nat)
      [newFundRequest 1 7 3, newFundRequest 2 7 10, newFundRequest 3 8 5] [newFundRequest 4 0 4]
    = ([newFundRequest 1 7 3], [newFundRequest 2 7 10], 9)"
    by (simp add: splitReservations_def newFundRequest_def Amount_def)
  from splitReservations_conserves [OF s] s show ?thesis
    by (simp add: newFundRequest_def Amount_def)
qed

section \<open>Processing reservations\<close>

lemma distinct_submset:
  assumes "mset xs \<subseteq># mset ys" and "distinct ys"
  shows "distinct xs"
proof -
  obtain zs where "mset ys = mset xs + mset zs"
    using assms(1) by (metis ex_mset subset_mset.le_iff_add)
  then have "mset ys = mset (xs @ zs)" by simp
  then have "distinct (xs @ zs)"
    using assms(2) mset_eq_imp_distinct_iff by blast
  then show ?thesis by simp
qed

lemma open_reqs_submset:
  assumes "mset xs \<subseteq># mset ys" and "open_reqs done ys"
  shows "open_reqs done xs"
proof (rule open_reqs_subset [OF assms(2)])
  have "mset (ids xs) \<subseteq># mset (ids ys)"
    using assms(1) by (simp add: image_mset_subseteq_mono)
  then show "distinct (ids xs)"
    using assms(2) distinct_submset unfolding open_reqs_def by blast
  show "set xs \<subseteq> set ys"
    using assms(1) by (metis set_mset_mono set_mset_mset)
qed

text \<open>
  \<open>ext done done' reqs\<close>: what was completed stays as it was, and what is new are requests of
  the list.
\<close>

definition ext :: "completions \<Rightarrow> completions \<Rightarrow> 'a fundRequest list \<Rightarrow> bool" where
  "ext done done' reqs \<longleftrightarrow>
     (\<forall>i. gm_get done i \<noteq> None \<longrightarrow> gm_get done' i = gm_get done i)
   \<and> (\<forall>i. gm_get done' i \<noteq> None \<longrightarrow> gm_get done i \<noteq> None \<or> i \<in> set (ids reqs))"

lemma open_after_ext:
  assumes "ext done done' xs" and "open_reqs done ys" and "set (ids xs) \<inter> set (ids ys) = {}"
  shows "open_reqs done' ys"
  using assms unfolding ext_def open_reqs_def by (metis disjoint_iff)

lemma completeAll_ext:
  assumes "completeAll done reqs c err = Some done'" and "open_reqs done reqs"
  shows "ext done done' reqs" and "i \<in> set (ids reqs) \<Longrightarrow> gm_get done' i = Some \<lparr>rr_msgCid = c, rr_err = err\<rparr>"
proof -
  have eq: "gm_get done' i = (if i \<in> set (ids reqs) then Some \<lparr>rr_msgCid = c, rr_err = err\<rparr> else gm_get done i)" for i
    using completeAll_open [OF assms(2), of c err] assms(1) by auto
  show "ext done done' reqs"
    using assms(2) unfolding ext_def open_reqs_def eq by auto
  show "i \<in> set (ids reqs) \<Longrightarrow> gm_get done' i = Some \<lparr>rr_msgCid = c, rr_err = err\<rparr>"
    using eq by simp
qed

lemma ext_trans:
  assumes "ext d0 d1 xs" and "ext d1 d2 ys" and "set (ids xs) \<union> set (ids ys) \<subseteq> set (ids zs)"
  shows "ext d0 d2 zs"
  using assms unfolding ext_def by (metis Un_iff subsetD)

lemma ext_refl: "ext d d xs"
  by (simp add: ext_def)

lemma ext_mono: "ext d d' xs \<Longrightarrow> set (ids xs) \<subseteq> set (ids ys) \<Longrightarrow> ext d d' ys"
  unfolding ext_def by (metis subsetD)

lemma processReservations_body_cases:
  assumes "processReservations_body env state reservations releases = (res, sent)"
  obtains (err) e where "res = Inl e" "sent = []"
  | (covered) toCancel toAdd delta pr where
      "splitReservations (fe_Undef env) reservations releases = (toCancel, toAdd, delta)"
      "res = Inr pr" "sent = []" "pr_msgCid pr = None" "pr_covered pr = toCancel @ toAdd"
      "pr_amtReserved pr = max 0 (fs_AmtReserved state + delta)"
      "toAdd = [] \<or> pr_amtReserved pr = 0
        \<or> (\<exists>avail. AvailableFunds env (fs_Addr state) = Inr avail \<and> pr_amtReserved pr \<le> avail)"
  | (added) toCancel toAdd delta pr c msg avail where
      "splitReservations (fe_Undef env) reservations releases = (toCancel, toAdd, delta)"
      "res = Inr pr" "sent = [msg]" "pr_msgCid pr = Some c" "pr_covered pr = toCancel" "pr_added pr = toAdd"
      "pr_amtReserved pr = max 0 (fs_AmtReserved state + delta)" "toAdd \<noteq> []"
      "AvailableFunds env (fs_Addr state) = Inr avail" "avail < pr_amtReserved pr"
      "AddFunds env (rq_Wallet (hd toAdd)) (fs_Addr state) (pr_amtReserved pr - avail) = Inr (c, msg)"
proof -
  obtain toCancel toAdd delta where sp:
      "splitReservations (fe_Undef env) reservations releases = (toCancel, toAdd, delta)"
    by (metis prod_cases3)
  define R where "R = (if fs_AmtReserved state + delta < 0 then 0 else fs_AmtReserved state + delta)"
  have R: "R = max 0 (fs_AmtReserved state + delta)" by (simp add: R_def)
  have body: "(res, sent) = (case (if toAdd \<noteq> [] \<and> R > 0
       then (case AvailableFunds env (fs_Addr state) of Inl e \<Rightarrow> Inl e | Inr avail \<Rightarrow> Inr (R - avail)) else Inr 0) of
     Inl e \<Rightarrow> (Inl e, [])
   | Inr amt \<Rightarrow>
       (if amt \<le> 0
        then (Inr (\<lparr>pr_covered = toCancel, pr_added = [], pr_amtReserved = R, pr_msgCid = None\<rparr>\<lparr>pr_covered := toCancel @ toAdd\<rparr>), [])
        else case AddFunds env (rq_Wallet (hd toAdd)) (fs_Addr state) amt of
          Inl e \<Rightarrow> (Inl e, [])
        | Inr (c, msg) \<Rightarrow>
            (Inr (\<lparr>pr_covered = toCancel, pr_added = [], pr_amtReserved = R, pr_msgCid = None\<rparr>\<lparr>pr_added := toAdd, pr_msgCid := Some c\<rparr>), [msg])))"
    using assms unfolding processReservations_body_def sp Let_def prod.case R_def [symmetric] by (rule sym)
  show ?thesis
  proof (cases "toAdd \<noteq> [] \<and> R > 0")
    case False
    with body R show ?thesis
      by (intro covered [OF sp, where pr = "\<lparr>pr_covered = toCancel @ toAdd, pr_added = [], pr_amtReserved = R, pr_msgCid = None\<rparr>"])
         auto
  next
    case True
    show ?thesis
    proof (cases "AvailableFunds env (fs_Addr state)")
      case (Inl e)
      with True body show ?thesis by (intro err [of e]) auto
    next
      case (Inr avail)
      show ?thesis
      proof (cases "R - avail \<le> 0")
        case le: True
        with True Inr body R show ?thesis
          by (intro covered [OF sp, where pr = "\<lparr>pr_covered = toCancel @ toAdd, pr_added = [], pr_amtReserved = R, pr_msgCid = None\<rparr>"])
             auto
      next
        case gt: False
        show ?thesis
        proof (cases "AddFunds env (rq_Wallet (hd toAdd)) (fs_Addr state) (R - avail)")
          case (Inl e)
          with True Inr gt body show ?thesis by (intro err [of e]) auto
        next
          case add: (Inr cm)
          obtain c msg where cm: "cm = (c, msg)" by fastforce
          with True Inr gt body R add show ?thesis
            by (intro added [OF sp _ _ _ _ _ _ _ Inr, where c = c and msg = msg and
                  pr = "\<lparr>pr_covered = toCancel, pr_added = toAdd, pr_amtReserved = R, pr_msgCid = Some c\<rparr>"])
               auto
        qed
      qed
    qed
  qed
qed

lemma splitReservations_parts:
  assumes "splitReservations undef reservations releases = (toCancel, toAdd, delta)"
  shows "mset (toCancel @ toAdd) \<subseteq># mset reservations"
    and "reservations \<noteq> [] \<Longrightarrow> hd reservations \<in> set (toCancel @ toAdd)"
  using split_loop_lists [OF assms [unfolded splitReservations_def]] by auto

text \<open>
  On open requests \<open>processReservations\<close> does not panic, completes requests of its own
  queues only, among them every release and the first reservation, sends at most one message,
  and only when it reports its identifier.
\<close>

lemma processReservations_open:
  assumes op: "open_reqs done (reservations @ releases)"
  shows "\<exists>res done' sent. processReservations env state done reservations releases = Some (res, done', sent)
    \<and> processReservations_body env state reservations releases = (res, sent)
    \<and> ext done done' (reservations @ releases)
    \<and> (\<forall>i \<in> set (ids releases). gm_get done' i \<noteq> None)
    \<and> (reservations \<noteq> [] \<longrightarrow> gm_get done' (rq_id (hd reservations)) \<noteq> None)
    \<and> (\<forall>pr. res = Inr pr \<longrightarrow> pr_amtReserved pr \<ge> 0)"
proof -
  obtain res sent where body: "processReservations_body env state reservations releases = (res, sent)"
    by fastforce
  from body show ?thesis
  proof (cases rule: processReservations_body_cases)
    case (err e)
    obtain done' where d: "completeAll done (reservations @ releases) cidUndef (Some e) = Some done'"
      using completeAll_open [OF op] by blast
    with err body completeAll_ext [OF d op] show ?thesis
      by (auto simp: processReservations_def)
  next
    case (covered toCancel toAdd delta pr)
    have sub: "mset (toCancel @ toAdd) \<subseteq># mset reservations"
      using splitReservations_parts(1) [OF covered(1)] .
    have rel: "open_reqs done releases" and resv: "open_reqs done reservations"
        and dis: "set (ids reservations) \<inter> set (ids releases) = {}"
      using op by (auto simp: open_reqs_append)
    obtain d1 where d1: "completeAll done releases cidUndef None = Some d1"
      using completeAll_open [OF rel] by blast
    have "open_reqs done (toCancel @ toAdd)"
      using sub resv by (rule open_reqs_submset)
    moreover have sub': "set (ids (toCancel @ toAdd)) \<subseteq> set (ids reservations)"
      using set_mset_mono [OF sub] by auto
    ultimately have o1: "open_reqs d1 (toCancel @ toAdd)"
      using open_after_ext [OF completeAll_ext(1) [OF d1 rel]] dis by blast
    then obtain d2 where d2: "completeAll d1 (toCancel @ toAdd) cidUndef None = Some d2"
      using completeAll_open by blast
    have e: "ext done d2 (reservations @ releases)"
      by (rule ext_trans [OF completeAll_ext(1) [OF d1 rel] completeAll_ext(1) [OF d2 o1]]) (use sub' in auto)
    have "gm_get d2 i \<noteq> None" if "i \<in> set (ids releases)" for i
      using completeAll_ext(1) [OF d2 o1] completeAll_ext(2) [OF d1 rel that] unfolding ext_def by (metis option.distinct(1))
    moreover have "gm_get d2 (rq_id (hd reservations)) \<noteq> None" if "reservations \<noteq> []"
      using completeAll_ext(2) [OF d2 o1, of "rq_id (hd reservations)"] splitReservations_parts(2) [OF covered(1) that]
      by auto
    ultimately show ?thesis
      using body covered d1 d2 e by (auto simp: processReservations_def)
  next
    case (added toCancel toAdd delta pr c msg avail)
    have sub: "mset (toCancel @ toAdd) \<subseteq># mset reservations"
      using splitReservations_parts(1) [OF added(1)] .
    have rel: "open_reqs done releases" and resv: "open_reqs done reservations"
        and dis: "set (ids reservations) \<inter> set (ids releases) = {}"
      using op by (auto simp: open_reqs_append)
    obtain d1 where d1: "completeAll done releases cidUndef None = Some d1"
      using completeAll_open [OF rel] by blast
    have "open_reqs done (toCancel @ toAdd)"
      using sub resv by (rule open_reqs_submset)
    moreover have sub': "set (ids (toCancel @ toAdd)) \<subseteq> set (ids reservations)"
      using set_mset_mono [OF sub] by auto
    ultimately have "open_reqs d1 (toCancel @ toAdd)"
      using open_after_ext [OF completeAll_ext(1) [OF d1 rel]] dis by blast
    then have o1: "open_reqs d1 toCancel" "open_reqs d1 toAdd" "set (ids toCancel) \<inter> set (ids toAdd) = {}"
      by (auto simp: open_reqs_append)
    obtain d2 where d2: "completeAll d1 toCancel cidUndef None = Some d2"
      using completeAll_open [OF o1(1)] by blast
    have o2: "open_reqs d2 toAdd"
      by (rule open_after_ext [OF completeAll_ext(1) [OF d2 o1(1)] o1(2,3)])
    then obtain d3 where d3: "completeAll d2 toAdd c None = Some d3"
      using completeAll_open by blast
    have e12: "ext done d2 (toCancel @ releases)"
      by (rule ext_trans [OF completeAll_ext(1) [OF d1 rel] completeAll_ext(1) [OF d2 o1(1)]]) auto
    have e: "ext done d3 (reservations @ releases)"
      by (rule ext_trans [OF e12 completeAll_ext(1) [OF d3 o2]]) (use sub' in auto)
    have "gm_get d3 i \<noteq> None" if "i \<in> set (ids releases)" for i
      using completeAll_ext(1) [OF d3 o2] completeAll_ext(1) [OF d2 o1(1)] completeAll_ext(2) [OF d1 rel that]
      unfolding ext_def by (metis option.distinct(1))
    moreover have "gm_get d3 (rq_id (hd reservations)) \<noteq> None" if "reservations \<noteq> []"
      using completeAll_ext(2) [OF d3 o2, of "rq_id (hd reservations)"]
        completeAll_ext(2) [OF d2 o1(1), of "rq_id (hd reservations)"] completeAll_ext(1) [OF d3 o2]
        splitReservations_parts(2) [OF added(1) that]
      unfolding ext_def by (metis (no_types, lifting) UnE image_eqI option.distinct(1) set_append set_map)
    ultimately show ?thesis
      using body added d1 d2 d3 e by (auto simp: processReservations_def)
  qed
qed

lemma split_loop_only_releases:
  assumes "split_loop undef reqs releaseAmt bw toAddAmt toCancel toAdd = (c, a, delta)"
    and "0 \<le> releaseAmt" and "a = toAdd"
  shows "delta \<le> toAddAmt"
  using assms
proof (induction undef reqs releaseAmt bw toAddAmt toCancel toAdd rule: split_loop.induct)
  case (2 undef req reqs releaseAmt bw toAddAmt toCancel toAdd)
  have "toAdd \<noteq> toAdd @ [req] @ xs" for xs by simp
  with 2 split_loop_lists show ?case
    by (fastforce simp: Let_def split: if_splits)
qed auto

text \<open>
  Property C9. The reserved amount never grows beyond the funds behind it: when processing
  reservations raises it, the balance available to the address together with the value of the
  message that was sent covers the new reserved amount, and that message comes from the wallet
  of every reservation it is sent for.
\<close>

theorem reservations_are_covered:
  assumes "processReservations env state done reservations releases = Some (Inr pr, done', sent)"
    and "fs_AmtReserved state < pr_amtReserved pr" and "0 \<le> fs_AmtReserved state"
    and "\<forall>r \<in> set releases. 0 \<le> rq_amt r" and "\<forall>r \<in> set reservations. rq_Wallet r \<noteq> fe_Undef env"
  shows "\<exists>avail. AvailableFunds env (fs_Addr state) = Inr avail
    \<and> pr_amtReserved pr \<le> avail + sum_list (map mm_Value sent)
    \<and> (\<forall>msg \<in> set sent. \<forall>r \<in> set (pr_added pr). mm_From msg = rq_Wallet r)"
proof -
  obtain res where body: "processReservations_body env state reservations releases = (res, sent)" "res = Inr pr"
    using assms(1) by (auto simp: processReservations_def split: prod.splits sum.splits option.splits)
  have rel: "0 \<le> total releases"
    using assms(4) by (auto simp: Amount_def intro!: sum_list_nonneg)
  from body(1) show ?thesis
  proof (cases rule: processReservations_body_cases)
    case (err e)
    with body(2) show ?thesis by simp
  next
    case (covered toCancel toAdd delta pr')
    have "toAdd \<noteq> []"
    proof
      assume "toAdd = []"
      then have "delta \<le> 0"
        using split_loop_only_releases [OF covered(1) [unfolded splitReservations_def] rel] by simp
      with covered body(2) assms(2,3) show False by simp
    qed
    with covered body(2) assms(2,3) show ?thesis by auto
  next
    case (added toCancel toAdd delta pr' c msg avail)
    obtain w where w: "\<forall>r \<in> set toAdd. rq_Wallet r = w"
      using split_loop_lists [OF added(1) [unfolded splitReservations_def]] assms(5) by auto
    have msg: "mm_From msg = rq_Wallet (hd toAdd)" "mm_Value msg = pr_amtReserved pr' - avail"
      using added(11) by (auto simp: AddFunds_def Let_def split: sum.splits)
    have "hd toAdd \<in> set toAdd" using added(8) by simp
    then show ?thesis
      using added body(2) msg w by auto
  qed
qed

text \<open>
  A node that accepts every message, with fixed balances; message identifiers are their values
  plus one.
\<close>

definition demo_fund_env :: "tokenAmount \<Rightarrow> tokenAmount \<Rightarrow> (nat, nat) fund_env" where
  "demo_fund_env escrow locked =
     \<lparr>fe_Undef = 0, fe_StateMarketBalance = (\<lambda>_. Inr (escrow, locked)),
      fe_MpoolPushMessage = (\<lambda>msg. Inr (nat (mm_Value msg) + 1)),
      fe_serializeAddr = Inr, fe_serializeWithdraw = (\<lambda>a amt. Inr (nat amt)), fe_MarketActor = 5,
      fe_AddBalance = 2, fe_WithdrawBalance = 3, fe_saveOk = True\<rparr>"

text \<open>Witness of C9: 10 are reserved with 4 available, so 6 are sent.\<close>

theorem reservations_are_covered_witness:
  "\<exists>avail. AvailableFunds (demo_fund_env 5 1) 9 = Inr avail
    \<and> 10 \<le> avail + sum_list (map mm_Value
          [\<lparr>mm_To = 5, mm_From = 7, mm_Value = 6, mm_Method = 2, mm_Params = (9::nat)\<rparr>])"
proof -
  let ?st = "fa_state (newFundedAddress 9 :: (nat, nat) fundedAddress)"
  let ?pr = "\<lparr>pr_covered = [], pr_added = [newFundRequest 1 (7::nat) 10], pr_amtReserved = 10, pr_msgCid = Some 7\<rparr>"
  have p: "processReservations (demo_fund_env 5 1) ?st [] [newFundRequest 1 7 10] []
    = Some (Inr ?pr, [(1, \<lparr>rr_msgCid = 7, rr_err = None\<rparr>)],
            [\<lparr>mm_To = 5, mm_From = 7, mm_Value = 6, mm_Method = 2, mm_Params = 9\<rparr>])"
    by (simp add: processReservations_def processReservations_body_def splitReservations_def newFundRequest_def
        Amount_def newFundedAddress_def demo_fund_env_def AvailableFunds_def AddFunds_def Complete_def)
  have "fs_AmtReserved ?st < pr_amtReserved ?pr" "0 \<le> fs_AmtReserved ?st" "fs_Addr ?st = 9"
    by (simp_all add: newFundedAddress_def)
  with reservations_are_covered [OF p] show ?thesis
    by (auto simp: newFundRequest_def demo_fund_env_def)
qed

section \<open>Processing withdrawals\<close>

lemma Complete_open:
  assumes "gm_get done (rq_id r) = None"
  obtains done' where "Complete done r c err = Some done'"
    and "\<forall>i. gm_get done' i = (if i = rq_id r then Some \<lparr>rr_msgCid = c, rr_err = err\<rparr> else gm_get done i)"
  using assms by (auto simp: Complete_def)

text \<open>
  The loop keeps the requests it allows open, completes the others it drops, and never allows
  more than the net available amount. \<open>W\<close> and \<open>A\<close> are the amounts so far.
\<close>

definition loop_result where
  "loop_result undef netAvail reqs bw W A0 done A L done' \<longleftrightarrow>
     A = A0 + total L \<and> mset L \<subseteq># mset reqs
   \<and> (\<forall>i. gm_get done i \<noteq> None \<longrightarrow> gm_get done' i = gm_get done i)
   \<and> (\<forall>i. gm_get done' i \<noteq> None \<longrightarrow> gm_get done i \<noteq> None \<or> i \<in> set (ids reqs) - set (ids L))
   \<and> (W = A0 \<and> L \<noteq> [] \<longrightarrow> A \<le> netAvail)
   \<and> (bw = undef \<and> reqs \<noteq> [] \<longrightarrow> hd reqs \<in> set L \<or> gm_get done' (rq_id (hd reqs)) \<noteq> None)
   \<and> (\<forall>r \<in> set L. bw \<noteq> undef \<longrightarrow> rq_Wallet r = bw)"

lemma submset_add: "M \<subseteq># N \<Longrightarrow> M \<subseteq># add_mset x N"
  by (metis add_mset_add_single mset_subset_eq_add_left subset_mset.order_trans)

lemma withdraw_loop_open:
  assumes "open_reqs done reqs"
  shows "\<exists>A L done'. withdraw_loop undef avail reserved netAvail reqs W A0 L0 bw done = Some (A, L0 @ L, done')
    \<and> loop_result undef netAvail reqs bw W A0 done A L done'"
  using assms
proof (induction reqs arbitrary: W A0 L0 bw "done")
  case Nil
  then show ?case by (simp add: loop_result_def)
next
  case (Cons req reqs)
  let ?bw = "if bw = undef then rq_Wallet req else bw"
  let ?drop = "Amount req = 0 \<or> W + Amount req > netAvail"
  have op: "open_reqs done reqs" and new: "rq_id req \<notin> set (ids reqs)" "gm_get done (rq_id req) = None"
    using Cons.prems by (auto simp: open_reqs_Cons)
  consider (drop) ?drop | (skip) "\<not> ?drop" "rq_Wallet req \<noteq> ?bw" | (allow) "\<not> ?drop" "rq_Wallet req = ?bw"
    by blast
  then show ?case
  proof cases
    case drop
    define err where "err = (if Amount req = 0 then None
      else Some (FmInsufficient (Amount req) (netAvail - W) avail reserved))"
    obtain d1 where d1: "Complete done req cidUndef err = Some d1"
      and g: "\<forall>i. gm_get d1 i = (if i = rq_id req then Some \<lparr>rr_msgCid = cidUndef, rr_err = err\<rparr> else gm_get done i)"
      using Complete_open [OF new(2)] by metis
    have "open_reqs d1 reqs"
      using op new g unfolding open_reqs_def by metis
    then obtain A L d2 where IH: "withdraw_loop undef avail reserved netAvail reqs W A0 L0 bw d1 = Some (A, L0 @ L, d2)"
        "loop_result undef netAvail reqs bw W A0 d1 A L d2"
      using Cons.IH by blast
    have "loop_result undef netAvail (req # reqs) bw W A0 done A L d2"
    proof -
      have sub: "set (ids L) \<subseteq> set (ids reqs)"
        using IH(2) set_mset_mono [of "mset L" "mset reqs"] by (auto simp: loop_result_def)
      have "gm_get d2 i = gm_get done i" if "gm_get done i \<noteq> None" for i
        using IH(2) g new(2) that unfolding loop_result_def by (metis option.distinct(1))
      moreover have "gm_get d2 i \<noteq> None \<longrightarrow> gm_get done i \<noteq> None \<or> i \<in> set (ids (req # reqs)) - set (ids L)" for i
        using IH(2) g new sub unfolding loop_result_def by (cases "i = rq_id req") auto
      moreover have "gm_get d2 (rq_id req) \<noteq> None"
        using IH(2) g unfolding loop_result_def by (metis option.distinct(1))
      ultimately show ?thesis
        using IH(2) by (auto simp: loop_result_def intro: submset_add)
    qed
    moreover have "withdraw_loop undef avail reserved netAvail (req # reqs) W A0 L0 bw done = Some (A, L0 @ L, d2)"
      using drop d1 IH(1) by (auto simp: err_def Let_def)
    ultimately show ?thesis by blast
  next
    case skip
    then have bw: "bw \<noteq> undef" "?bw = bw" by (auto split: if_splits)
    obtain A L d2 where IH: "withdraw_loop undef avail reserved netAvail reqs W A0 L0 bw done = Some (A, L0 @ L, d2)"
        "loop_result undef netAvail reqs bw W A0 done A L d2"
      using Cons.IH [OF op] by blast
    have "loop_result undef netAvail (req # reqs) bw W A0 done A L d2"
      using IH(2) bw by (auto simp: loop_result_def intro: submset_add)
    moreover have "withdraw_loop undef avail reserved netAvail (req # reqs) W A0 L0 bw done = Some (A, L0 @ L, d2)"
      using skip bw IH(1) by simp
    ultimately show ?thesis by blast
  next
    case allow
    obtain A L d2 where IH: "withdraw_loop undef avail reserved netAvail reqs (W + Amount req) (A0 + Amount req) (L0 @ [req]) ?bw done
          = Some (A, (L0 @ [req]) @ L, d2)"
        "loop_result undef netAvail reqs ?bw (W + Amount req) (A0 + Amount req) done A L d2"
      using Cons.IH [OF op] by blast
    have "loop_result undef netAvail (req # reqs) bw W A0 done A (req # L) d2"
      using IH(2) allow new by (auto simp: loop_result_def split: if_splits)
    moreover have "withdraw_loop undef avail reserved netAvail (req # reqs) W A0 L0 bw done = Some (A, L0 @ req # L, d2)"
      using allow IH(1) by (simp add: Let_def)
    ultimately show ?thesis by blast
  qed
qed

lemma completeAll_Some_open:
  assumes "completeAll done reqs c err = Some done'"
  shows "open_reqs done reqs"
  using assms
proof (induction reqs arbitrary: "done")
  case (Cons r rs)
  from Cons.prems obtain d1 where d1: "Complete done r c err = Some d1" "completeAll d1 rs c err = Some done'"
    by (auto split: option.splits)
  then have r: "gm_get done (rq_id r) = None" and g: "\<And>i. gm_get d1 i = (if i = rq_id r then Some \<lparr>rr_msgCid = c, rr_err = err\<rparr> else gm_get done i)"
    by (auto simp: Complete_def split: option.splits)
  have "open_reqs d1 rs" using Cons.IH [OF d1(2)] .
  with r g show ?case
    unfolding open_reqs_Cons unfolding open_reqs_def by (metis option.distinct(1))
qed simp

text \<open>
  \<open>push_ok env\<close>: serialising the parameters and pushing the message of a withdrawal succeed.
\<close>

definition push_ok :: "('a, 'b) fund_env \<Rightarrow> bool" where
  "push_ok env \<longleftrightarrow> (\<forall>wallet addr amt. \<exists>c msg. WithdrawFunds env wallet addr amt = Inr (c, msg))"

lemma processWithdrawals_cases:
  assumes op: "open_reqs done withdrawals"
  obtains (noBalance) err done' where "AvailableFunds env (fs_Addr state) = Inl err"
      "completeAll done withdrawals cidUndef (Some err) = Some done'"
      "processWithdrawals env state done withdrawals = Some (Inl err, done', [])"
  | (loop) avail A L d1 where "AvailableFunds env (fs_Addr state) = Inr avail"
      "withdraw_loop (fe_Undef env) avail (fs_AmtReserved state) (avail - fs_AmtReserved state)
         withdrawals 0 0 [] (fe_Undef env) done = Some (A, L, d1)"
      "loop_result (fe_Undef env) (avail - fs_AmtReserved state) withdrawals (fe_Undef env) 0 0 done A L d1"
      "open_reqs d1 L"
proof (cases "AvailableFunds env (fs_Addr state)")
  case (Inl err)
  with completeAll_open [OF op, of cidUndef "Some err"] show ?thesis
    by (auto simp: processWithdrawals_def intro: noBalance)
next
  case (Inr avail)
  obtain A L d1 where w: "withdraw_loop (fe_Undef env) avail (fs_AmtReserved state) (avail - fs_AmtReserved state)
         withdrawals 0 0 [] (fe_Undef env) done = Some (A, [] @ L, d1)"
      and l: "loop_result (fe_Undef env) (avail - fs_AmtReserved state) withdrawals (fe_Undef env) 0 0 done A L d1"
    using withdraw_loop_open [OF op] by meson
  have "mset L \<subseteq># mset withdrawals" using l by (simp add: loop_result_def)
  then have oL: "open_reqs done L" by (rule open_reqs_submset [OF _ op])
  have "gm_get d1 i = None" if "i \<in> set (ids L)" for i
  proof (rule ccontr)
    assume n: "gm_get d1 i \<noteq> None"
    then have "gm_get done i \<noteq> None"
      using l that unfolding loop_result_def by blast
    with oL that show False unfolding open_reqs_def by (metis)
  qed
  with oL have "open_reqs d1 L"
    unfolding open_reqs_def by blast
  with Inr w l show ?thesis by (intro loop [of avail A L d1]) auto
qed

lemma loop_result_ext:
  assumes "loop_result undef netAvail reqs bw W A0 done A L d1"
  shows "ext done d1 reqs" and "set (ids L) \<subseteq> set (ids reqs)"
proof -
  show "ext done d1 reqs"
    using assms unfolding loop_result_def ext_def by blast
  have "mset L \<subseteq># mset reqs" using assms by (simp add: loop_result_def)
  then show "set (ids L) \<subseteq> set (ids reqs)"
    by (metis image_mono set_map set_mset_mono set_mset_mset)
qed

lemma processWithdrawals_open:
  assumes op: "open_reqs done withdrawals"
  shows "(processWithdrawals env state done withdrawals = Some (res, done', sent) \<longrightarrow>
      ext done done' withdrawals \<and> (withdrawals \<noteq> [] \<longrightarrow> gm_get done' (rq_id (hd withdrawals)) \<noteq> None)) \<and>
    (push_ok env \<longrightarrow> processWithdrawals env state done withdrawals \<noteq> None)"
  using op
proof (cases rule: processWithdrawals_cases [where env = env and state = state])
  case (noBalance err done')
  with completeAll_ext [OF noBalance(2) op]
  show ?thesis
    by auto
next
  case (loop avail A L d1)
  note ex = loop_result_ext [OF loop(3)]
  have fin: "ext done d2 withdrawals \<and> (withdrawals \<noteq> [] \<longrightarrow> gm_get d2 (rq_id (hd withdrawals)) \<noteq> None)"
    if d2: "completeAll d1 L c None = Some d2" for c d2
  proof -
    have e: "ext d1 d2 L" by (rule completeAll_ext(1) [OF d2 loop(4)])
    have "gm_get d2 (rq_id (hd withdrawals)) \<noteq> None" if "withdrawals \<noteq> []"
      using loop(3) that e completeAll_ext(2) [OF d2 loop(4), of "rq_id (hd withdrawals)"]
      unfolding loop_result_def ext_def by (metis image_eqI list.set_map option.distinct(1))
    then show ?thesis
      using ext_trans [OF ex(1) e, of withdrawals] ex(2) by blast
  qed
  have bad: "ext done d2 withdrawals \<and> (withdrawals \<noteq> [] \<longrightarrow> gm_get d2 (rq_id (hd withdrawals)) \<noteq> None)"
    if d2: "completeAll d1 withdrawals c err = Some d2" for c err d2
    using completeAll_ext [OF d2 completeAll_Some_open [OF d2]] ext_trans [OF ex(1), of d2 withdrawals withdrawals]
    by auto
  have ok: "\<exists>d2. completeAll d1 L c None = Some d2" for c
    using completeAll_open [OF loop(4)] by blast
  show ?thesis
  proof (cases "A = 0")
    case True
    with loop(1,2) ok [of cidUndef] fin show ?thesis
      by (auto simp: processWithdrawals_def)
  next
    case False
    show ?thesis
    proof (cases "WithdrawFunds env (rq_Wallet (hd L)) (fs_Addr state) A")
      case (Inl err)
      then have "\<not> push_ok env" unfolding push_ok_def by (metis sum.distinct(1))
      with False Inl loop(1,2) bad show ?thesis
        by (auto simp: processWithdrawals_def split: option.splits)
    next
      case (Inr cm)
      obtain c msg where "cm = (c, msg)" by fastforce
      with False Inr loop(1,2) ok [of c] fin show ?thesis
        by (auto simp: processWithdrawals_def)
    qed
  qed
qed

text \<open>
  Property C10. Reserved funds are never withdrawn: a withdrawal message is sent only for an
  amount that the available balance covers beyond the reserved amount, the amount is the sum of
  the requests it answers, and each of them is reported with the identifier of the message.
\<close>

theorem withdrawals_spare_reserved:
  assumes "open_reqs done withdrawals"
    and "processWithdrawals env state done withdrawals = Some (Inr c, done', sent)" and "c \<noteq> cidUndef"
  shows "\<exists>avail L msg. AvailableFunds env (fs_Addr state) = Inr avail
    \<and> fs_AmtReserved state + total L \<le> avail \<and> L \<noteq> [] \<and> mset L \<subseteq># mset withdrawals
    \<and> WithdrawFunds env (rq_Wallet (hd L)) (fs_Addr state) (total L) = Inr (c, msg) \<and> sent = [msg]
    \<and> (\<forall>r \<in> set L. gm_get done' (rq_id r) = Some \<lparr>rr_msgCid = c, rr_err = None\<rparr>)"
  using assms(1)
proof (cases rule: processWithdrawals_cases [where env = env and state = state])
  case (noBalance err done'')
  with assms(2) show ?thesis by simp
next
  case (loop avail A L d1)
  from loop(1,2) assms(2,3) obtain msg where A: "A \<noteq> 0"
      and w: "WithdrawFunds env (rq_Wallet (hd L)) (fs_Addr state) A = Inr (c, msg)" "sent = [msg]"
      and d: "completeAll d1 L c None = Some done'"
    by (auto simp: processWithdrawals_def split: if_splits option.splits sum.splits prod.splits)
  have AL: "A = total L" "L \<noteq> []" "A \<le> avail - fs_AmtReserved state" "mset L \<subseteq># mset withdrawals"
    using loop(3) A by (auto simp: loop_result_def)
  have "gm_get done' (rq_id r) = Some \<lparr>rr_msgCid = c, rr_err = None\<rparr>" if "r \<in> set L" for r
    using completeAll_ext(2) [OF d loop(4)] that by simp
  with loop(1) w AL show ?thesis
    by (intro exI [of _ avail] exI [of _ L] exI [of _ msg]) auto
qed

end
