(* ===== verification/Fund_Process.thy ===== *)
theory Fund_Process
  imports Fund_Manager
begin

text \<open>
  A funded address over time (chain/market/fundmanager.go): its steps, the invariant they keep,
  and that every queued request is answered. The model of the operations is in
  \<open>Fund_Manager\<close>.
\<close>

text \<open>Witness of C10: 3 and 4 are withdrawn of the 15 that are available beyond the 5 reserved.\<close>

theorem withdrawals_spare_reserved_witness:
  "\<exists>avail L msg. AvailableFunds (demo_fund_env 22 2) 9 = Inr avail
    \<and> 5 + total L \<le> avail \<and> L \<noteq> [] \<and> mset L \<subseteq># mset [newFundRequest 1 7 3, newFundRequest 2 7 (4::int)]
    \<and> WithdrawFunds (demo_fund_env 22 2) (rq_Wallet (hd L)) 9 (total L) = Inr (1, msg)"
proof -
  let ?st = "\<lparr>fs_Addr = (9::nat), fs_AmtReserved = 5, fs_MsgCid = None\<rparr>"
  let ?ws = "[newFundRequest 1 (7::nat) 3, newFundRequest 2 7 4]"
  have p: "\<exists>d s. processWithdrawals (demo_fund_env 22 2) ?st [] ?ws = Some (Inr 1, d, s)"
    by (simp add: processWithdrawals_def newFundRequest_def Amount_def demo_fund_env_def AvailableFunds_def
        WithdrawFunds_def Complete_def)
  have o: "open_reqs [] ?ws"
    by (simp add: open_reqs_def newFundRequest_def)
  from p obtain d s where "processWithdrawals (demo_fund_env 22 2) ?st [] ?ws = Some (Inr 1, d, s)" by blast
  from withdrawals_spare_reserved [OF o this] show ?thesis by auto
qed

text \<open>
  Property C34. A defect of the error path: a withdrawal of nothing is completed at once, and when
  pushing the message for the next one fails, the deferred function completes both, so the
  channel of the first is closed twice and the node panics.
\<close>

theorem failed_withdrawal_panics:
  assumes "AvailableFunds env (fs_Addr state) = Inr avail"
    and "Amount z = 0" and "0 < Amount w" and "fs_AmtReserved state + Amount w \<le> avail"
    and "rq_Wallet w \<noteq> fe_Undef env"
    and "WithdrawFunds env (rq_Wallet w) (fs_Addr state) (Amount w) = Inl err"
  shows "processWithdrawals env state done [z, w] = None"
proof (cases "gm_get done (rq_id z)")
  case (Some r)
  then show ?thesis
    using assms(1,2) by (simp add: processWithdrawals_def Complete_def)
next
  case None
  let ?d = "gm_set (rq_id z) \<lparr>rr_msgCid = cidUndef, rr_err = None\<rparr> done"
  have "completeAll ?d [z, w] cidUndef (Some err) = None"
    by (rule completeAll_twice [of z]) auto
  then show ?thesis
    using assms None by (simp add: processWithdrawals_def Complete_def Let_def)
qed

text \<open>Witness of C34: a node whose message pool refuses the message.\<close>

theorem failed_withdrawal_panics_witness:
  "processWithdrawals ((demo_fund_env 22 2)\<lparr>fe_MpoolPushMessage := \<lambda>_. Inl (FmExt 3)\<rparr>)
     \<lparr>fs_Addr = 9, fs_AmtReserved = 5, fs_MsgCid = None\<rparr> []
     [newFundRequest 1 7 0, newFundRequest 2 7 4] = None"
  by (rule failed_withdrawal_panics [where avail = 20 and err = "FmExt 3"])
     (simp_all add: newFundRequest_def Amount_def demo_fund_env_def AvailableFunds_def WithdrawFunds_def)

section \<open>The invariant\<close>

definition fa_queue :: "('a, 'b) fundedAddress \<Rightarrow> 'a fundRequest list" where
  "fa_queue a = fa_reservations a @ fa_releases a @ fa_withdrawals a"

text \<open>
  The queued requests are distinct and open, the reserved amount is not negative, exactly the
  message recorded in the state is waited for, and queued work is scheduled: either
  \<open>process\<close> is due to run or a wait is in flight.
\<close>

definition fa_wf :: "('a, 'b) fundedAddress \<Rightarrow> bool" where
  "fa_wf a \<longleftrightarrow> open_reqs (fa_done a) (fa_queue a) \<and> 0 \<le> fs_AmtReserved (fa_state a)
     \<and> fa_waits a = (case fs_MsgCid (fa_state a) of None \<Rightarrow> [] | Some c \<Rightarrow> [c])
     \<and> fa_listener a = None"

definition fa_inv :: "('a, 'b) fundedAddress \<Rightarrow> bool" where
  "fa_inv a \<longleftrightarrow> fa_wf a \<and> (fa_queue a \<noteq> [] \<longrightarrow> 0 < fa_pending a \<or> fa_waits a \<noteq> [])"

text \<open>
  \<open>fa_advance a a'\<close>: \<open>a'\<close> has completed more requests and dropped exactly the
  completed ones from the queues.
\<close>

definition fa_advance :: "('a, 'b) fundedAddress \<Rightarrow> ('a, 'b) fundedAddress \<Rightarrow> bool" where
  "fa_advance a a' \<longleftrightarrow> fa_queue a' = filterOutProcessedReqs (fa_done a') (fa_queue a)
     \<and> ext (fa_done a) (fa_done a') (fa_queue a) \<and> 0 \<le> fs_AmtReserved (fa_state a')
     \<and> fa_waits a' = fa_waits a \<and> fa_pending a' = fa_pending a \<and> fa_listener a' = fa_listener a"

lemma filterOut_append [simp]:
  "filterOutProcessedReqs d (xs @ ys) = filterOutProcessedReqs d xs @ filterOutProcessedReqs d ys"
  by (simp add: filterOutProcessedReqs_def)

lemma filterOut_open: "open_reqs d xs \<Longrightarrow> filterOutProcessedReqs d xs = xs"
  by (auto simp: filterOutProcessedReqs_def Completed_def open_reqs_def filter_id_conv)

lemma filterOut_twice:
  assumes "ext d1 d2 ys"
  shows "filterOutProcessedReqs d2 (filterOutProcessedReqs d1 xs) = filterOutProcessedReqs d2 xs"
  using assms by (induction xs) (auto simp: filterOutProcessedReqs_def Completed_def ext_def)

lemma open_filterOut: "open_reqs d xs \<Longrightarrow> open_reqs d' (filterOutProcessedReqs d' xs)"
  by (auto simp: open_reqs_def filterOutProcessedReqs_def Completed_def distinct_map intro: inj_on_subset)

lemma set_filterOut: "set (ids (filterOutProcessedReqs d xs)) \<subseteq> set (ids xs)"
  by (auto simp: filterOutProcessedReqs_def)

lemma filterOut_less:
  assumes "i \<in> set (ids xs)" and "gm_get d i \<noteq> None"
  shows "length (filterOutProcessedReqs d xs) < length xs"
proof -
  obtain x where "x \<in> set xs" "\<not> \<not> Completed d x"
    using assms by (auto simp: Completed_def)
  then show ?thesis
    unfolding filterOutProcessedReqs_def by (rule length_filter_less)
qed

lemma fa_advance_refl:
  "open_reqs (fa_done a) (fa_queue a) \<Longrightarrow> 0 \<le> fs_AmtReserved (fa_state a) \<Longrightarrow> fa_advance a a"
  by (simp add: fa_advance_def filterOut_open ext_refl)

lemma fa_advance_trans:
  assumes "fa_advance a b" and "fa_advance b c"
  shows "fa_advance a c"
proof -
  have "ext (fa_done a) (fa_done c) (fa_queue a)"
    by (rule ext_trans [of "fa_done a" "fa_done b" "fa_queue a" _ "fa_queue b"])
       (use assms set_filterOut [of "fa_done b" "fa_queue a"] in \<open>simp_all add: fa_advance_def\<close>)
  with assms show ?thesis
    by (auto simp: fa_advance_def filterOut_twice)
qed

lemma fa_advance_open: "open_reqs (fa_done a) (fa_queue a) \<Longrightarrow> fa_advance a b \<Longrightarrow> open_reqs (fa_done b) (fa_queue b)"
  by (simp add: fa_advance_def open_filterOut)

section \<open>One run of the processing loop\<close>

lemma applyStateChange_simps [simp]:
  "fa_queue (applyStateChange env a c amt) = fa_queue a"
  "fa_reservations (applyStateChange env a c amt) = fa_reservations a"
  "fa_releases (applyStateChange env a c amt) = fa_releases a"
  "fa_withdrawals (applyStateChange env a c amt) = fa_withdrawals a"
  "fa_done (applyStateChange env a c amt) = fa_done a"
  "fa_waits (applyStateChange env a c amt) = fa_waits a"
  "fa_pending (applyStateChange env a c amt) = fa_pending a"
  "fa_listener (applyStateChange env a c amt) = fa_listener a"
  "fs_MsgCid (fa_state (applyStateChange env a c amt)) = c"
  "fs_AmtReserved (fa_state (applyStateChange env a c amt)) =
     (case amt of None \<Rightarrow> fs_AmtReserved (fa_state a) | Some x \<Rightarrow> x)"
  by (simp_all add: applyStateChange_def saveState_def fa_queue_def Let_def split: option.split)

lemma process_reservations_part_advance:
  assumes op: "open_reqs (fa_done a) (fa_queue a)" and am: "0 \<le> fs_AmtReserved (fa_state a)"
  shows "\<exists>a'. process_reservations_part env a = Some a' \<and> fa_advance a a'
    \<and> (fa_reservations a \<noteq> [] \<or> fa_releases a \<noteq> [] \<longrightarrow> length (fa_queue a') < length (fa_queue a))"
proof -
  have rr: "open_reqs (fa_done a) (fa_reservations a @ fa_releases a)" and
      w: "open_reqs (fa_done a) (fa_withdrawals a)" and
      dis: "set (ids (fa_reservations a @ fa_releases a)) \<inter> set (ids (fa_withdrawals a)) = {}"
    using op by (auto simp: fa_queue_def open_reqs_append)
  obtain res d sent where p: "processReservations env (fa_state a) (fa_done a) (fa_reservations a) (fa_releases a) = Some (res, d, sent)"
      and e: "ext (fa_done a) d (fa_reservations a @ fa_releases a)"
      and rel: "\<forall>i \<in> set (ids (fa_releases a)). gm_get d i \<noteq> None"
      and resv: "fa_reservations a \<noteq> [] \<longrightarrow> gm_get d (rq_id (hd (fa_reservations a))) \<noteq> None"
      and amt: "\<forall>pr. res = Inr pr \<longrightarrow> pr_amtReserved pr \<ge> 0"
    using processReservations_open [OF rr] by metis
  define a1 where "a1 = a\<lparr>fa_done := d, fa_sent := fa_sent a @ sent\<rparr>"
  define a2 where "a2 = (case res of Inl _ \<Rightarrow> a1
     | Inr pr \<Rightarrow> applyStateChange env a1 (pr_msgCid pr) (Some (pr_amtReserved pr)))"
  define a' where "a' = a2\<lparr>fa_reservations := filterOutProcessedReqs d (fa_reservations a2),
     fa_releases := filterOutProcessedReqs d (fa_releases a2)\<rparr>"
  have part: "process_reservations_part env a = Some a'"
    unfolding process_reservations_part_def p a'_def a2_def a1_def Let_def by simp
  have same: "fa_reservations a2 = fa_reservations a" "fa_releases a2 = fa_releases a"
      "fa_withdrawals a2 = fa_withdrawals a" "fa_done a2 = d" "fa_waits a2 = fa_waits a"
      "fa_pending a2 = fa_pending a" "fa_listener a2 = fa_listener a" "0 \<le> fs_AmtReserved (fa_state a2)"
    using amt am by (auto simp: a2_def a1_def split: sum.split)
  have "filterOutProcessedReqs d (fa_withdrawals a) = fa_withdrawals a"
    by (rule filterOut_open [OF open_after_ext [OF e w dis]])
  then have q: "fa_queue a' = filterOutProcessedReqs d (fa_queue a)"
    using same by (simp add: a'_def fa_queue_def)
  have "ext (fa_done a) d (fa_queue a)"
    by (rule ext_mono [OF e]) (auto simp: fa_queue_def)
  with q same have adv: "fa_advance a a'"
    by (simp add: fa_advance_def a'_def)
  have "length (fa_queue a') < length (fa_queue a)" if "fa_reservations a \<noteq> [] \<or> fa_releases a \<noteq> []"
  proof -
    have "\<exists>i \<in> set (ids (fa_queue a)). gm_get d i \<noteq> None"
    proof (cases "fa_reservations a = []")
      case True
      with that have "rq_id (hd (fa_releases a)) \<in> set (ids (fa_releases a))" by simp
      with rel show ?thesis unfolding fa_queue_def by (metis UnI1 UnI2 map_append set_append)
    next
      case False
      then have "rq_id (hd (fa_reservations a)) \<in> set (ids (fa_queue a))" by (simp add: fa_queue_def)
      with resv False show ?thesis by metis
    qed
    with filterOut_less q show ?thesis by metis
  qed
  with part adv show ?thesis by blast
qed

lemma process_withdrawals_part_advance:
  assumes op: "open_reqs (fa_done a) (fa_queue a)" and am: "0 \<le> fs_AmtReserved (fa_state a)"
  shows "push_ok env \<Longrightarrow> process_withdrawals_part env a \<noteq> None"
    and "process_withdrawals_part env a = Some a' \<Longrightarrow> fa_advance a a'"
    and "process_withdrawals_part env a = Some a' \<Longrightarrow> fa_withdrawals a \<noteq> [] \<Longrightarrow> length (fa_queue a') < length (fa_queue a)"
proof -
  have w: "open_reqs (fa_done a) (fa_withdrawals a)" and
      rr: "open_reqs (fa_done a) (fa_reservations a @ fa_releases a)" and
      dis: "set (ids (fa_withdrawals a)) \<inter> set (ids (fa_reservations a @ fa_releases a)) = {}"
    using op by (auto simp: fa_queue_def open_reqs_append)
  show "push_ok env \<Longrightarrow> process_withdrawals_part env a \<noteq> None"
    using conjunct2 [OF processWithdrawals_open [OF w], of env "fa_state a"]
    by (auto simp: process_withdrawals_part_def Let_def)
  assume part: "process_withdrawals_part env a = Some a'"
  obtain res d sent where p: "processWithdrawals env (fa_state a) (fa_done a) (fa_withdrawals a) = Some (res, d, sent)"
    using part by (auto simp: process_withdrawals_part_def split: option.splits)
  have e: "ext (fa_done a) d (fa_withdrawals a)"
      and first: "fa_withdrawals a \<noteq> [] \<longrightarrow> gm_get d (rq_id (hd (fa_withdrawals a))) \<noteq> None"
    using processWithdrawals_open [OF w] p by blast+
  define a1 where "a1 = a\<lparr>fa_done := d, fa_sent := fa_sent a @ sent\<rparr>"
  define a2 where "a2 = (case res of Inl _ \<Rightarrow> a1
     | Inr c \<Rightarrow> if c \<noteq> cidUndef then applyStateChange env a1 (Some c) None else a1)"
  have a': "a' = a2\<lparr>fa_withdrawals := filterOutProcessedReqs d (fa_withdrawals a2)\<rparr>"
    using part unfolding process_withdrawals_part_def p a2_def a1_def Let_def by simp
  have same: "fa_reservations a2 = fa_reservations a" "fa_releases a2 = fa_releases a"
      "fa_withdrawals a2 = fa_withdrawals a" "fa_done a2 = d" "fa_waits a2 = fa_waits a"
      "fa_pending a2 = fa_pending a" "fa_listener a2 = fa_listener a" "0 \<le> fs_AmtReserved (fa_state a2)"
    using am by (auto simp: a2_def a1_def split: sum.split)
  have "filterOutProcessedReqs d (fa_reservations a @ fa_releases a) = fa_reservations a @ fa_releases a"
    by (rule filterOut_open [OF open_after_ext [OF e rr dis]])
  then have q: "fa_queue a' = filterOutProcessedReqs d (fa_queue a)"
    using same by (simp add: a' fa_queue_def)
  have "ext (fa_done a) d (fa_queue a)"
    by (rule ext_mono [OF e]) (auto simp: fa_queue_def)
  with q same show "fa_advance a a'"
    by (simp add: fa_advance_def a')
  assume "fa_withdrawals a \<noteq> []"
  then have "rq_id (hd (fa_withdrawals a)) \<in> set (ids (fa_queue a))" by (simp add: fa_queue_def)
  with first \<open>fa_withdrawals a \<noteq> []\<close> filterOut_less q show "length (fa_queue a') < length (fa_queue a)"
    by metis
qed

lemma fa_advance_pending:
  assumes "open_reqs (fa_done a) (fa_queue a)" and "fa_advance a b"
  shows "fa_queue b \<noteq> [] \<Longrightarrow> fa_queue a \<noteq> []"
    and "i \<in> set (ids (fa_queue a)) \<Longrightarrow> i \<in> set (ids (fa_queue b)) \<or> gm_get (fa_done b) i \<noteq> None"
  using assms by (auto simp: fa_advance_def filterOutProcessedReqs_def Completed_def)

text \<open>What one run of \<open>process\<close> does to a well-formed address with no message in flight.\<close>

definition fa_ran :: "('a, 'b) fundedAddress \<Rightarrow> ('a, 'b) fundedAddress \<Rightarrow> bool" where
  "fa_ran a b \<longleftrightarrow> (if fa_queue a = [] then b = a
     else fa_wf b \<and> length (fa_queue b) < length (fa_queue a) \<and> fa_pending b = Suc (fa_pending a)
       \<and> ext (fa_done a) (fa_done b) (fa_queue a)
       \<and> fa_queue b = filterOutProcessedReqs (fa_done b) (fa_queue a))"

lemma process_ran:
  assumes wf: "fa_wf a" and idle: "fs_MsgCid (fa_state a) = None"
  shows "push_ok env \<Longrightarrow> process env a \<noteq> None" and "process env a = Some b \<Longrightarrow> fa_ran a b"
proof -
  let ?haveR = "fa_reservations a \<noteq> [] \<or> fa_releases a \<noteq> []"
  let ?haveW = "fa_withdrawals a \<noteq> []"
  have op: "open_reqs (fa_done a) (fa_queue a)" and am: "0 \<le> fs_AmtReserved (fa_state a)"
      and waits: "fa_waits a = []" and lis: "fa_listener a = None" "a\<lparr>fa_listener := None\<rparr> = a"
    using wf idle by (auto simp: fa_wf_def)
  have q: "fa_queue a = [] \<longleftrightarrow> \<not> ?haveR \<and> \<not> ?haveW" by (auto simp: fa_queue_def)
  obtain a1 where a1: "(if ?haveR then process_reservations_part env a else Some a) = Some a1"
      and adv1: "fa_advance a a1" and less1: "?haveR \<Longrightarrow> length (fa_queue a1) < length (fa_queue a)"
      and keep: "\<not> ?haveR \<Longrightarrow> a1 = a"
    using process_reservations_part_advance [OF op am, of env] fa_advance_refl [OF op am] by (metis (full_types))
  have op1: "open_reqs (fa_done a1) (fa_queue a1)" and am1: "0 \<le> fs_AmtReserved (fa_state a1)"
    using fa_advance_open [OF op adv1] adv1 by (auto simp: fa_advance_def)
  let ?runW = "?haveW \<and> fs_MsgCid (fa_state a1) = None \<and> fa_reservations a1 = []"
  let ?second = "if ?runW then process_withdrawals_part env a1 else Some a1"
  have eq: "process env a = (if fa_queue a = [] then Some a else
      case ?second of None \<Rightarrow> None
      | Some a2 \<Rightarrow> (let a3 = (case fs_MsgCid (fa_state a2) of None \<Rightarrow> a2 | Some c \<Rightarrow> startWaitForResults a2 c)
                    in Some (a3\<lparr>fa_pending := fa_pending a3 + 1\<rparr>)))"
  proof -
    have "process env a = (if fs_MsgCid (fa_state a) \<noteq> None then Some a
        else if \<not> ?haveR \<and> \<not> ?haveW then Some a
        else case (if ?haveR then process_reservations_part env a else Some a) of
          None \<Rightarrow> None
        | Some a1 \<Rightarrow> (case (if ?haveW \<and> fs_MsgCid (fa_state a1) = None \<and> fa_reservations a1 = []
                   then process_withdrawals_part env a1 else Some a1) of None \<Rightarrow> None
             | Some a2 \<Rightarrow> (let a3 = (case fs_MsgCid (fa_state a2) of None \<Rightarrow> a2 | Some c \<Rightarrow> startWaitForResults a2 c)
                    in Some (a3\<lparr>fa_pending := fa_pending a3 + 1\<rparr>))))"
      unfolding process_def Let_def lis(2) using lis(1) by simp
    then show ?thesis unfolding a1 q using idle by simp
  qed
  show "process env a \<noteq> None" if "push_ok env"
    using process_withdrawals_part_advance(1) [OF op1 am1 that] eq by (auto simp: Let_def split: option.split)
  assume run: "process env a = Some b"
  show "fa_ran a b"
  proof (cases "fa_queue a = []")
    case True
    with run eq show ?thesis by (simp add: fa_ran_def)
  next
    case False
    with run eq obtain a2 where a2: "?second = Some a2"
        and b: "b = (let a3 = (case fs_MsgCid (fa_state a2) of None \<Rightarrow> a2 | Some c \<Rightarrow> startWaitForResults a2 c)
                    in a3\<lparr>fa_pending := fa_pending a3 + 1\<rparr>)"
      by (auto simp: Let_def split: option.splits)
    have adv2: "fa_advance a1 a2"
      using a2 process_withdrawals_part_advance(2) [OF op1 am1] fa_advance_refl [OF op1 am1]
      by (metis option.inject)
    have adv: "fa_advance a a2" by (rule fa_advance_trans [OF adv1 adv2])
    have less: "length (fa_queue a2) < length (fa_queue a)"
    proof (cases ?haveR)
      case True
      have "length (fa_queue a2) \<le> length (fa_queue a1)"
        using adv2 by (simp add: fa_advance_def filterOutProcessedReqs_def)
      with less1 [OF True] show ?thesis by linarith
    next
      case noR: False
      with keep idle q False have "a1 = a" "?runW" by auto
      with a2 process_withdrawals_part_advance(3) [OF op1 am1] show ?thesis by simp
    qed
    have "fa_wf b" "fa_queue b = fa_queue a2" "fa_done b = fa_done a2" "fa_pending b = Suc (fa_pending a)"
      using fa_advance_open [OF op adv] adv waits lis(1) b
      by (auto simp: fa_wf_def fa_advance_def fa_queue_def startWaitForResults_def Let_def split: option.splits)
    with False adv less show ?thesis
      by (simp add: fa_ran_def fa_advance_def)
  qed
qed

lemma process_busy:
  assumes "fa_wf a" and "fs_MsgCid (fa_state a) = Some c"
  shows "process env a = Some a"
  using assms by (simp add: process_def fa_wf_def Let_def)

section \<open>Steps\<close>

definition fresh_id :: "nat \<Rightarrow> ('a, 'b) fundedAddress \<Rightarrow> bool" where
  "fresh_id i a \<longleftrightarrow> i \<notin> set (ids (fa_queue a)) \<and> gm_get (fa_done a) i = None"

text \<open>The context of a queued request is cancelled.\<close>

definition cancel_req :: "nat \<Rightarrow> 'a fundRequest \<Rightarrow> 'a fundRequest" where
  "cancel_req i r = (if rq_id r = i then r\<lparr>rq_cancelled := True\<rparr> else r)"

definition cancel :: "nat \<Rightarrow> ('a, 'b) fundedAddress \<Rightarrow> ('a, 'b) fundedAddress" where
  "cancel i a = a\<lparr>fa_reservations := map (cancel_req i) (fa_reservations a),
     fa_releases := map (cancel_req i) (fa_releases a), fa_withdrawals := map (cancel_req i) (fa_withdrawals a)\<rparr>"

text \<open>
  The steps of an address: a client queues or cancels a request, a scheduled \<open>process\<close> runs,
  or a wait ends. Balances and the answers of the message pool are those of the moment, so every
  step may see another \<open>env\<close>.
\<close>

inductive fa_step :: "('a, 'b) fundedAddress \<Rightarrow> ('a, 'b) fundedAddress \<Rightarrow> bool" where
  Step_reserve: "fresh_id i a \<Longrightarrow> fa_step a (reserve i wallet amt a)"
| Step_release: "fresh_id i a \<Longrightarrow> fa_step a (release undef i amt a)"
| Step_withdraw: "fresh_id i a \<Longrightarrow> fa_step a (withdraw i wallet amt a)"
| Step_cancel: "fa_step a (cancel i a)"
| Step_process: "fa_pending a = Suc n \<Longrightarrow> process env (a\<lparr>fa_pending := n\<rparr>) = Some b \<Longrightarrow> fa_step a b"
| Step_waitDone: "c \<in> set (fa_waits a) \<Longrightarrow> fa_step a (waitDone env c a)"

inductive fa_reachable :: "('a, 'b) fundedAddress \<Rightarrow> bool" where
  Reach_new: "fa_reachable (newFundedAddress addr)"
| Reach_restart: "0 \<le> fs_AmtReserved st \<Longrightarrow>
     fa_reachable (start ((newFundedAddress (fs_Addr st))\<lparr>fa_state := st, fa_saved := Some st\<rparr>))"
| Reach_step: "fa_reachable a \<Longrightarrow> fa_step a b \<Longrightarrow> fa_reachable b"

lemma cancel_queue: "fa_queue (cancel i a) = map (cancel_req i) (fa_queue a)"
  by (simp add: fa_queue_def cancel_def)

lemma cancel_fields [simp]:
  "fa_done (cancel i a) = fa_done a" "fa_state (cancel i a) = fa_state a" "fa_waits (cancel i a) = fa_waits a"
  "fa_pending (cancel i a) = fa_pending a" "fa_listener (cancel i a) = fa_listener a"
  by (simp_all add: cancel_def)

lemma ids_cancel [simp]: "ids (map (cancel_req i) xs) = ids xs"
  by (simp add: cancel_req_def)

lemma open_cancel [simp]: "open_reqs d (map (cancel_req i) xs) = open_reqs d xs"
  unfolding open_reqs_def ids_cancel ..

lemma open_reqs_insert:
  assumes "open_reqs d (xs @ ys)" and "i \<notin> set (ids (xs @ ys))" and "gm_get d i = None"
  shows "open_reqs d (xs @ newFundRequest i w amt # ys)"
  using assms by (auto simp: open_reqs_append open_reqs_Cons newFundRequest_def)

lemma waitDone_fields [simp]:
  "fa_queue (waitDone env c a) = fa_queue a" "fa_done (waitDone env c a) = fa_done a"
  "fa_waits (waitDone env c a) = remove1 c (fa_waits a)" "fa_pending (waitDone env c a) = Suc (fa_pending a)"
  "fa_listener (waitDone env c a) = fa_listener a"
  "fs_MsgCid (fa_state (waitDone env c a)) = None"
  "fs_AmtReserved (fa_state (waitDone env c a)) = fs_AmtReserved (fa_state a)"
  by (simp_all add: waitDone_def clearWaitState_def saveState_def fa_queue_def Let_def)

lemma fa_step_inv:
  assumes "fa_step a b" and inv: "fa_inv a"
  shows "fa_inv b"
  using assms(1)
proof cases
  case (Step_reserve i wallet amt)
  with inv open_reqs_insert [of "fa_done a" "fa_reservations a" "fa_releases a @ fa_withdrawals a" i] show ?thesis
    by (auto simp: fa_inv_def fa_wf_def fa_queue_def fresh_id_def reserve_def)
next
  case (Step_release i undef amt)
  with inv open_reqs_insert [of "fa_done a" "fa_reservations a @ fa_releases a" "fa_withdrawals a" i] show ?thesis
    by (auto simp: fa_inv_def fa_wf_def fa_queue_def fresh_id_def release_def)
next
  case (Step_withdraw i wallet amt)
  with inv open_reqs_insert [of "fa_done a" "fa_queue a" "[]" i] show ?thesis
    by (auto simp: fa_inv_def fa_wf_def fa_queue_def fresh_id_def withdraw_def)
next
  case (Step_cancel i)
  with inv show ?thesis
    by (auto simp: fa_inv_def fa_wf_def cancel_queue)
next
  case (Step_process n env)
  let ?a = "a\<lparr>fa_pending := n\<rparr>"
  have wf: "fa_wf ?a" and fields: "fa_queue ?a = fa_queue a" "fa_waits ?a = fa_waits a"
    using inv by (auto simp: fa_inv_def fa_wf_def fa_queue_def)
  show ?thesis
  proof (cases "fs_MsgCid (fa_state ?a)")
    case None
    with process_ran(2) [OF wf None Step_process(2)] wf fields show ?thesis
      by (auto simp: fa_ran_def fa_inv_def split: if_splits)
  next
    case (Some c)
    then have "b = ?a" using process_busy [OF wf Some] Step_process(2) by simp
    with wf Some show ?thesis by (simp add: fa_inv_def fa_wf_def)
  qed
next
  case (Step_waitDone c env)
  with inv show ?thesis
    by (auto simp: fa_inv_def fa_wf_def split: option.splits)
qed

text \<open>
  Property C8. In every state an address can reach, also after a restart from the datastore, the
  queued requests are distinct and unanswered, the reserved amount is not negative, at most one
  message is waited for and it is the one recorded in the state, and no queued request is
  forgotten: processing is scheduled or a wait is in flight.
\<close>

theorem reachable_inv: "fa_reachable a \<Longrightarrow> fa_inv a"
proof (induction rule: fa_reachable.induct)
  case (Reach_new addr)
  then show ?case by (simp add: fa_inv_def fa_wf_def fa_queue_def newFundedAddress_def)
next
  case (Reach_restart st)
  then show ?case
    by (auto simp: fa_inv_def fa_wf_def fa_queue_def newFundedAddress_def start_def startWaitForResults_def
        split: option.split)
next
  case (Reach_step a b)
  then show ?case using fa_step_inv by blast
qed

text \<open>Witness of C8: a reservation on a new address.\<close>

theorem reachable_inv_witness:
  "fa_inv (reserve 1 7 10 (newFundedAddress (9::nat)) :: (nat, nat) fundedAddress)"
proof (rule reachable_inv)
  have "fresh_id 1 (newFundedAddress 9 :: (nat, nat) fundedAddress)"
    by (simp add: fresh_id_def fa_queue_def newFundedAddress_def)
  then show "fa_reachable (reserve 1 7 10 (newFundedAddress 9) :: (nat, nat) fundedAddress)"
    by (rule Reach_step [OF Reach_new Step_reserve])
qed

section \<open>Every request is answered\<close>

text \<open>
  A schedule: a wait that is in flight ends, otherwise a scheduled \<open>process\<close> runs, for
  at most the given number of steps.
\<close>

fun drain :: "('a, 'b) fund_env \<Rightarrow> nat \<Rightarrow> ('a, 'b) fundedAddress \<Rightarrow> ('a, 'b) fundedAddress option" where
  "drain env 0 a = Some a"
| "drain env (Suc fuel) a =
     (case fa_waits a of
        c # _ \<Rightarrow> drain env fuel (waitDone env c a)
      | [] \<Rightarrow>
          if fa_pending a = 0 then Some a
          else case process env (a\<lparr>fa_pending := fa_pending a - 1\<rparr>) of
            None \<Rightarrow> None
          | Some b \<Rightarrow> drain env fuel b)"

definition fa_work :: "('a, 'b) fundedAddress \<Rightarrow> nat" where
  "fa_work a = 3 * length (fa_queue a) + 2 * length (fa_waits a) + fa_pending a"

definition fa_later :: "('a, 'b) fundedAddress \<Rightarrow> ('a, 'b) fundedAddress \<Rightarrow> bool" where
  "fa_later a b \<longleftrightarrow> fa_inv b
     \<and> (\<forall>i r. gm_get (fa_done a) i = Some r \<longrightarrow> gm_get (fa_done b) i = Some r)
     \<and> (\<forall>i \<in> set (ids (fa_queue a)). i \<in> set (ids (fa_queue b)) \<or> gm_get (fa_done b) i \<noteq> None)"

lemma fa_later_trans: "fa_later a b \<Longrightarrow> fa_later b c \<Longrightarrow> fa_later a c"
  unfolding fa_later_def by (metis option.exhaust)

lemma process_later:
  assumes inv: "fa_inv a" and ok: "push_ok env" and waits: "fa_waits a = []" and pend: "fa_pending a = Suc n"
  shows "\<exists>b. process env (a\<lparr>fa_pending := n\<rparr>) = Some b \<and> fa_later a b \<and> fa_work b < fa_work a"
proof -
  let ?a = "a\<lparr>fa_pending := n\<rparr>"
  have wf: "fa_wf ?a" and idle: "fs_MsgCid (fa_state ?a) = None" and q: "fa_queue ?a = fa_queue a"
    using inv waits by (auto simp: fa_inv_def fa_wf_def fa_queue_def split: option.splits)
  obtain b where b: "process env ?a = Some b"
    using process_ran(1) [OF wf idle ok] by blast
  then have ran: "fa_ran ?a b" by (rule process_ran(2) [OF wf idle])
  have inv': "fa_inv b"
    using fa_step_inv [OF Step_process [OF pend b] inv] .
  show ?thesis
  proof (cases "fa_queue a = []")
    case True
    with ran q inv' b pend show ?thesis
      by (auto simp: fa_ran_def fa_later_def fa_work_def)
  next
    case False
    then have B: "fa_wf b" "length (fa_queue b) < length (fa_queue a)" "fa_pending b = Suc n"
        "ext (fa_done a) (fa_done b) (fa_queue a)" "fa_queue b = filterOutProcessedReqs (fa_done b) (fa_queue a)"
      using ran q unfolding fa_ran_def by auto
    have "length (fa_waits b) \<le> 1"
      using B(1) by (simp add: fa_wf_def split: option.splits)
    then have "fa_work b < fa_work a"
      using B(2,3) pend by (simp add: fa_work_def)
    moreover have "fa_later a b"
      using inv' B(4,5) unfolding fa_later_def
      by (auto simp: ext_def filterOutProcessedReqs_def Completed_def)
    ultimately show ?thesis using b by blast
  qed
qed

text \<open>
  Property C2. Every request is answered: when the message pool accepts withdrawal messages,
  letting waits end and scheduled processing run, for at most \<open>fa_work\<close> steps, leaves all
  queues empty and every request that was queued with a result. Results already given are not
  changed.
\<close>

theorem every_request_answered:
  assumes "fa_inv a" and "push_ok env" and "fa_work a \<le> fuel"
  shows "\<exists>b. drain env fuel a = Some b \<and> fa_queue b = [] \<and> fa_inv b
    \<and> (\<forall>i \<in> set (ids (fa_queue a)). gm_get (fa_done b) i \<noteq> None)
    \<and> (\<forall>i r. gm_get (fa_done a) i = Some r \<longrightarrow> gm_get (fa_done b) i = Some r)"
proof -
  have "\<exists>b. drain env fuel a = Some b \<and> fa_queue b = [] \<and> fa_later a b"
    using assms
  proof (induction fuel arbitrary: a)
    case 0
    then show ?case by (auto simp: fa_work_def fa_later_def)
  next
    case (Suc fuel)
    show ?case
    proof (cases "fa_waits a")
      case (Cons c cs)
      let ?b = "waitDone env c a"
      have "fa_inv ?b" using fa_step_inv [OF Step_waitDone [of c a env]] Suc.prems(1) Cons by simp
      moreover have "fa_work ?b \<le> fuel"
        using Suc.prems(3) Cons by (simp add: fa_work_def)
      ultimately obtain b where "drain env fuel ?b = Some b" "fa_queue b = []" "fa_later ?b b"
        using Suc.IH Suc.prems(2) by blast
      with Cons show ?thesis by (auto simp: fa_later_def)
    next
      case Nil
      show ?thesis
      proof (cases "fa_pending a")
        case 0
        with Nil Suc.prems(1) show ?thesis by (auto simp: fa_inv_def fa_later_def)
      next
        case (Suc n)
        obtain b where b: "process env (a\<lparr>fa_pending := n\<rparr>) = Some b" "fa_later a b" "fa_work b < fa_work a"
          using process_later [OF Suc.prems(1,2) Nil Suc] by blast
        then obtain c where "drain env fuel b = Some c" "fa_queue c = []" "fa_later b c"
          using Suc.IH [of b] Suc.prems(2,3) unfolding fa_later_def by auto
        with Nil Suc b fa_later_trans show ?thesis by auto
      qed
    qed
  qed
  then show ?thesis unfolding fa_later_def by auto
qed

text \<open>Witness of C2: one reservation on a new address; its message is sent and lands.\<close>

theorem every_request_answered_witness:
  "\<exists>b. drain (demo_fund_env 5 1) 4 (reserve 1 7 10 (newFundedAddress 9)) = Some b \<and> fa_queue b = []
    \<and> gm_get (fa_done b) 1 \<noteq> None"
proof -
  let ?a = "reserve 1 7 10 (newFundedAddress 9) :: (nat, nat) fundedAddress"
  have "fa_inv ?a" "fa_work ?a \<le> 4" "1 \<in> set (ids (fa_queue ?a))"
    by (simp_all add: fa_inv_def fa_wf_def fa_queue_def fa_work_def newFundedAddress_def reserve_def
        newFundRequest_def open_reqs_def)
  moreover have "push_ok (demo_fund_env 5 1)"
    by (simp add: push_ok_def WithdrawFunds_def demo_fund_env_def)
  ultimately show ?thesis using every_request_answered by blast
qed

end
