(* ===== verification/Tipset.thy ===== *)
theory Tipset
  imports Lotus_Prelude
begin

text \<open>
  Block headers, tipsets and tipset keys: chain/types/blockheader.go, chain/types/tipset.go and
  chain/types/tipset_key.go. Serialisation of headers, hashing and the binary form of a cid are
  the record \<open>ts_env\<close>; \<^verbatim>\<open>sort.Slice\<close> is an argument that
  satisfies \<open>go_sort\<close>.
\<close>

section \<open>Bytes and sorting\<close>

text \<open>\<^verbatim>\<open>bytes.Compare(a, b) < 0\<close>.\<close>

fun bytesLess :: "nat list \<Rightarrow> nat list \<Rightarrow> bool" where
  "bytesLess [] ys \<longleftrightarrow> ys \<noteq> []"
| "bytesLess (x # xs) [] \<longleftrightarrow> False"
| "bytesLess (x # xs) (y # ys) \<longleftrightarrow> x < y \<or> x = y \<and> bytesLess xs ys"

lemma bytesLess_irrefl [simp]: "\<not> bytesLess xs xs"
  by (induction xs) auto

lemma bytesLess_trans: "bytesLess xs ys \<Longrightarrow> bytesLess ys zs \<Longrightarrow> bytesLess xs zs"
proof (induction xs ys arbitrary: zs rule: bytesLess.induct)
  case (1 ys)
  then show ?case by (cases ys; cases zs) auto
next
  case (3 x xs y ys)
  then show ?case by (cases zs) auto
qed simp

lemma bytesLess_total: "xs \<noteq> ys \<Longrightarrow> bytesLess xs ys \<or> bytesLess ys xs"
proof (induction xs ys rule: bytesLess.induct)
  case (1 ys)
  then show ?case by auto
next
  case (2 x xs)
  then show ?case by simp
next
  case (3 x xs y ys)
  then show ?case by (cases x y rule: linorder_cases) auto
qed

text \<open>
  \<^verbatim>\<open>sort.Slice\<close> permutes the slice, and sorts it when the comparison is a strict
  weak order on its elements.
\<close>

definition weak_order_on :: "'b set \<Rightarrow> ('b \<Rightarrow> 'b \<Rightarrow> bool) \<Rightarrow> bool" where
  "weak_order_on A lt \<longleftrightarrow> (\<forall>x \<in> A. \<not> lt x x)
     \<and> (\<forall>x \<in> A. \<forall>y \<in> A. \<forall>z \<in> A. lt x y \<longrightarrow> lt y z \<longrightarrow> lt x z)
     \<and> (\<forall>x \<in> A. \<forall>y \<in> A. \<forall>z \<in> A. \<not> lt x y \<longrightarrow> \<not> lt y z \<longrightarrow> \<not> lt x z)"

definition go_sort :: "(('b \<Rightarrow> 'b \<Rightarrow> bool) \<Rightarrow> 'b list \<Rightarrow> 'b list) \<Rightarrow> bool" where
  "go_sort srt \<longleftrightarrow> (\<forall>lt xs. mset (srt lt xs) = mset xs
     \<and> (weak_order_on (set xs) lt \<longrightarrow> sorted_wrt (\<lambda>x y. \<not> lt y x) (srt lt xs)))"

text \<open>A sort that satisfies the contract: insertion after the elements that are not greater.\<close>

fun insert_sorted :: "('b \<Rightarrow> 'b \<Rightarrow> bool) \<Rightarrow> 'b \<Rightarrow> 'b list \<Rightarrow> 'b list" where
  "insert_sorted lt x [] = [x]"
| "insert_sorted lt x (y # ys) = (if lt x y then x # y # ys else y # insert_sorted lt x ys)"

definition insertion_sort :: "('b \<Rightarrow> 'b \<Rightarrow> bool) \<Rightarrow> 'b list \<Rightarrow> 'b list" where
  "insertion_sort lt xs = foldl (\<lambda>acc x. insert_sorted lt x acc) [] xs"

lemma mset_insert_sorted [simp]: "mset (insert_sorted lt x ys) = add_mset x (mset ys)"
  by (induction ys) auto

lemma set_insert_sorted [simp]: "set (insert_sorted lt x ys) = insert x (set ys)"
  by (induction ys) auto

lemma sorted_insert_sorted:
  assumes "weak_order_on A lt" and "x \<in> A" and "set ys \<subseteq> A" and "sorted_wrt (\<lambda>x y. \<not> lt y x) ys"
  shows "sorted_wrt (\<lambda>x y. \<not> lt y x) (insert_sorted lt x ys)"
  using assms(3,4)
proof (induction ys)
  case (Cons y ys)
  have "lt x y \<Longrightarrow> \<not> lt z x" if "z \<in> set (y # ys)" for z
    using assms(1,2) Cons.prems that unfolding weak_order_on_def
    by (metis insert_iff list.simps(15) sorted_wrt.simps(2) subsetD)
  with Cons show ?case by auto
qed simp

lemma go_sort_insertion_sort: "go_sort insertion_sort"
proof -
  have *: "mset (foldl (\<lambda>acc x. insert_sorted lt x acc) acc xs) = mset acc + mset xs
      \<and> (weak_order_on (set acc \<union> set xs) lt \<longrightarrow> sorted_wrt (\<lambda>x y. \<not> lt y x) acc
          \<longrightarrow> sorted_wrt (\<lambda>x y. \<not> lt y x) (foldl (\<lambda>acc x. insert_sorted lt x acc) acc xs))" for lt xs and acc :: "'a list"
  proof (induction xs arbitrary: acc)
    case (Cons x xs)
    have "set (insert_sorted lt x acc) \<union> set xs = set acc \<union> set (x # xs)" by simp
    with Cons.IH [of "insert_sorted lt x acc"] sorted_insert_sorted [of "set acc \<union> set (x # xs)" lt x acc]
    show ?case by auto
  qed simp
  show ?thesis
    unfolding go_sort_def insertion_sort_def using * [where acc = "[]"] by simp
qed

lemma go_sort_mset: "go_sort srt \<Longrightarrow> mset (srt lt xs) = mset xs"
  by (simp add: go_sort_def)

lemma go_sort_set: "go_sort srt \<Longrightarrow> set (srt lt xs) = set xs"
  by (metis go_sort_mset mset_eq_setD)

text \<open>A total order leaves only one sorted arrangement.\<close>

lemma sorted_unique:
  assumes "\<And>x y. x \<in> set xs \<Longrightarrow> y \<in> set xs \<Longrightarrow> x \<noteq> y \<Longrightarrow> lt x y \<or> lt y x"
    and "mset xs = mset ys" and "sorted_wrt (\<lambda>x y. \<not> lt y x) xs" and "sorted_wrt (\<lambda>x y. \<not> lt y x) ys"
  shows "xs = ys"
  using assms
proof (induction xs arbitrary: ys)
  case (Cons x xs)
  from Cons.prems(2) obtain y ys' where ys: "ys = y # ys'" by (cases ys) auto
  have s: "set (x # xs) = set ys" using Cons.prems(2) by (rule mset_eq_setD)
  have "x = y"
  proof (rule ccontr)
    assume ne: "x \<noteq> y"
    with s ys have "y \<in> set xs" "x \<in> set ys'" by auto
    with Cons.prems(3,4) ys have "\<not> lt y x" "\<not> lt x y" by auto
    with Cons.prems(1) [of x y] ne \<open>y \<in> set xs\<close> show False by auto
  qed
  with Cons ys show ?case by auto
qed simp

section \<open>Headers and tipsets\<close>

text \<open>
  The fields of \<^verbatim>\<open>BlockHeader\<close> the modelled code reads. A ticket is the
  byte string of its VRF proof; a header without a ticket, which the comparison of tickets
  dereferences, is left out.
\<close>

record 'a blockHeader =
  bh_Miner :: 'a
  bh_Ticket :: "nat list"
  bh_Parents :: "cid list"
  bh_ParentWeight :: int
  bh_Height :: int
  bh_ParentStateRoot :: cid
  bh_ParentMessageReceipts :: cid
  bh_Timestamp :: nat
  bh_ParentBaseFee :: tokenAmount

record 'a ts_env =
  te_Cid :: "'a blockHeader \<Rightarrow> cid"
  te_Bytes :: "cid \<Rightarrow> nat list"
  te_CidFromBytes :: "nat list \<Rightarrow> (nat \<times> cid) option"
  te_Sum256 :: "nat list \<Rightarrow> nat list"

text \<open>
  \<^verbatim>\<open>TipSet\<close>: only \<open>NewTipSet\<close> makes one, from at least one block, so the
  blocks are the first one and the rest.
\<close>

record 'a tipSet =
  ts_cids :: "cid list"
  ts_blk0 :: "'a blockHeader"
  ts_blks1 :: "'a blockHeader list"
  ts_height :: int

datatype ts_error = TsEmpty | TsHeights | TsNumParents | TsParents | TsBadKey

definition Ticket_Less :: "'a ts_env \<Rightarrow> nat list \<Rightarrow> nat list \<Rightarrow> bool" where
  "Ticket_Less env t u \<longleftrightarrow> bytesLess (te_Sum256 env t) (te_Sum256 env u)"

definition tipsetSortFunc :: "'a ts_env \<Rightarrow> 'a blockHeader \<Rightarrow> 'a blockHeader \<Rightarrow> bool" where
  "tipsetSortFunc env bi bj \<longleftrightarrow>
     (if bh_Ticket bi = bh_Ticket bj then bytesLess (te_Bytes env (te_Cid env bi)) (te_Bytes env (te_Cid env bj))
      else Ticket_Less env (bh_Ticket bi) (bh_Ticket bj))"

text \<open>The checks of \<open>NewTipSet\<close> on the blocks after the first; \<open>cids\<close> is the list so far.\<close>

fun check_blocks :: "'a ts_env \<Rightarrow> 'a blockHeader \<Rightarrow> cid list \<Rightarrow> 'a blockHeader list \<Rightarrow> ts_error + cid list" where
  "check_blocks env b0 cids [] = Inr cids"
| "check_blocks env b0 cids (b # bs) =
     (if bh_Height b \<noteq> bh_Height b0 then Inl TsHeights
      else if length (bh_Parents b0) \<noteq> length (bh_Parents b) then Inl TsNumParents
      else if bh_Parents b \<noteq> bh_Parents b0 then Inl TsParents
      else check_blocks env b0 (cids @ [te_Cid env b]) bs)"

definition NewTipSet ::
  "'a ts_env \<Rightarrow> (('a blockHeader \<Rightarrow> 'a blockHeader \<Rightarrow> bool) \<Rightarrow> 'a blockHeader list \<Rightarrow> 'a blockHeader list)
     \<Rightarrow> 'a blockHeader list \<Rightarrow> ts_error + 'a tipSet" where
  "NewTipSet env srt blks =
     (if blks = [] then Inl TsEmpty else
      case srt (tipsetSortFunc env) blks of
        [] \<Rightarrow> Inl TsEmpty
      | b0 # bs \<Rightarrow>
          (case check_blocks env b0 [te_Cid env b0] bs of
             Inl err \<Rightarrow> Inl err
           | Inr cids \<Rightarrow> Inr \<lparr>ts_cids = cids, ts_blk0 = b0, ts_blks1 = bs, ts_height = bh_Height b0\<rparr>))"

definition Blocks :: "'a tipSet \<Rightarrow> 'a blockHeader list" where
  "Blocks ts = ts_blk0 ts # ts_blks1 ts"

definition encodeKey :: "'a ts_env \<Rightarrow> cid list \<Rightarrow> nat list" where
  "encodeKey env cids = concat (map (te_Bytes env) cids)"

text \<open>
  The loop of \<open>decodeKey\<close> on the bytes from \<^verbatim>\<open>nextIdx\<close> on. It ends with the
  bytes if every step consumes some; \<open>None\<close> is running out of fuel.
\<close>

fun decode_loop :: "'a ts_env \<Rightarrow> nat \<Rightarrow> nat list \<Rightarrow> cid list \<Rightarrow> (ts_error + cid list) option" where
  "decode_loop env fuel [] cids = Some (Inr cids)"
| "decode_loop env 0 (x # xs) cids = None"
| "decode_loop env (Suc fuel) (x # xs) cids =
     (case te_CidFromBytes env (x # xs) of
        None \<Rightarrow> Some (Inl TsBadKey)
      | Some (nr, c) \<Rightarrow> decode_loop env fuel (drop nr (x # xs)) (cids @ [c]))"

definition decodeKey :: "'a ts_env \<Rightarrow> nat \<Rightarrow> nat list \<Rightarrow> (ts_error + cid list) option" where
  "decodeKey env fuel encoded = decode_loop env fuel encoded []"

definition TipSetKeyFromBytes :: "'a ts_env \<Rightarrow> nat \<Rightarrow> nat list \<Rightarrow> (ts_error + nat list) option" where
  "TipSetKeyFromBytes env fuel encoded =
     (case decodeKey env fuel encoded of
        None \<Rightarrow> None
      | Some (Inl err) \<Rightarrow> Some (Inl err)
      | Some (Inr _) \<Rightarrow> Some (Inr encoded))"

definition Key :: "'a ts_env \<Rightarrow> 'a tipSet \<Rightarrow> nat list" where
  "Key env ts = encodeKey env (ts_cids ts)"

definition Parents :: "'a ts_env \<Rightarrow> 'a tipSet \<Rightarrow> nat list" where
  "Parents env ts = encodeKey env (bh_Parents (ts_blk0 ts))"

definition ParentWeight :: "'a tipSet \<Rightarrow> int" where
  "ParentWeight ts = bh_ParentWeight (ts_blk0 ts)"

definition Equals :: "'a tipSet \<Rightarrow> 'a tipSet \<Rightarrow> bool" where
  "Equals ts ots \<longleftrightarrow> ts_height ts = ts_height ots \<and> ts_cids ts = ts_cids ots"

definition MinTimestamp :: "'a tipSet \<Rightarrow> nat" where
  "MinTimestamp ts =
     foldl (\<lambda>minTs bh. if bh_Timestamp bh < minTs then bh_Timestamp bh else minTs)
       (bh_Timestamp (ts_blk0 ts)) (ts_blks1 ts)"

definition MinTicketBlock :: "'a ts_env \<Rightarrow> 'a tipSet \<Rightarrow> 'a blockHeader" where
  "MinTicketBlock env ts =
     foldl (\<lambda>m b. if Ticket_Less env (bh_Ticket b) (bh_Ticket m) then b else m) (ts_blk0 ts) (ts_blks1 ts)"

definition Contains :: "'a tipSet \<Rightarrow> cid \<Rightarrow> bool" where
  "Contains ts oc \<longleftrightarrow> list_ex (\<lambda>c. c = oc) (ts_cids ts)"

text \<open>The set of the first list's elements is the Go map of \<open>CidArrsEqual\<close>.\<close>

definition CidArrsEqual :: "cid list \<Rightarrow> cid list \<Rightarrow> bool" where
  "CidArrsEqual a b \<longleftrightarrow> length a = length b \<and> list_all (\<lambda>c. c \<in> set a) b"

definition CidArrsSubset :: "cid list \<Rightarrow> cid list \<Rightarrow> bool" where
  "CidArrsSubset a b \<longleftrightarrow> list_all (\<lambda>c. c \<in> set b) a"

definition CidArrsContains :: "cid list \<Rightarrow> cid \<Rightarrow> bool" where
  "CidArrsContains a b \<longleftrightarrow> list_ex (\<lambda>elem. elem = b) a"

text \<open>
  \<open>IsChildOf\<close>: \<^verbatim>\<open>Parents().Cids()\<close> decodes the key again and panics
  (\<open>None\<close>) on a key that does not decode.
\<close>

definition IsChildOf :: "'a ts_env \<Rightarrow> 'a tipSet \<Rightarrow> 'a tipSet \<Rightarrow> bool option" where
  "IsChildOf env ts parent =
     (case decodeKey env (length (Parents env ts)) (Parents env ts) of
        Some (Inr cids) \<Rightarrow> Some (CidArrsEqual cids (ts_cids parent) \<and> ts_height ts > ts_height parent)
      | _ \<Rightarrow> None)"

section \<open>Keys\<close>

text \<open>
  What the cid library documents: parsing the binary form of a cid, whatever follows it, returns
  that cid and the length of its form, which is not empty.
\<close>

definition cid_codec :: "'a ts_env \<Rightarrow> bool" where
  "cid_codec env \<longleftrightarrow> (\<forall>c rest. te_Bytes env c \<noteq> []
     \<and> te_CidFromBytes env (te_Bytes env c @ rest) = Some (length (te_Bytes env c), c))"

lemma decode_loop_encode:
  assumes "cid_codec env" and "length cids \<le> fuel"
  shows "decode_loop env fuel (encodeKey env cids) acc = Some (Inr (acc @ cids))"
  using assms(2)
proof (induction cids arbitrary: fuel acc)
  case Nil
  then show ?case by (cases fuel) (simp_all add: encodeKey_def)
next
  case (Cons c cids)
  obtain x xs where b: "te_Bytes env c = x # xs"
    using assms(1) by (metis cid_codec_def neq_Nil_conv)
  obtain n where n: "fuel = Suc n" using Cons.prems by (cases fuel) auto
  have "te_CidFromBytes env (x # xs @ encodeKey env cids) = Some (Suc (length xs), c)"
    using assms(1) b by (metis append_Cons cid_codec_def length_Cons)
  then show ?case
    using Cons.IH [of n "acc @ [c]"] Cons.prems n b by (simp add: encodeKey_def)
qed

lemma length_encodeKey:
  assumes "cid_codec env"
  shows "length cids \<le> length (encodeKey env cids)"
proof (induction cids)
  case (Cons c cids)
  have "1 \<le> length (te_Bytes env c)"
    using assms by (simp add: cid_codec_def Suc_le_eq)
  with Cons show ?case by (simp add: encodeKey_def)
qed simp

lemma encodeKey_inj: "cid_codec env \<Longrightarrow> encodeKey env a = encodeKey env b \<longleftrightarrow> a = b"
  by (metis append_Nil decode_loop_encode max.cobounded1 max.cobounded2 option.inject sum.inject(2))

text \<open>
  Tipset keys round-trip: decoding the key of a list of cids ends, within as many
  steps as the key has bytes, and returns the list; so two lists with the same key are equal and
  every key built from cids passes the validation of \<open>TipSetKeyFromBytes\<close>.
\<close>

theorem decodeKey_encodeKey:
  assumes "cid_codec env"
  shows "decodeKey env (length (encodeKey env cids)) (encodeKey env cids) = Some (Inr cids)
    \<and> TipSetKeyFromBytes env (length (encodeKey env cids)) (encodeKey env cids) = Some (Inr (encodeKey env cids))
    \<and> (encodeKey env cids' = encodeKey env cids \<longrightarrow> cids' = cids)"
  using decode_loop_encode [OF assms length_encodeKey [OF assms], of cids "[]"] encodeKey_inj [OF assms]
  by (simp add: decodeKey_def TipSetKeyFromBytes_def)

text \<open>An instance: a miner makes one block, a cid is one byte, the digest is the proof.\<close>

definition demo_ts_env :: "nat ts_env" where
  "demo_ts_env = \<lparr>te_Cid = (\<lambda>b. 100 + bh_Miner b), te_Bytes = (\<lambda>c. [c]),
     te_CidFromBytes = (\<lambda>bs. case bs of [] \<Rightarrow> None | x # _ \<Rightarrow> Some (1, x)), te_Sum256 = (\<lambda>t. t)\<rparr>"

definition demo_block :: "nat \<Rightarrow> nat \<Rightarrow> cid list \<Rightarrow> int \<Rightarrow> int \<Rightarrow> nat blockHeader" where
  "demo_block miner ticket parents weight height =
     \<lparr>bh_Miner = miner, bh_Ticket = [ticket], bh_Parents = parents, bh_ParentWeight = weight, bh_Height = height,
      bh_ParentStateRoot = 0, bh_ParentMessageReceipts = 0, bh_Timestamp = 0, bh_ParentBaseFee = 0\<rparr>"

lemma demo_cid_codec: "cid_codec demo_ts_env"
  by (simp add: cid_codec_def demo_ts_env_def)

text \<open>An instance: a key of two cids.\<close>

theorem decodeKey_encodeKey_witness:
  "decodeKey demo_ts_env (length (encodeKey demo_ts_env [4, 2])) (encodeKey demo_ts_env [4, 2]) = Some (Inr [4, 2])"
  using decodeKey_encodeKey [OF demo_cid_codec] by blast

section \<open>Building tipsets\<close>

lemma check_blocks_Inr:
  "check_blocks env b0 cids bs = Inr cids' \<longleftrightarrow>
     cids' = cids @ map (te_Cid env) bs \<and> (\<forall>b \<in> set bs. bh_Height b = bh_Height b0 \<and> bh_Parents b = bh_Parents b0)"
  by (induction bs arbitrary: cids) auto

lemma check_blocks_Inl:
  "check_blocks env b0 cids bs = Inl err \<Longrightarrow> \<exists>b \<in> set bs. bh_Height b \<noteq> bh_Height b0 \<or> bh_Parents b \<noteq> bh_Parents b0"
  by (induction bs arbitrary: cids) (auto split: if_splits)

lemma NewTipSet_sorted:
  assumes "go_sort srt" and "blks \<noteq> []"
  obtains b0 bs where "srt (tipsetSortFunc env) blks = b0 # bs" and "mset (b0 # bs) = mset blks"
  using assms by (metis go_sort_mset list.exhaust mset_zero_iff)

lemma NewTipSet_Inr:
  assumes "go_sort srt" and "NewTipSet env srt blks = Inr ts"
  shows "Blocks ts = srt (tipsetSortFunc env) blks" and "ts_cids ts = map (te_Cid env) (Blocks ts)"
    and "\<forall>b \<in> set (Blocks ts). bh_Height b = ts_height ts \<and> bh_Parents b = bh_Parents (ts_blk0 ts)"
  using assms(2)
  by (auto simp: NewTipSet_def Blocks_def check_blocks_Inr split: if_splits list.splits sum.splits)

text \<open>
  Property C29. \<open>NewTipSet\<close> accepts exactly the non-empty lists of blocks that agree on
  height and parents. The tipset holds the same blocks and, in the same order, their cids.
\<close>

theorem NewTipSet_accepts:
  assumes "go_sort srt"
  shows "case NewTipSet env srt blks of
      Inr ts \<Rightarrow> mset (Blocks ts) = mset blks \<and> ts_cids ts = map (te_Cid env) (Blocks ts)
        \<and> (\<forall>b \<in> set blks. bh_Height b = ts_height ts \<and> bh_Parents b = bh_Parents (ts_blk0 ts))
    | Inl err \<Rightarrow> blks = [] \<or> (\<exists>b \<in> set blks. \<exists>c \<in> set blks. bh_Height b \<noteq> bh_Height c \<or> bh_Parents b \<noteq> bh_Parents c)"
proof (cases "NewTipSet env srt blks")
  case (Inr ts)
  note ts = NewTipSet_Inr [OF assms Inr]
  have "set (Blocks ts) = set blks"
    using go_sort_set [OF assms] ts(1) by metis
  with ts Inr show ?thesis
    by (simp add: go_sort_mset [OF assms])
next
  case (Inl err)
  show ?thesis
  proof (cases "blks = []")
    case False
    then obtain b0 bs where s: "srt (tipsetSortFunc env) blks = b0 # bs" "mset (b0 # bs) = mset blks"
      using NewTipSet_sorted [OF assms] by blast
    with Inl False obtain err' where "check_blocks env b0 [te_Cid env b0] bs = Inl err'"
      by (auto simp: NewTipSet_def split: sum.splits)
    from check_blocks_Inl [OF this] obtain b where "b \<in> set bs" "bh_Height b \<noteq> bh_Height b0 \<or> bh_Parents b \<noteq> bh_Parents b0"
      by blast
    moreover have "set (b0 # bs) = set blks" using s(2) by (rule mset_eq_setD)
    ultimately show ?thesis using Inl by force
  qed (use Inl in simp)
qed

text \<open>
  Tickets have distinct digests and blocks distinct cids: no collisions of the hash function
  among the given blocks.
\<close>

definition no_collisions :: "'a ts_env \<Rightarrow> 'a blockHeader set \<Rightarrow> bool" where
  "no_collisions env A \<longleftrightarrow> inj (te_Bytes env) \<and> inj_on (te_Cid env) A
     \<and> inj_on (te_Sum256 env) (bh_Ticket ` A)"

lemma cid_codec_inj: "cid_codec env \<Longrightarrow> inj (te_Bytes env)"
  by (metis cid_codec_def injI option.inject prod.inject)

lemma tipsetSortFunc_total:
  assumes "no_collisions env A" and "b \<in> A" and "c \<in> A" and "b \<noteq> c"
  shows "tipsetSortFunc env b c \<or> tipsetSortFunc env c b"
proof (cases "bh_Ticket b = bh_Ticket c")
  case True
  have "te_Bytes env (te_Cid env b) \<noteq> te_Bytes env (te_Cid env c)"
    using assms unfolding no_collisions_def by (metis injD inj_onD)
  with True bytesLess_total show ?thesis by (auto simp: tipsetSortFunc_def)
next
  case False
  then have "te_Sum256 env (bh_Ticket b) \<noteq> te_Sum256 env (bh_Ticket c)"
    using assms unfolding no_collisions_def by (metis imageI inj_onD)
  with False bytesLess_total show ?thesis by (auto simp: tipsetSortFunc_def Ticket_Less_def)
qed

lemma tipsetSortFunc_lex:
  assumes "no_collisions env A" and "b \<in> A" and "c \<in> A"
  shows "tipsetSortFunc env b c \<longleftrightarrow> Ticket_Less env (bh_Ticket b) (bh_Ticket c)
    \<or> te_Sum256 env (bh_Ticket b) = te_Sum256 env (bh_Ticket c)
      \<and> bytesLess (te_Bytes env (te_Cid env b)) (te_Bytes env (te_Cid env c))"
proof (cases "bh_Ticket b = bh_Ticket c")
  case True
  then show ?thesis by (simp add: tipsetSortFunc_def Ticket_Less_def)
next
  case False
  then have "te_Sum256 env (bh_Ticket b) \<noteq> te_Sum256 env (bh_Ticket c)"
    using assms unfolding no_collisions_def by (metis imageI inj_onD)
  with False show ?thesis by (simp add: tipsetSortFunc_def)
qed

lemma tipsetSortFunc_trans:
  assumes "no_collisions env A" and "b \<in> A" and "c \<in> A" and "d \<in> A"
    and "tipsetSortFunc env b c" and "tipsetSortFunc env c d"
  shows "tipsetSortFunc env b d"
  using assms(5,6)
  unfolding tipsetSortFunc_lex [OF assms(1,2,3)] tipsetSortFunc_lex [OF assms(1,3,4)] tipsetSortFunc_lex [OF assms(1,2,4)]
    Ticket_Less_def
  by (auto intro: bytesLess_trans)

lemma tipsetSortFunc_weak_order:
  assumes "no_collisions env A"
  shows "weak_order_on A (tipsetSortFunc env)"
proof -
  have irr: "\<not> tipsetSortFunc env b b" for b by (simp add: tipsetSortFunc_def)
  show ?thesis
    unfolding weak_order_on_def
  proof (intro conjI ballI impI)
    show "tipsetSortFunc env x z" if "x \<in> A" "y \<in> A" "z \<in> A" "tipsetSortFunc env x y" "tipsetSortFunc env y z" for x y z
      using tipsetSortFunc_trans [OF assms that] .
    show "\<not> tipsetSortFunc env x z"
      if xyz: "x \<in> A" "y \<in> A" "z \<in> A" "\<not> tipsetSortFunc env x y" "\<not> tipsetSortFunc env y z" for x y z
    proof
      assume xz: "tipsetSortFunc env x z"
      then have "x \<noteq> z" using irr by blast
      show False
      proof (cases "x = y \<or> y = z")
        case False
        then have "tipsetSortFunc env z y" "tipsetSortFunc env y x"
          using tipsetSortFunc_total [OF assms] xyz by blast+
        then have "tipsetSortFunc env z x" using tipsetSortFunc_trans [OF assms] xyz by blast
        then have "tipsetSortFunc env z z" using tipsetSortFunc_trans [OF assms _ _ _ _ xz] xyz by blast
        then show False using irr by blast
      qed (use xyz xz in blast)
    qed
  qed (rule irr)
qed

lemma NewTipSet_order:
  assumes "go_sort srt" and "no_collisions env (set blks)"
  shows "sorted_wrt (\<lambda>x y. \<not> tipsetSortFunc env y x) (srt (tipsetSortFunc env) blks)"
  using assms tipsetSortFunc_weak_order unfolding go_sort_def by blast

text \<open>
  Property C17. A tipset does not depend on the order in which its blocks arrived, nor on how the
  sort breaks its work down: the same blocks give the same tipset or the same error, hence the
  same key.
\<close>

theorem NewTipSet_canonical:
  assumes "go_sort srt" and "go_sort srt'" and "no_collisions env (set blks)" and "mset blks' = mset blks"
  shows "NewTipSet env srt' blks' = NewTipSet env srt blks"
proof -
  have s: "set blks' = set blks" using assms(4) by (rule mset_eq_setD)
  have "srt (tipsetSortFunc env) blks = srt' (tipsetSortFunc env) blks'"
  proof (rule sorted_unique [where lt = "tipsetSortFunc env"])
    show "tipsetSortFunc env x y \<or> tipsetSortFunc env y x"
      if "x \<in> set (srt (tipsetSortFunc env) blks)" "y \<in> set (srt (tipsetSortFunc env) blks)" "x \<noteq> y" for x y
      using that tipsetSortFunc_total [OF assms(3)] go_sort_set [OF assms(1)] by metis
    show "mset (srt (tipsetSortFunc env) blks) = mset (srt' (tipsetSortFunc env) blks')"
      using assms(1,2,4) by (simp add: go_sort_mset)
    show "sorted_wrt (\<lambda>x y. \<not> tipsetSortFunc env y x) (srt (tipsetSortFunc env) blks)"
      using assms(1,3) by (rule NewTipSet_order)
    show "sorted_wrt (\<lambda>x y. \<not> tipsetSortFunc env y x) (srt' (tipsetSortFunc env) blks')"
      using assms(2,3) s by (intro NewTipSet_order) simp_all
  qed
  moreover have "blks' = [] \<longleftrightarrow> blks = []" using s by auto
  ultimately show ?thesis
    unfolding NewTipSet_def by simp
qed

text \<open>
  The first block of a tipset is the one with the smallest ticket, so
  \<open>MinTicketBlock\<close> returns it.
\<close>

theorem MinTicketBlock_first:
  assumes "go_sort srt" and "no_collisions env (set blks)" and "NewTipSet env srt blks = Inr ts"
  shows "MinTicketBlock env ts = ts_blk0 ts"
proof -
  have sorted: "sorted_wrt (\<lambda>x y. \<not> tipsetSortFunc env y x) (ts_blk0 ts # ts_blks1 ts)"
    using NewTipSet_order [OF assms(1,2)] NewTipSet_Inr(1) [OF assms(1,3)] by (simp add: Blocks_def)
  have "\<not> Ticket_Less env (bh_Ticket b) (bh_Ticket (ts_blk0 ts))" if "b \<in> set (ts_blks1 ts)" for b
  proof -
    have "\<not> tipsetSortFunc env b (ts_blk0 ts)" using sorted that by simp
    then show ?thesis
      by (cases "bh_Ticket b = bh_Ticket (ts_blk0 ts)") (simp_all add: tipsetSortFunc_def Ticket_Less_def)
  qed
  then have "foldl (\<lambda>m b. if Ticket_Less env (bh_Ticket b) (bh_Ticket m) then b else m) (ts_blk0 ts) bs = ts_blk0 ts"
    if "set bs \<subseteq> set (ts_blks1 ts)" for bs
    using that by (induction bs) auto
  then show ?thesis by (simp add: MinTicketBlock_def)
qed

text \<open>Two blocks of one height, the second with the smaller ticket.\<close>

definition demo_blocks :: "nat blockHeader list" where
  "demo_blocks = [demo_block 1 9 [3] 50 7, demo_block 2 4 [3] 50 7]"

definition demo_tipset :: "nat tipSet" where
  "demo_tipset = \<lparr>ts_cids = [102, 101], ts_blk0 = demo_block 2 4 [3] 50 7, ts_blks1 = [demo_block 1 9 [3] 50 7], ts_height = 7\<rparr>"

lemma demo_NewTipSet: "NewTipSet demo_ts_env insertion_sort demo_blocks = Inr demo_tipset"
  by (simp add: NewTipSet_def demo_blocks_def demo_tipset_def insertion_sort_def tipsetSortFunc_def Ticket_Less_def
      demo_block_def demo_ts_env_def)

lemma demo_no_collisions: "no_collisions demo_ts_env (set demo_blocks)"
  by (simp add: no_collisions_def demo_blocks_def demo_block_def demo_ts_env_def inj_def)

text \<open>Witness of C29: the two blocks make a tipset.\<close>

theorem NewTipSet_accepts_witness:
  "NewTipSet demo_ts_env insertion_sort demo_blocks = Inr demo_tipset \<and> mset (Blocks demo_tipset) = mset demo_blocks"
  using NewTipSet_accepts [OF go_sort_insertion_sort, where env = demo_ts_env and blks = demo_blocks]
  unfolding demo_NewTipSet by simp

text \<open>Witness of C17: the two blocks in the other order.\<close>

theorem NewTipSet_canonical_witness:
  "NewTipSet demo_ts_env insertion_sort (rev demo_blocks) = Inr demo_tipset"
  using NewTipSet_canonical [OF go_sort_insertion_sort go_sort_insertion_sort demo_no_collisions, of "rev demo_blocks"]
    demo_NewTipSet by simp

text \<open>An instance: the block with ticket 4 comes first.\<close>

theorem MinTicketBlock_first_witness: "MinTicketBlock demo_ts_env demo_tipset = demo_block 2 4 [3] 50 7"
  using MinTicketBlock_first [OF go_sort_insertion_sort demo_no_collisions demo_NewTipSet]
  by (simp add: demo_tipset_def)

section \<open>Comparing lists of cids\<close>

text \<open>
  On lists without repetitions \<open>CidArrsEqual\<close> compares the lists as sets, and
  for such parents \<open>IsChildOf\<close> answers whether the parents are the blocks of the other
  tipset, in any order, at a lower height; it does not panic.
\<close>

theorem IsChildOf_iff:
  assumes "cid_codec env" and "distinct (bh_Parents (ts_blk0 ts))" and "distinct (ts_cids parent)"
  shows "IsChildOf env ts parent =
    Some (mset (bh_Parents (ts_blk0 ts)) = mset (ts_cids parent) \<and> ts_height parent < ts_height ts)"
proof -
  let ?a = "bh_Parents (ts_blk0 ts)" and ?b = "ts_cids parent"
  have "decodeKey env (length (Parents env ts)) (Parents env ts) = Some (Inr ?a)"
    using decode_loop_encode [OF assms(1) length_encodeKey [OF assms(1)], of ?a "[]"]
    by (simp add: Parents_def decodeKey_def)
  moreover have "CidArrsEqual ?a ?b \<longleftrightarrow> mset ?a = mset ?b"
  proof
    assume "CidArrsEqual ?a ?b"
    then have "card (set ?b) = card (set ?a)" "set ?b \<subseteq> set ?a"
      using assms(2,3) by (auto simp: CidArrsEqual_def list_all_iff distinct_card)
    then have "set ?b = set ?a" by (simp add: card_subset_eq)
    with assms(2,3) show "mset ?a = mset ?b" by (simp add: set_eq_iff_mset_eq_distinct)
  next
    assume "mset ?a = mset ?b"
    then show "CidArrsEqual ?a ?b"
      by (auto simp: CidArrsEqual_def list_all_iff dest: mset_eq_length mset_eq_setD)
  qed
  ultimately show ?thesis by (simp add: IsChildOf_def)
qed

text \<open>An instance: a tipset whose parents are the demo tipset's blocks in the other order.\<close>

theorem IsChildOf_iff_witness:
  "IsChildOf demo_ts_env
     \<lparr>ts_cids = [103], ts_blk0 = demo_block 3 1 [101, 102] 60 8, ts_blks1 = [], ts_height = 8\<rparr> demo_tipset = Some True"
  using IsChildOf_iff [OF demo_cid_codec, of
      "\<lparr>ts_cids = [103], ts_blk0 = demo_block 3 1 [101, 102] 60 8, ts_blks1 = [], ts_height = 8\<rparr>" demo_tipset]
  by (simp add: demo_block_def demo_tipset_def)

end
