(* ===== verification/Sync_Manager.thy ===== *)
theory Sync_Manager
  imports Tipset
begin

text \<open>
  The sync manager (chain/sync_manager.go): candidate heads from peers, the buckets of related
  tipsets that wait, the workers that sync, and the buffer of recently synced tipsets. The
  scheduler's channels and goroutines are steps; the order in which the runtime visits the map
  of workers is the argument \<open>ord\<close>, which may differ from one loop to the next. A panic is
  \<open>None\<close>. Worker identifiers are unbounded.
\<close>

section \<open>Data model\<close>

type_synonym 'a syncTargetBucket = "'a tipSet list"
type_synonym 'a syncBucketSet = "'a syncTargetBucket list"

record 'a syncBuffer =
  sb_buf :: "'a tipSet option list"
  sb_next :: nat

record 'a workerState =
  ws_id :: nat
  ws_ts :: "'a tipSet"
  ws_dt :: nat

type_synonym 'a workers = "(nat, 'a workerState) gomap"
type_synonym 'a visit = "nat \<Rightarrow> 'a workers \<Rightarrow> 'a workers"

text \<open>\<open>sm_heads\<close> is \<open>None\<close> for the nil map; \<open>sm_ticker\<close> is whether the ticker still runs.\<close>

record ('p, 'a) syncManager =
  sm_nextWorker :: nat
  sm_pend :: "'a syncBucketSet"
  sm_deferred :: "'a syncBucketSet"
  sm_heads :: "('p, 'a tipSet) gomap option"
  sm_recent :: "'a syncBuffer"
  sm_initialSyncDone :: bool
  sm_state :: "'a workers"
  sm_history :: "'a workerState option list"
  sm_historyI :: nat
  sm_ticker :: bool

text \<open>
  What the code takes from outside: the tipset environment, \<^verbatim>\<open>sort.Slice\<close> on
  blocks and on tipsets, and the settings read from environment variables.
\<close>

record 'a sync_cfg =
  sc_env :: "'a ts_env"
  sc_sortBlocks :: "('a blockHeader \<Rightarrow> 'a blockHeader \<Rightarrow> bool) \<Rightarrow> 'a blockHeader list \<Rightarrow> 'a blockHeader list"
  sc_sortTipsets :: "('a tipSet \<Rightarrow> 'a tipSet \<Rightarrow> bool) \<Rightarrow> 'a tipSet list \<Rightarrow> 'a tipSet list"
  sc_BootstrapPeerThreshold :: int
  sc_coalesceTipsets :: bool

definition RecentSyncBufferSize :: nat where "RecentSyncBufferSize = 10"
definition MaxSyncWorkers :: nat where "MaxSyncWorkers = 5"
definition SyncWorkerHistory :: nat where "SyncWorkerHistory = 3"

text \<open>Durations are in nanoseconds.\<close>

definition InitialSyncTimeThreshold :: nat where
  "InitialSyncTimeThreshold = 15 * 60 * 1000000000"

section \<open>The buffer of synced tipsets\<close>

definition isHeavier :: "'a tipSet \<Rightarrow> 'a tipSet \<Rightarrow> bool" where
  "isHeavier a b \<longleftrightarrow> ParentWeight a > ParentWeight b"

definition newSyncBuffer :: "nat \<Rightarrow> 'a syncBuffer" where
  "newSyncBuffer n = \<lparr>sb_buf = replicate n None, sb_next = 0\<rparr>"

definition Push :: "'a tipSet \<Rightarrow> 'a syncBuffer \<Rightarrow> 'a syncBuffer" where
  "Push ts sb = \<lparr>sb_buf = (sb_buf sb)[sb_next sb := Some ts], sb_next = (sb_next sb + 1) mod length (sb_buf sb)\<rparr>"

definition Synced :: "'a syncBuffer \<Rightarrow> 'a tipSet \<Rightarrow> bool" where
  "Synced sb ts \<longleftrightarrow>
     list_ex (\<lambda>rts. case rts of None \<Rightarrow> False | Some r \<Rightarrow> Equals r ts \<or> isHeavier r ts) (sb_buf sb)"

section \<open>Buckets\<close>

text \<open>The blocks of two tipsets, one per miner, the first one seen.\<close>

fun one_per_miner :: "'a list \<Rightarrow> 'a blockHeader list \<Rightarrow> 'a blockHeader list" where
  "one_per_miner miners [] = []"
| "one_per_miner miners (b # bs) =
     (if bh_Miner b \<in> set miners then one_per_miner miners bs
      else b # one_per_miner (bh_Miner b # miners) bs)"

fun add_tip :: "'a sync_cfg \<Rightarrow> 'a tipSet \<Rightarrow> 'a syncTargetBucket \<Rightarrow> 'a syncTargetBucket" where
  "add_tip cfg ts [] = [ts]"
| "add_tip cfg ts (t # tips) =
     (if Equals t ts then t # tips
      else if sc_coalesceTipsets cfg \<and> ts_height t = ts_height ts
              \<and> CidArrsEqual (bh_Parents (ts_blk0 t)) (bh_Parents (ts_blk0 ts))
      then (case NewTipSet (sc_env cfg) (sc_sortBlocks cfg) (one_per_miner [] (Blocks t @ Blocks ts)) of
              Inl _ \<Rightarrow> t # add_tip cfg ts tips
            | Inr ts2 \<Rightarrow> ts2 # tips)
      else t # add_tip cfg ts tips)"

definition newSyncTargetBucket :: "'a sync_cfg \<Rightarrow> 'a tipSet list \<Rightarrow> 'a syncTargetBucket" where
  "newSyncTargetBucket cfg tipsets = foldl (\<lambda>stb ts. add_tip cfg ts stb) [] tipsets"

definition sameChainAs :: "'a ts_env \<Rightarrow> 'a syncTargetBucket \<Rightarrow> 'a tipSet \<Rightarrow> bool" where
  "sameChainAs env stb ts \<longleftrightarrow>
     list_ex (\<lambda>t. Equals ts t \<or> Key env ts = Parents env t \<or> Parents env ts = Key env t) stb"

fun heaviest_loop :: "'a tipSet option \<Rightarrow> 'a tipSet list \<Rightarrow> 'a tipSet option" where
  "heaviest_loop best [] = best"
| "heaviest_loop None (ts # tips) = heaviest_loop (Some ts) tips"
| "heaviest_loop (Some b) (ts # tips) =
     heaviest_loop (if ParentWeight ts > ParentWeight b then Some ts else Some b) tips"

definition heaviestTipSet :: "'a syncTargetBucket \<Rightarrow> 'a tipSet option" where
  "heaviestTipSet stb = heaviest_loop None stb"

definition RelatedToAny :: "'a ts_env \<Rightarrow> 'a syncBucketSet \<Rightarrow> 'a tipSet \<Rightarrow> bool" where
  "RelatedToAny env sbs ts \<longleftrightarrow> list_ex (\<lambda>b. sameChainAs env b ts) sbs"

fun Insert :: "'a sync_cfg \<Rightarrow> 'a tipSet \<Rightarrow> 'a syncBucketSet \<Rightarrow> 'a syncBucketSet" where
  "Insert cfg ts [] = [newSyncTargetBucket cfg [ts]]"
| "Insert cfg ts (b # bs) = (if sameChainAs (sc_env cfg) b ts then add_tip cfg ts b # bs else b # Insert cfg ts bs)"

text \<open>
  The loop of \<open>Pop\<close>: the position and the heaviest tipset of the best bucket so far.
  Comparing with the nil tipset of an empty bucket is a panic.
\<close>

fun pop_loop :: "nat \<Rightarrow> 'a syncBucketSet \<Rightarrow> (nat \<times> 'a tipSet option) option \<Rightarrow> (nat \<times> 'a tipSet option) option option" where
  "pop_loop i [] best = Some best"
| "pop_loop i (b # bs) None = pop_loop (Suc i) bs (Some (i, heaviestTipSet b))"
| "pop_loop i (b # bs) (Some (j, bestTs)) =
     (case (bestTs, heaviestTipSet b) of
        (Some x, Some hts) \<Rightarrow>
          pop_loop (Suc i) bs (if ParentWeight x < ParentWeight hts then Some (i, Some hts) else Some (j, bestTs))
      | _ \<Rightarrow> None)"

text \<open>Buckets are pointers, so \<open>removeBucket\<close> removes one position.\<close>

definition removeBucket :: "nat \<Rightarrow> 'a syncBucketSet \<Rightarrow> 'a syncBucketSet" where
  "removeBucket i sbs = take i sbs @ drop (Suc i) sbs"

definition Pop :: "'a syncBucketSet \<Rightarrow> ('a syncTargetBucket \<times> 'a syncBucketSet) option" where
  "Pop sbs =
     (case pop_loop 0 sbs None of
        Some (Some (i, _)) \<Rightarrow> Some (sbs ! i, removeBucket i sbs)
      | _ \<Rightarrow> None)"

text \<open>
  \<open>PopRelated\<close> joins the tips of the related buckets and removes those buckets; the loop
  runs over the slice as it was at the start.
\<close>

definition PopRelated :: "'a ts_env \<Rightarrow> 'a tipSet \<Rightarrow> 'a syncBucketSet \<Rightarrow> 'a syncTargetBucket option \<times> 'a syncBucketSet" where
  "PopRelated env ts sbs =
     (if list_ex (\<lambda>b. sameChainAs env b ts) sbs
      then (Some (concat (filter (\<lambda>b. sameChainAs env b ts) sbs)), filter (\<lambda>b. \<not> sameChainAs env b ts) sbs)
      else (None, sbs))"

fun heaviest_buckets :: "'a tipSet option \<Rightarrow> 'a syncBucketSet \<Rightarrow> 'a tipSet option option" where
  "heaviest_buckets best [] = Some best"
| "heaviest_buckets None (b # bs) = heaviest_buckets (heaviestTipSet b) bs"
| "heaviest_buckets (Some best) (b # bs) =
     (case heaviestTipSet b of
        None \<Rightarrow> None
      | Some bhts \<Rightarrow> heaviest_buckets (if ParentWeight bhts > ParentWeight best then Some bhts else Some best) bs)"

definition Heaviest :: "'a syncBucketSet \<Rightarrow> 'a tipSet option option" where
  "Heaviest sbs = heaviest_buckets None sbs"

definition Empty :: "'a syncBucketSet \<Rightarrow> bool" where
  "Empty sbs \<longleftrightarrow> length sbs = 0"

section \<open>Lemmas on buckets\<close>

lemma heaviest_loop_spec:
  assumes "heaviest_loop best tips = r"
  shows "(best = None \<and> tips = [] \<longrightarrow> r = None)
    \<and> (best \<noteq> None \<or> tips \<noteq> [] \<longrightarrow> (\<exists>t. r = Some t \<and> (Some t = best \<or> t \<in> set tips)
         \<and> (\<forall>b. best = Some b \<longrightarrow> ParentWeight b \<le> ParentWeight t) \<and> (\<forall>u \<in> set tips. ParentWeight u \<le> ParentWeight t)))"
  using assms
proof (induction best tips rule: heaviest_loop.induct)
  case (3 b ts tips)
  then show ?case by (cases "ParentWeight ts > ParentWeight b") force+
qed force+

lemma heaviestTipSet_None [simp]: "heaviestTipSet b = None \<longleftrightarrow> b = []"
  using heaviest_loop_spec [of None b, OF refl] by (auto simp: heaviestTipSet_def)

lemma heaviestTipSet_Some:
  assumes "heaviestTipSet b = Some t"
  shows "t \<in> set b" and "u \<in> set b \<Longrightarrow> ParentWeight u \<le> ParentWeight t"
proof -
  have "b \<noteq> []" using assms by (auto simp: heaviestTipSet_def)
  with assms heaviest_loop_spec [of None b, OF refl]
  show "t \<in> set b" "u \<in> set b \<Longrightarrow> ParentWeight u \<le> ParentWeight t"
    by (auto simp: heaviestTipSet_def)
qed

abbreviation buckets_ok :: "'a syncBucketSet \<Rightarrow> bool" where
  "buckets_ok sbs \<equiv> [] \<notin> set sbs"

lemma add_tip_not_empty [simp]: "add_tip cfg ts b \<noteq> []"
  by (cases b) (auto split: sum.split)

lemma newSyncTargetBucket_single [simp]: "newSyncTargetBucket cfg [ts] = [ts]"
  by (simp add: newSyncTargetBucket_def)

lemma Insert_ok [simp]: "buckets_ok sbs \<Longrightarrow> buckets_ok (Insert cfg ts sbs)"
proof (induction sbs)
  case (Cons b sbs)
  then show ?case using add_tip_not_empty [of cfg ts b, symmetric] by auto
qed simp

lemma Insert_not_empty [simp]: "Insert cfg ts sbs \<noteq> []"
  by (cases sbs) auto

text \<open>A position whose bucket is the heaviest, among buckets that are not empty.\<close>

definition best_bucket :: "'a syncBucketSet \<Rightarrow> nat \<Rightarrow> 'a tipSet \<Rightarrow> bool" where
  "best_bucket sbs i t \<longleftrightarrow> i < length sbs \<and> heaviestTipSet (sbs ! i) = Some t
     \<and> (\<forall>b \<in> set sbs. \<forall>u \<in> set b. ParentWeight u \<le> ParentWeight t)"

lemma pop_loop_spec:
  assumes "buckets_ok (pre @ sbs)" and "best_bucket pre j t"
  shows "\<exists>k u. pop_loop (length pre) sbs (Some (j, Some t)) = Some (Some (k, Some u)) \<and> best_bucket (pre @ sbs) k u"
  using assms
proof (induction sbs arbitrary: pre j t)
  case Nil
  then show ?case by simp
next
  case (Cons b sbs)
  obtain h where h: "heaviestTipSet b = Some h"
    using Cons.prems(1) by (cases "heaviestTipSet b") auto
  let ?j = "if ParentWeight t < ParentWeight h then length pre else j"
  let ?t = "if ParentWeight t < ParentWeight h then h else t"
  have "best_bucket (pre @ [b]) ?j ?t"
    using Cons.prems(2) h heaviestTipSet_Some(2) [OF h]
    by (fastforce simp: best_bucket_def nth_append)
  with Cons.IH [of "pre @ [b]" ?j ?t] Cons.prems(1) h show ?case
    by (auto split: if_splits)
qed

lemma Pop_spec:
  assumes "buckets_ok sbs" and "sbs \<noteq> []"
  obtains i t where "Pop sbs = Some (sbs ! i, removeBucket i sbs)" and "best_bucket sbs i t"
proof -
  obtain b bs where sbs: "sbs = b # bs" using assms(2) by (cases sbs) auto
  obtain h where h: "heaviestTipSet b = Some h"
    using assms(1) sbs by (cases "heaviestTipSet b") auto
  have "best_bucket [b] 0 h"
    using h heaviestTipSet_Some(2) [OF h] by (auto simp: best_bucket_def)
  then obtain k u where "pop_loop 1 bs (Some (0, Some h)) = Some (Some (k, Some u))" "best_bucket sbs k u"
    using pop_loop_spec [of "[b]" bs 0 h] assms(1) sbs by auto
  with h sbs show ?thesis by (intro that [of k u]) (simp_all add: Pop_def)
qed

lemma removeBucket_mset: "i < length sbs \<Longrightarrow> mset sbs = add_mset (sbs ! i) (mset (removeBucket i sbs))"
  unfolding removeBucket_def by (metis id_take_nth_drop mset.simps(2) mset_append union_mset_add_mset_right)

lemma removeBucket_set: "set (removeBucket i sbs) \<subseteq> set sbs"
  unfolding removeBucket_def by (metis Un_subset_iff set_append set_drop_subset set_take_subset)

lemma pop_loop_range:
  "pop_loop i sbs best = Some (Some (k, u)) \<Longrightarrow> (\<And>j x. best = Some (j, x) \<Longrightarrow> j < i) \<Longrightarrow> k < i + length sbs"
proof (induction sbs arbitrary: i best)
  case (Cons b sbs)
  show ?case
  proof (cases best)
    case None
    with Cons.IH [of "Suc i" "Some (i, heaviestTipSet b)"] Cons.prems show ?thesis by auto
  next
    case (Some p)
    obtain j x where p: "best = Some (j, x)" using Some by (cases p) auto
    obtain best' where "pop_loop (Suc i) sbs best' = Some (Some (k, u))" "best' = Some (i, heaviestTipSet b) \<or> best' = best"
      using Cons.prems(1) p by (auto split: option.splits if_splits)
    with Cons.IH [of "Suc i" best'] Cons.prems(2) show ?thesis by fastforce
  qed
qed auto

lemma Pop_length: "Pop sbs = Some (b, rest) \<Longrightarrow> length rest < length sbs"
  using pop_loop_range [of 0 sbs None] by (auto simp: Pop_def removeBucket_def split: option.splits)

lemma heaviest_buckets_spec:
  assumes "buckets_ok sbs"
  shows "\<exists>r. heaviest_buckets best sbs = Some r
    \<and> (r = None \<longleftrightarrow> best = None \<and> sbs = [])
    \<and> (\<forall>t. r = Some t \<longrightarrow> (best = Some t \<or> (\<exists>b \<in> set sbs. t \<in> set b))
         \<and> (\<forall>b. best = Some b \<longrightarrow> ParentWeight b \<le> ParentWeight t)
         \<and> (\<forall>b \<in> set sbs. \<forall>u \<in> set b. ParentWeight u \<le> ParentWeight t))"
  using assms
proof (induction best sbs rule: heaviest_buckets.induct)
  case (2 b bs)
  then obtain h where h: "heaviestTipSet b = Some h" by (cases "heaviestTipSet b") auto
  with 2 heaviestTipSet_Some [OF h] show ?case by (fastforce)
next
  case (3 best b bs)
  then obtain h where h: "heaviestTipSet b = Some h" by (cases "heaviestTipSet b") auto
  with 3 heaviestTipSet_Some [OF h] show ?case
    by (cases "ParentWeight h > ParentWeight best") (fastforce)+
qed auto

section \<open>The manager\<close>

definition NewSyncManager :: "('p, 'a) syncManager" where
  "NewSyncManager =
     \<lparr>sm_nextWorker = 0, sm_pend = [], sm_deferred = [], sm_heads = Some [],
      sm_recent = newSyncBuffer RecentSyncBufferSize, sm_initialSyncDone = False, sm_state = [],
      sm_history = replicate SyncWorkerHistory None, sm_historyI = 0, sm_ticker = True\<rparr>"

text \<open>\<open>State\<close>: the identifiers of the workers whose snapshots it returns.\<close>

definition State :: "('p, 'a) syncManager \<Rightarrow> nat list" where
  "State sm = sort (map ws_id (map snd (sm_state sm) @ map the (filter (\<lambda>ws. ws \<noteq> None) (sm_history sm))))"

definition spawnWorker :: "'a tipSet \<Rightarrow> ('p, 'a) syncManager \<Rightarrow> ('p, 'a) syncManager" where
  "spawnWorker target sm =
     (let i = sm_nextWorker sm
      in sm\<lparr>sm_nextWorker := i + 1,
            sm_state := gm_set i \<lparr>ws_id = i, ws_ts = target, ws_dt = 0\<rparr> (sm_state sm)\<rparr>)"

text \<open>\<open>worker\<close>: the sync of a target has ended after \<open>dt\<close>.\<close>

definition worker :: "nat \<Rightarrow> nat \<Rightarrow> ('p, 'a) syncManager \<Rightarrow> ('p, 'a) syncManager" where
  "worker i dt sm =
     (case gm_get (sm_state sm) i of
        None \<Rightarrow> sm
      | Some ws \<Rightarrow> sm\<lparr>sm_state := gm_set i (ws\<lparr>ws_dt := dt\<rparr>) (sm_state sm)\<rparr>)"

text \<open>
  \<open>selectInitialSyncTarget\<close>: \<open>headOrd\<close> is the order in which the map of heads is visited.
\<close>

definition selectInitialSyncTarget ::
  "'a sync_cfg \<Rightarrow> (('p, 'a tipSet) gomap \<Rightarrow> ('p, 'a tipSet) gomap) \<Rightarrow> ('p, 'a) syncManager
     \<Rightarrow> ('a tipSet option \<times> ('p, 'a) syncManager) option" where
  "selectInitialSyncTarget cfg headOrd sm =
     (let peerHeads = (case sm_heads sm of None \<Rightarrow> [] | Some hs \<Rightarrow> map snd (headOrd hs));
          sorted = sc_sortTipsets cfg (\<lambda>a b. ts_height a < ts_height b) peerHeads;
          buckets = foldl (\<lambda>bs ts. Insert cfg ts bs) [] sorted
      in case Heaviest buckets of
           None \<Rightarrow> None
         | Some target \<Rightarrow> Some (target, sm\<lparr>sm_heads := None\<rparr>))"

datatype relation = Unrelated | Syncing | Extends

text \<open>The first loop of \<open>addSyncTarget\<close>: what the first related worker decides.\<close>

fun related_worker :: "'a ts_env \<Rightarrow> 'a tipSet \<Rightarrow> 'a workers \<Rightarrow> relation" where
  "related_worker env ts [] = Unrelated"
| "related_worker env ts ((i, ws) # wss) =
     (if Equals ts (ws_ts ws) then Syncing
      else if Parents env ts = Key env (ws_ts ws) then Extends
      else related_worker env ts wss)"

definition addSyncTarget ::
  "'a sync_cfg \<Rightarrow> 'a visit \<Rightarrow> 'a tipSet \<Rightarrow> ('p, 'a) syncManager \<Rightarrow> ('a tipSet option \<times> ('p, 'a) syncManager) option" where
  "addSyncTarget cfg ord ts sm =
     (let insertPend = sm\<lparr>sm_pend := Insert cfg ts (sm_pend sm)\<rparr>
      in if Synced (sm_recent sm) ts then Some (None, sm)
         else if length (sm_state sm) = 0 then Some (Some ts, sm)
         else case related_worker (sc_env cfg) ts (ord 0 (sm_state sm)) of
           Syncing \<Rightarrow> Some (None, sm)
         | Extends \<Rightarrow> Some (None, insertPend)
         | Unrelated \<Rightarrow>
             (if RelatedToAny (sc_env cfg) (sm_pend sm) ts then Some (None, insertPend)
              else if list_ex (\<lambda>(i, ws). isHeavier (ws_ts ws) ts) (ord 1 (sm_state sm)) then Some (None, sm)
              else case Heaviest (sm_pend sm) of
                None \<Rightarrow> None
              | Some pendHeaviest \<Rightarrow>
                  (if (case pendHeaviest of None \<Rightarrow> False | Some t \<Rightarrow> isHeavier t ts) then Some (None, sm)
                   else if \<not> sm_initialSyncDone sm \<or> length (sm_state sm) \<ge> MaxSyncWorkers
                   then Some (None, sm\<lparr>sm_deferred := Insert cfg ts (sm_deferred sm)\<rparr>)
                   else Some (Some ts, sm))))"

text \<open>
  The loop over the workers in \<open>selectDeferredSyncTarget\<close>: its body returns or continues
  the outer loop for the first worker it visits; with no worker the outer loop goes on.
\<close>

datatype deferred_choice = NextBucket | ToPending | SyncIt

fun deferred_worker :: "'a ts_env \<Rightarrow> 'a tipSet \<Rightarrow> 'a workers \<Rightarrow> deferred_choice" where
  "deferred_worker env heaviest [] = NextBucket"
| "deferred_worker env heaviest ((i, ws) # wss) =
     (if Equals (ws_ts ws) heaviest \<or> isHeavier (ws_ts ws) heaviest then NextBucket
      else if Parents env heaviest = Key env (ws_ts ws) then ToPending
      else SyncIt)"

text \<open>A bucket that comes out of \<open>Pop\<close> has a tip; the nil tipset of an empty one is a panic.\<close>

function selectDeferredSyncTarget ::
  "'a sync_cfg \<Rightarrow> 'a visit \<Rightarrow> ('p, 'a) syncManager \<Rightarrow> ('a tipSet option \<times> ('p, 'a) syncManager) option" where
  "selectDeferredSyncTarget cfg ord sm =
     (if Empty (sm_deferred sm) then Some (None, sm)
      else case Pop (sm_deferred sm) of
        None \<Rightarrow> None
      | Some (bucket, rest) \<Rightarrow>
          (case heaviestTipSet bucket of
             None \<Rightarrow> None
           | Some heaviest \<Rightarrow>
               (if Synced (sm_recent sm) heaviest
                then selectDeferredSyncTarget cfg ord (sm\<lparr>sm_deferred := rest\<rparr>)
                else if RelatedToAny (sc_env cfg) (sm_pend sm) heaviest
                then selectDeferredSyncTarget cfg ord
                       (sm\<lparr>sm_deferred := rest, sm_pend := Insert cfg heaviest (sm_pend sm)\<rparr>)
                else case deferred_worker (sc_env cfg) heaviest (ord (length rest) (sm_state sm)) of
                  NextBucket \<Rightarrow> selectDeferredSyncTarget cfg ord (sm\<lparr>sm_deferred := rest\<rparr>)
                | ToPending \<Rightarrow> selectDeferredSyncTarget cfg ord
                       (sm\<lparr>sm_deferred := rest, sm_pend := Insert cfg heaviest (sm_pend sm)\<rparr>)
                | SyncIt \<Rightarrow> Some (Some heaviest, sm\<lparr>sm_deferred := rest\<rparr>))))"
  by pat_completeness auto
termination
  by (relation "measure (\<lambda>(cfg, ord, sm). length (sm_deferred sm))") (auto dest: Pop_length)

declare selectDeferredSyncTarget.simps [simp del]

definition selectSyncTarget ::
  "'a sync_cfg \<Rightarrow> 'a visit \<Rightarrow> 'a tipSet \<Rightarrow> ('p, 'a) syncManager \<Rightarrow> ('a tipSet option \<times> ('p, 'a) syncManager) option" where
  "selectSyncTarget cfg ord finished sm =
     (case PopRelated (sc_env cfg) finished (sm_pend sm) of
        (None, pend) \<Rightarrow> selectDeferredSyncTarget cfg ord (sm\<lparr>sm_pend := pend\<rparr>)
      | (Some related, pend) \<Rightarrow>
          (let sm1 = sm\<lparr>sm_pend := pend\<rparr>
           in case heaviestTipSet related of
                None \<Rightarrow> None
              | Some heaviest \<Rightarrow>
                  (if isHeavier finished heaviest then selectDeferredSyncTarget cfg ord sm1
                   else if list_ex (\<lambda>(i, ws). isHeavier (ws_ts ws) heaviest) (ord 0 (sm_state sm1))
                   then selectDeferredSyncTarget cfg ord sm1
                   else if Synced (sm_recent sm1) heaviest then selectDeferredSyncTarget cfg ord sm1
                   else Some (Some heaviest, sm1))))"

definition spawn_if :: "('a tipSet option \<times> ('p, 'a) syncManager) option \<Rightarrow> ('p, 'a) syncManager option" where
  "spawn_if r =
     (case r of
        None \<Rightarrow> None
      | Some (None, sm) \<Rightarrow> Some sm
      | Some (Some target, sm) \<Rightarrow> Some (spawnWorker target sm))"

text \<open>
  \<open>handlePeerHead\<close>. Writing to the nil map of heads is a panic, and so is spawning a worker
  on the nil tipset, which dereferences it.
\<close>

definition handlePeerHead ::
  "'a sync_cfg \<Rightarrow> (('p, 'a tipSet) gomap \<Rightarrow> ('p, 'a tipSet) gomap) \<Rightarrow> 'a visit \<Rightarrow> 'p \<Rightarrow> 'a tipSet
     \<Rightarrow> ('p, 'a) syncManager \<Rightarrow> ('p, 'a) syncManager option" where
  "handlePeerHead cfg headOrd ord p ts sm =
     (if sm_nextWorker sm = 0
      then case sm_heads sm of
        None \<Rightarrow> None
      | Some hs \<Rightarrow>
          (let sm1 = sm\<lparr>sm_heads := Some (gm_set p ts hs)\<rparr>
           in if int (length (gm_set p ts hs)) < sc_BootstrapPeerThreshold cfg then Some sm1
              else case selectInitialSyncTarget cfg headOrd sm1 of
                Some (Some target, sm2) \<Rightarrow> Some (spawnWorker target sm2)
              | _ \<Rightarrow> None)
      else spawn_if (addSyncTarget cfg ord ts sm))"

text \<open>\<open>handleWorkerStatus\<close>: \<open>failed\<close> is \<^verbatim>\<open>status.err != nil\<close>.\<close>

definition handleWorkerStatus ::
  "'a sync_cfg \<Rightarrow> 'a visit \<Rightarrow> nat \<Rightarrow> bool \<Rightarrow> ('p, 'a) syncManager \<Rightarrow> ('p, 'a) syncManager option" where
  "handleWorkerStatus cfg ord i failed sm =
     (case gm_get (sm_state sm) i of
        None \<Rightarrow> None
      | Some ws \<Rightarrow>
          (let sm1 = sm\<lparr>sm_state := gm_delete i (sm_state sm),
                        sm_history := (sm_history sm)[sm_historyI sm := Some ws],
                        sm_historyI := (sm_historyI sm + 1) mod length (sm_history sm)\<rparr>;
               sm2 = (if failed then sm1
                      else sm1\<lparr>sm_recent := Push (ws_ts ws) (sm_recent sm1),
                               sm_initialSyncDone := sm_initialSyncDone sm1 \<or> ws_dt ws < InitialSyncTimeThreshold\<rparr>)
           in spawn_if (selectSyncTarget cfg ord (ws_ts ws) sm2)))"

text \<open>\<open>only_queues sm sm'\<close>: the two managers differ at most in the waiting buckets.\<close>

definition only_queues :: "('p, 'a) syncManager \<Rightarrow> ('p, 'a) syncManager \<Rightarrow> bool" where
  "only_queues sm sm' \<longleftrightarrow> sm_nextWorker sm' = sm_nextWorker sm \<and> sm_heads sm' = sm_heads sm
     \<and> sm_recent sm' = sm_recent sm \<and> sm_initialSyncDone sm' = sm_initialSyncDone sm \<and> sm_state sm' = sm_state sm
     \<and> sm_history sm' = sm_history sm \<and> sm_historyI sm' = sm_historyI sm \<and> sm_ticker sm' = sm_ticker sm"

lemma only_queues_trans: "only_queues a b \<Longrightarrow> only_queues b c \<Longrightarrow> only_queues a c"
  by (simp add: only_queues_def)

text \<open>One turn of the loop of \<open>selectDeferredSyncTarget\<close>: go on in one of two ways, or return.\<close>

lemma selectDeferred_turn:
  assumes "\<not> Empty (sm_deferred sm)" and "Pop (sm_deferred sm) = Some (bucket, rest)"
    and "heaviestTipSet bucket = Some heaviest"
  obtains (skip) "selectDeferredSyncTarget cfg ord sm = selectDeferredSyncTarget cfg ord (sm\<lparr>sm_deferred := rest\<rparr>)"
  | (pend) "selectDeferredSyncTarget cfg ord sm =
        selectDeferredSyncTarget cfg ord (sm\<lparr>sm_deferred := rest, sm_pend := Insert cfg heaviest (sm_pend sm)\<rparr>)"
  | (work) "selectDeferredSyncTarget cfg ord sm = Some (Some heaviest, sm\<lparr>sm_deferred := rest\<rparr>)"
      "deferred_worker (sc_env cfg) heaviest (ord (length rest) (sm_state sm)) = SyncIt"
proof -
  have eq: "selectDeferredSyncTarget cfg ord sm =
     (if Synced (sm_recent sm) heaviest then selectDeferredSyncTarget cfg ord (sm\<lparr>sm_deferred := rest\<rparr>)
      else if RelatedToAny (sc_env cfg) (sm_pend sm) heaviest
      then selectDeferredSyncTarget cfg ord (sm\<lparr>sm_deferred := rest, sm_pend := Insert cfg heaviest (sm_pend sm)\<rparr>)
      else case deferred_worker (sc_env cfg) heaviest (ord (length rest) (sm_state sm)) of
        NextBucket \<Rightarrow> selectDeferredSyncTarget cfg ord (sm\<lparr>sm_deferred := rest\<rparr>)
      | ToPending \<Rightarrow> selectDeferredSyncTarget cfg ord (sm\<lparr>sm_deferred := rest, sm_pend := Insert cfg heaviest (sm_pend sm)\<rparr>)
      | SyncIt \<Rightarrow> Some (Some heaviest, sm\<lparr>sm_deferred := rest\<rparr>))"
    using assms by (subst selectDeferredSyncTarget.simps) simp
  show ?thesis
  proof (cases "Synced (sm_recent sm) heaviest \<or> RelatedToAny (sc_env cfg) (sm_pend sm) heaviest")
    case True
    with eq skip pend show ?thesis by (auto split: if_splits)
  next
    case False
    with eq skip pend work show ?thesis
      by (cases "deferred_worker (sc_env cfg) heaviest (ord (length rest) (sm_state sm))") auto
  qed
qed

lemma selectDeferred_shrinks:
  assumes "selectDeferredSyncTarget cfg ord sm = Some (target, sm')"
  shows "only_queues sm sm' \<and> length (sm_deferred sm') \<le> length (sm_deferred sm)
    \<and> (target \<noteq> None \<longrightarrow> length (sm_deferred sm') < length (sm_deferred sm))"
  using assms
proof (induction "length (sm_deferred sm)" arbitrary: sm rule: less_induct)
  case less
  show ?case
  proof (cases "Empty (sm_deferred sm)")
    case True
    with less.prems show ?thesis by (simp add: selectDeferredSyncTarget.simps only_queues_def)
  next
    case False
    with less.prems obtain bucket rest heaviest where P: "Pop (sm_deferred sm) = Some (bucket, rest)"
        "heaviestTipSet bucket = Some heaviest"
      by (auto simp: selectDeferredSyncTarget.simps [of cfg ord sm] split: option.splits)
    note len = Pop_length [OF P(1)]
    from False P show ?thesis
    proof (cases rule: selectDeferred_turn [where cfg = cfg and ord = ord])
      case skip
      with less.hyps [of "sm\<lparr>sm_deferred := rest\<rparr>"] less.prems len show ?thesis by (simp add: only_queues_def)
    next
      case pend
      with less.hyps [of "sm\<lparr>sm_deferred := rest, sm_pend := Insert cfg heaviest (sm_pend sm)\<rparr>"] less.prems len
      show ?thesis by (simp add: only_queues_def)
    next
      case work
      with less.prems len show ?thesis by (auto simp: only_queues_def)
    qed
  qed
qed

function handleInitialSyncDone ::
  "'a sync_cfg \<Rightarrow> 'a visit \<Rightarrow> ('p, 'a) syncManager \<Rightarrow> ('p, 'a) syncManager option" where
  "handleInitialSyncDone cfg ord sm =
     (if length (sm_state sm) < MaxSyncWorkers
      then case selectDeferredSyncTarget cfg ord sm of
        None \<Rightarrow> None
      | Some (None, sm') \<Rightarrow> Some sm'
      | Some (Some target, sm') \<Rightarrow> handleInitialSyncDone cfg ord (spawnWorker target sm')
      else Some sm)"
  by pat_completeness auto
termination
  by (relation "measure (\<lambda>(cfg, ord, sm). length (sm_deferred sm))")
     (auto simp: spawnWorker_def Let_def dest!: selectDeferred_shrinks)

declare handleInitialSyncDone.simps [simp del]

text \<open>The case of \<open>scheduler\<close> for the ticker.\<close>

definition scheduler_tick :: "'a sync_cfg \<Rightarrow> 'a visit \<Rightarrow> ('p, 'a) syncManager \<Rightarrow> ('p, 'a) syncManager option" where
  "scheduler_tick cfg ord sm =
     (if sm_ticker sm \<and> sm_initialSyncDone sm
      then handleInitialSyncDone cfg ord (sm\<lparr>sm_ticker := False\<rparr>)
      else Some sm)"

end
