(* ===== verification/Sync_Steps.thy ===== *)
theory Sync_Steps
  imports Sync_Manager
begin

text \<open>
  The sync manager over time: the scheduler's events, the invariant they keep, that no event
  panics, and which targets are selected. The model is in \<open>Sync_Manager\<close>.
\<close>

section \<open>The recent buffer\<close>

text \<open>
  The specification of the buffer is the list of everything pushed: the buffer of size \<open>n\<close>
  holds the last \<open>n\<close> of them.
\<close>

definition last_n :: "nat \<Rightarrow> 'b list \<Rightarrow> 'b list" where
  "last_n n xs = drop (length xs - n) xs"

definition buffer_abs :: "nat \<Rightarrow> 'a tipSet list \<Rightarrow> 'a syncBuffer \<Rightarrow> bool" where
  "buffer_abs n pushed sb \<longleftrightarrow> length (sb_buf sb) = n \<and> sb_next sb = length pushed mod n
     \<and> (\<forall>k < length pushed. length pushed - n \<le> k \<longrightarrow> sb_buf sb ! (k mod n) = Some (pushed ! k))
     \<and> (\<forall>k < n. length pushed \<le> k \<longrightarrow> sb_buf sb ! k = None)"

lemma buffer_abs_new: "buffer_abs n [] (newSyncBuffer n)"
  by (simp add: buffer_abs_def newSyncBuffer_def)

lemma mod_window_inj:
  assumes "0 < n" and "k mod n = (m::nat) mod n" and "m - n < k \<or> m < n" and "k < m"
  shows False
proof -
  have "n dvd m - k" using assms(2,4) by (metis less_imp_le_nat mod_eq_dvd_iff_nat)
  then have "n \<le> m - k" using assms(4) by (simp add: dvd_imp_le)
  with assms show False by linarith
qed

lemma buffer_abs_Push:
  assumes "0 < n" and "buffer_abs n pushed sb"
  shows "buffer_abs n (pushed @ [ts]) (Push ts sb)"
proof -
  let ?m = "length pushed"
  have len: "length (sb_buf sb) = n" and nx: "sb_next sb = ?m mod n"
    using assms(2) by (simp_all add: buffer_abs_def)
  have "sb_buf (Push ts sb) ! (k mod n) = Some ((pushed @ [ts]) ! k)"
    if k: "k < Suc ?m" "Suc ?m - n \<le> k" for k
  proof (cases "k = ?m")
    case True
    with assms(1) len nx show ?thesis by (simp add: Push_def)
  next
    case False
    with k have "k < ?m" by simp
    moreover have "?m - n < k \<or> ?m < n" using k assms(1) by linarith
    then have "k mod n \<noteq> ?m mod n"
      using mod_window_inj [OF assms(1), of k ?m] \<open>k < ?m\<close> by blast
    ultimately show ?thesis
      using assms(2) k nx by (simp add: Push_def buffer_abs_def nth_append)
  qed
  moreover have "sb_buf (Push ts sb) ! k = None" if "k < n" "Suc ?m \<le> k" for k
    using assms(2) nx that by (simp add: Push_def buffer_abs_def)
  ultimately show ?thesis
    using len nx by (simp add: buffer_abs_def Push_def mod_Suc_eq)
qed

lemma buffer_abs_Synced:
  assumes "0 < n" and "buffer_abs n pushed sb"
  shows "Synced sb ts \<longleftrightarrow> (\<exists>r \<in> set (last_n n pushed). Equals r ts \<or> isHeavier r ts)"
proof -
  let ?m = "length pushed"
  have at: "Some r \<in> set (sb_buf sb) \<longleftrightarrow> r \<in> set (last_n n pushed)" for r
  proof
    assume "Some r \<in> set (sb_buf sb)"
    then obtain j where j: "j < n" "sb_buf sb ! j = Some r"
      using assms(2) by (auto simp: in_set_conv_nth buffer_abs_def)
    then have jm: "j < ?m" using assms(2) by (metis buffer_abs_def not_le option.distinct(1))
    define k where "k = (?m - 1) - ((?m - 1 - j) mod n)"
    have kr: "k < ?m" "?m - n \<le> k" and kj: "k mod n = j"
    proof -
      show "k < ?m" using jm by (simp add: k_def)
      have "(?m - 1 - j) mod n < n" using assms(1) by simp
      then show "?m - n \<le> k" using jm unfolding k_def by linarith
      have "n * ((?m - 1 - j) div n) + (?m - 1 - j) mod n = ?m - 1 - j" by (rule mult_div_mod_eq)
      then have "k = j + n * ((?m - 1 - j) div n)" using jm unfolding k_def by linarith
      then show "k mod n = j" using j(1) by simp
    qed
    have "sb_buf sb ! (k mod n) = Some (pushed ! k)"
      using assms(2) kr unfolding buffer_abs_def by blast
    then have "r = pushed ! k" using j(2) kj by simp
    then show "r \<in> set (last_n n pushed)"
      using kr unfolding last_n_def in_set_conv_nth
      by (intro exI [of _ "k - (?m - n)"]) auto
  next
    assume "r \<in> set (last_n n pushed)"
    then obtain i where i: "i < length (last_n n pushed)" "last_n n pushed ! i = r"
      by (auto simp: in_set_conv_nth)
    then have "r = pushed ! (?m - n + i)" "?m - n + i < ?m"
      by (auto simp: last_n_def)
    then have "sb_buf sb ! ((?m - n + i) mod n) = Some r"
      using assms(2) by (simp add: buffer_abs_def)
    then show "Some r \<in> set (sb_buf sb)"
      using assms by (metis buffer_abs_def mod_less_divisor nth_mem)
  qed
  have "Synced sb ts \<longleftrightarrow> (\<exists>r. Some r \<in> set (sb_buf sb) \<and> (Equals r ts \<or> isHeavier r ts))"
    unfolding Synced_def list_ex_iff by (auto split: option.splits)
  with at show ?thesis by blast
qed

text \<open>
  Property C24. The circular buffer implements its specification: after any sequence of pushes on
  a new buffer of positive size \<open>n\<close>, a tipset counts as synced exactly when it equals, or is
  lighter than, one of the last \<open>n\<close> tipsets pushed.
\<close>

theorem Synced_last_n:
  assumes "0 < n"
  shows "Synced (fold Push pushed (newSyncBuffer n)) ts \<longleftrightarrow>
    (\<exists>r \<in> set (last_n n pushed). Equals r ts \<or> isHeavier r ts)"
proof -
  have "buffer_abs n pushed (fold Push pushed (newSyncBuffer n))"
  proof (induction pushed rule: rev_induct)
    case Nil
    then show ?case by (simp add: buffer_abs_new)
  next
    case (snoc x xs)
    then show ?case using buffer_abs_Push [OF assms] by simp
  qed
  then show ?thesis by (rule buffer_abs_Synced [OF assms])
qed

text \<open>Witness of C24: a buffer of size one forgets the first of two pushes.\<close>

theorem Synced_last_n_witness:
  "Synced (fold Push [demo_tipset, demo_tipset\<lparr>ts_cids := [5]\<rparr>] (newSyncBuffer 1)) demo_tipset \<longleftrightarrow>
    Equals (demo_tipset\<lparr>ts_cids := [5]\<rparr>) demo_tipset \<or> isHeavier (demo_tipset\<lparr>ts_cids := [5]\<rparr>) demo_tipset"
  using Synced_last_n [of 1 "[demo_tipset, demo_tipset\<lparr>ts_cids := [5]\<rparr>]" demo_tipset]
  by (simp add: last_n_def)

section \<open>The invariant\<close>

definition sm_inv :: "('p, 'a) syncManager \<Rightarrow> bool" where
  "sm_inv sm \<longleftrightarrow> buckets_ok (sm_pend sm) \<and> buckets_ok (sm_deferred sm)
     \<and> gm_ok (sm_state sm) \<and> (\<forall>i ws. gm_get (sm_state sm) i = Some ws \<longrightarrow> ws_id ws = i \<and> i < sm_nextWorker sm)
     \<and> length (sm_state sm) \<le> MaxSyncWorkers
     \<and> length (sm_history sm) = SyncWorkerHistory \<and> sm_historyI sm < SyncWorkerHistory
     \<and> length (sb_buf (sm_recent sm)) = RecentSyncBufferSize \<and> sb_next (sm_recent sm) < RecentSyncBufferSize
     \<and> (sm_heads sm = None \<longleftrightarrow> 0 < sm_nextWorker sm) \<and> (sm_nextWorker sm = 0 \<longrightarrow> sm_state sm = [])
     \<and> (sm_initialSyncDone sm \<longrightarrow> 0 < sm_nextWorker sm)"

text \<open>The runtime visits every entry of a map once.\<close>

definition visits :: "'a visit \<Rightarrow> bool" where
  "visits ord \<longleftrightarrow> (\<forall>k m. mset (ord k m) = mset m)"

definition cfg_ok :: "'a sync_cfg \<Rightarrow> bool" where
  "cfg_ok cfg \<longleftrightarrow> go_sort (sc_sortBlocks cfg) \<and> go_sort (sc_sortTipsets cfg)"

lemma length_gm_set_fresh: "gm_get m k = None \<Longrightarrow> length (gm_set k v m) = Suc (length m)"
  by (induction m) auto

lemma length_gm_delete: "gm_get m k = Some v \<Longrightarrow> length (gm_delete k m) < length m"
  by (induction m) (auto simp: less_Suc_eq_le AList.delete_eq)

lemma sm_inv_queues:
  assumes "sm_inv sm" and "only_queues sm sm'" and "buckets_ok (sm_pend sm')" and "buckets_ok (sm_deferred sm')"
  shows "sm_inv sm'"
  using assms by (simp add: sm_inv_def only_queues_def)

lemma spawnWorker_inv:
  assumes "sm_inv sm" and "length (sm_state sm) < MaxSyncWorkers" and "0 < sm_nextWorker sm"
  shows "sm_inv (spawnWorker t sm)"
proof -
  have "gm_get (sm_state sm) (sm_nextWorker sm) = None"
    using assms(1) by (metis less_irrefl not_Some_eq sm_inv_def)
  then have "length (gm_set (sm_nextWorker sm) ws (sm_state sm)) = Suc (length (sm_state sm))" for ws
    by (rule length_gm_set_fresh)
  with assms show ?thesis
    by (auto simp: sm_inv_def spawnWorker_def Let_def less_Suc_eq)
qed

lemma selectDeferred_ok:
  assumes "buckets_ok (sm_pend sm)" and "buckets_ok (sm_deferred sm)"
  shows "\<exists>t sm'. selectDeferredSyncTarget cfg ord sm = Some (t, sm') \<and> only_queues sm sm'
    \<and> buckets_ok (sm_pend sm') \<and> buckets_ok (sm_deferred sm')"
  using assms
proof (induction "length (sm_deferred sm)" arbitrary: sm rule: less_induct)
  case less
  show ?case
  proof (cases "Empty (sm_deferred sm)")
    case True
    with less.prems show ?thesis by (simp add: selectDeferredSyncTarget.simps only_queues_def)
  next
    case False
    then obtain i h where P: "Pop (sm_deferred sm) = Some (sm_deferred sm ! i, removeBucket i (sm_deferred sm))"
        and b: "best_bucket (sm_deferred sm) i h"
      using Pop_spec [OF less.prems(2)] by (auto simp: Empty_def)
    let ?rest = "removeBucket i (sm_deferred sm)"
    have len: "length ?rest < length (sm_deferred sm)" using Pop_length [OF P] .
    have rest: "buckets_ok ?rest" using less.prems(2) removeBucket_set by blast
    have h: "heaviestTipSet (sm_deferred sm ! i) = Some h" using b by (simp add: best_bucket_def)
    from False P h show ?thesis
    proof (cases rule: selectDeferred_turn [where cfg = cfg and ord = ord])
      case skip
      with less.hyps [of "sm\<lparr>sm_deferred := ?rest\<rparr>"] less.prems len rest show ?thesis
        by (simp add: only_queues_def)
    next
      case pend
      with less.hyps [of "sm\<lparr>sm_deferred := ?rest, sm_pend := Insert cfg h (sm_pend sm)\<rparr>"] less.prems len rest
      show ?thesis by (simp add: only_queues_def)
    next
      case work
      with less.prems rest show ?thesis by (simp add: only_queues_def)
    qed
  qed
qed

lemma selectSync_ok:
  assumes "buckets_ok (sm_pend sm)" and "buckets_ok (sm_deferred sm)"
  shows "\<exists>t sm'. selectSyncTarget cfg ord finished sm = Some (t, sm') \<and> only_queues sm sm'
    \<and> buckets_ok (sm_pend sm') \<and> buckets_ok (sm_deferred sm')"
proof -
  obtain rel pend where P: "PopRelated (sc_env cfg) finished (sm_pend sm) = (rel, pend)" by fastforce
  have pend: "buckets_ok pend" and rel: "rel \<noteq> Some []"
    using P assms(1) by (auto simp: PopRelated_def list_ex_iff split: if_splits)
  let ?sm = "sm\<lparr>sm_pend := pend\<rparr>"
  have oq: "only_queues sm ?sm" by (simp add: only_queues_def)
  have D: "\<exists>t sm'. selectDeferredSyncTarget cfg ord ?sm = Some (t, sm') \<and> only_queues sm sm'
    \<and> buckets_ok (sm_pend sm') \<and> buckets_ok (sm_deferred sm')"
    using selectDeferred_ok [of ?sm cfg ord] pend assms(2) only_queues_trans [OF oq] by fastforce
  show ?thesis
  proof (cases rel)
    case None
    with D P show ?thesis by (simp add: selectSyncTarget_def)
  next
    case (Some related)
    then obtain h where h: "heaviestTipSet related = Some h" using rel by (cases "heaviestTipSet related") auto
    have "selectSyncTarget cfg ord finished sm = selectDeferredSyncTarget cfg ord ?sm
        \<or> selectSyncTarget cfg ord finished sm = Some (Some h, ?sm)"
      using P Some h by (simp add: selectSyncTarget_def Let_def)
    then show ?thesis
      using D pend assms(2) oq by auto
  qed
qed

lemma addSync_ok:
  assumes "sm_inv sm" and "0 < sm_nextWorker sm"
  shows "\<exists>t sm'. addSyncTarget cfg ord ts sm = Some (t, sm') \<and> sm_inv sm' \<and> sm_nextWorker sm' = sm_nextWorker sm
    \<and> (t \<noteq> None \<longrightarrow> sm' = sm \<and> length (sm_state sm) < MaxSyncWorkers)"
proof -
  have ins: "sm_inv (sm\<lparr>sm_pend := Insert cfg ts (sm_pend sm)\<rparr>)" "sm_inv (sm\<lparr>sm_deferred := Insert cfg ts (sm_deferred sm)\<rparr>)"
    using assms by (simp_all add: sm_inv_def)
  obtain h where h: "Heaviest (sm_pend sm) = Some h"
    using assms(1) heaviest_buckets_spec [of "sm_pend sm" None] by (auto simp: Heaviest_def sm_inv_def)
  have M: "0 < MaxSyncWorkers" by (simp add: MaxSyncWorkers_def)
  have "addSyncTarget cfg ord ts sm = Some (None, sm)
      \<or> addSyncTarget cfg ord ts sm = Some (None, sm\<lparr>sm_pend := Insert cfg ts (sm_pend sm)\<rparr>)
      \<or> addSyncTarget cfg ord ts sm = Some (None, sm\<lparr>sm_deferred := Insert cfg ts (sm_deferred sm)\<rparr>)
      \<or> addSyncTarget cfg ord ts sm = Some (Some ts, sm) \<and> length (sm_state sm) < MaxSyncWorkers"
    using h M unfolding addSyncTarget_def Let_def by (simp split: relation.split)
  with assms ins show ?thesis by (elim disjE) simp_all
qed

lemma handleInitialSyncDone_ok:
  assumes "sm_inv sm" and "0 < sm_nextWorker sm"
  shows "\<exists>sm'. handleInitialSyncDone cfg ord sm = Some sm' \<and> sm_inv sm'"
  using assms
proof (induction "length (sm_deferred sm)" arbitrary: sm rule: less_induct)
  case less
  show ?case
  proof (cases "length (sm_state sm) < MaxSyncWorkers")
    case False
    with less.prems show ?thesis by (simp add: handleInitialSyncDone.simps)
  next
    case True
    obtain t sm' where S: "selectDeferredSyncTarget cfg ord sm = Some (t, sm')" "only_queues sm sm'"
        "buckets_ok (sm_pend sm')" "buckets_ok (sm_deferred sm')"
      using selectDeferred_ok [of sm cfg ord] less.prems(1) unfolding sm_inv_def by metis
    have inv': "sm_inv sm'" by (rule sm_inv_queues [OF less.prems(1) S(2-4)])
    show ?thesis
    proof (cases t)
      case None
      with True S(1) inv' show ?thesis by (simp add: handleInitialSyncDone.simps)
    next
      case (Some target)
      have "length (sm_deferred sm') < length (sm_deferred sm)"
        using selectDeferred_shrinks [OF S(1)] Some by simp
      moreover have "sm_inv (spawnWorker target sm')"
        using S(2) less.prems(2) True by (intro spawnWorker_inv [OF inv']) (simp_all add: only_queues_def)
      ultimately have "\<exists>sm''. handleInitialSyncDone cfg ord (spawnWorker target sm') = Some sm'' \<and> sm_inv sm''"
        by (intro less.hyps) (simp_all add: spawnWorker_def Let_def)
      with True S(1) Some show ?thesis by (simp add: handleInitialSyncDone.simps [of cfg ord sm])
    qed
  qed
qed

lemma scheduler_tick_ok:
  assumes "sm_inv sm"
  shows "\<exists>sm'. scheduler_tick cfg ord sm = Some sm' \<and> sm_inv sm'"
proof (cases "sm_ticker sm \<and> sm_initialSyncDone sm")
  case True
  have inv: "sm_inv (sm\<lparr>sm_ticker := False\<rparr>)" using assms by (simp add: sm_inv_def)
  have "0 < sm_nextWorker (sm\<lparr>sm_ticker := False\<rparr>)" using assms True by (simp add: sm_inv_def)
  from handleInitialSyncDone_ok [OF inv this, of cfg ord] True show ?thesis by (simp add: scheduler_tick_def)
next
  case False
  with assms show ?thesis by (auto simp: scheduler_tick_def)
qed

lemma spawn_if_ok:
  assumes "r = Some (t, sm)" and "sm_inv sm" and "t \<noteq> None \<Longrightarrow> length (sm_state sm) < MaxSyncWorkers \<and> 0 < sm_nextWorker sm"
  shows "\<exists>sm'. spawn_if r = Some sm' \<and> sm_inv sm'"
  using assms spawnWorker_inv by (cases t) (auto simp: spawn_if_def)

lemma worker_inv:
  assumes "sm_inv sm"
  shows "sm_inv (worker i dt sm)"
proof (cases "gm_get (sm_state sm) i")
  case (Some ws)
  have "length (gm_set i ws' (sm_state sm)) = length (sm_state sm)" for ws'
    using Some by (metis length_map domI dom_map_of_conv_image_fst list.set_map update_keys)
  with assms Some show ?thesis by (auto simp: worker_def sm_inv_def split: if_splits)
qed (use assms in \<open>simp add: worker_def\<close>)

lemma handleWorkerStatus_ok:
  assumes "sm_inv sm" and "gm_get (sm_state sm) i = Some ws"
  shows "\<exists>sm'. handleWorkerStatus cfg ord i failed sm = Some sm' \<and> sm_inv sm'"
proof -
  define sm1 where "sm1 = sm\<lparr>sm_state := gm_delete i (sm_state sm),
     sm_history := (sm_history sm)[sm_historyI sm := Some ws],
     sm_historyI := (sm_historyI sm + 1) mod length (sm_history sm)\<rparr>"
  define sm2 where "sm2 = (if failed then sm1
     else sm1\<lparr>sm_recent := Push (ws_ts ws) (sm_recent sm1),
             sm_initialSyncDone := sm_initialSyncDone sm1 \<or> ws_dt ws < InitialSyncTimeThreshold\<rparr>)"
  have len: "length (gm_delete i (sm_state sm)) < length (sm_state sm)" by (rule length_gm_delete [OF assms(2)])
  have pos: "0 < sm_nextWorker sm" using assms unfolding sm_inv_def by (metis gr0I less_nat_zero_code)
  have inv2: "sm_inv sm2"
    using assms len pos by (auto simp: sm2_def sm1_def sm_inv_def Push_def SyncWorkerHistory_def
        RecentSyncBufferSize_def
        simp del: map_of_eq_Some_iff split: if_splits)
  obtain t sm' where S: "selectSyncTarget cfg ord (ws_ts ws) sm2 = Some (t, sm')" "only_queues sm2 sm'"
      "buckets_ok (sm_pend sm')" "buckets_ok (sm_deferred sm')"
    using selectSync_ok [of sm2 cfg ord "ws_ts ws"] inv2 unfolding sm_inv_def by metis
  have "sm_inv sm'" by (rule sm_inv_queues [OF inv2 S(2-4)])
  moreover have "length (sm_state sm') < MaxSyncWorkers \<and> 0 < sm_nextWorker sm'"
    using S(2) len pos assms(1) by (auto simp: only_queues_def sm2_def sm1_def sm_inv_def)
  ultimately have "\<exists>sm''. spawn_if (selectSyncTarget cfg ord (ws_ts ws) sm2) = Some sm'' \<and> sm_inv sm''"
    using spawn_if_ok [OF S(1)] by blast
  moreover have "handleWorkerStatus cfg ord i failed sm = spawn_if (selectSyncTarget cfg ord (ws_ts ws) sm2)"
    using assms(2) unfolding handleWorkerStatus_def sm2_def sm1_def Let_def by simp
  ultimately show ?thesis by simp
qed

section \<open>The initial target\<close>

text \<open>
  What the heads of the peers have in common with a chain: the cids of a head are those of its
  blocks, different blocks have different cids, and the weight of a block is that of its parents.
\<close>

definition heads_consistent :: "'a ts_env \<Rightarrow> 'a tipSet set \<Rightarrow> bool" where
  "heads_consistent env H \<longleftrightarrow>
     (\<forall>h \<in> H. ts_cids h = map (te_Cid env) (Blocks h))
   \<and> inj_on (te_Cid env) (\<Union>h \<in> H. set (Blocks h))
   \<and> (\<forall>a \<in> (\<Union>h \<in> H. set (Blocks h)). \<forall>b \<in> (\<Union>h \<in> H. set (Blocks h)).
        CidArrsEqual (bh_Parents a) (bh_Parents b) \<longrightarrow> bh_ParentWeight a = bh_ParentWeight b)"

text \<open>A tipset put together from blocks of the heads, with the parents of one of them.\<close>

definition from_heads :: "'a ts_env \<Rightarrow> 'a tipSet set \<Rightarrow> 'a tipSet \<Rightarrow> bool" where
  "from_heads env H u \<longleftrightarrow> set (Blocks u) \<subseteq> (\<Union>h \<in> H. set (Blocks h)) \<and> ts_cids u = map (te_Cid env) (Blocks u)
     \<and> (\<exists>h \<in> H. bh_Parents (ts_blk0 u) = bh_Parents (ts_blk0 h))"

lemma from_heads_head: "heads_consistent env H \<Longrightarrow> h \<in> H \<Longrightarrow> from_heads env H h"
  unfolding heads_consistent_def from_heads_def by blast

lemma Blocks_first [simp]: "ts_blk0 t \<in> set (Blocks t)"
  by (simp add: Blocks_def)

lemma from_heads_first: "from_heads env H u \<Longrightarrow> ts_blk0 u \<in> (\<Union>h \<in> H. set (Blocks h))"
  unfolding from_heads_def by (meson Blocks_first subsetD)

lemma CidArrsEqual_refl [simp]: "CidArrsEqual a a"
  by (simp add: CidArrsEqual_def list_all_iff)

lemma from_heads_weight:
  assumes "heads_consistent env H" "from_heads env H u" "from_heads env H v"
    and "CidArrsEqual (bh_Parents (ts_blk0 u)) (bh_Parents (ts_blk0 v))"
  shows "ParentWeight u = ParentWeight v"
  using assms(1,4) from_heads_first [OF assms(2)] from_heads_first [OF assms(3)]
  unfolding heads_consistent_def ParentWeight_def by blast

lemma from_heads_Equals:
  assumes "heads_consistent env H" "from_heads env H u" "from_heads env H v" "Equals u v"
  shows "ParentWeight u = ParentWeight v"
proof -
  have "map (te_Cid env) (Blocks u) = map (te_Cid env) (Blocks v)"
    using assms(2-4) unfolding from_heads_def Equals_def by metis
  then have "te_Cid env (ts_blk0 u) = te_Cid env (ts_blk0 v)" by (simp add: Blocks_def)
  moreover have "inj_on (te_Cid env) (\<Union>h \<in> H. set (Blocks h))" using assms(1) by (simp add: heads_consistent_def)
  ultimately have "ts_blk0 u = ts_blk0 v"
    using from_heads_first [OF assms(2)] from_heads_first [OF assms(3)] by (metis inj_onD)
  then show ?thesis by (simp add: ParentWeight_def)
qed

lemma one_per_miner_subset: "set (one_per_miner ms bs) \<subseteq> set bs"
  by (induction ms bs rule: one_per_miner.induct) auto

lemma merge_from_heads:
  assumes "go_sort (sc_sortBlocks cfg)" "from_heads env H t" "from_heads env H ts" "env = sc_env cfg"
    and "NewTipSet (sc_env cfg) (sc_sortBlocks cfg) (one_per_miner [] (Blocks t @ Blocks ts)) = Inr ts2"
  shows "from_heads env H ts2 \<and> bh_Parents (ts_blk0 ts2) = bh_Parents (ts_blk0 t)"
proof -
  note n = NewTipSet_Inr [OF assms(1,5)]
  let ?bs = "one_per_miner [] (Blocks t @ Blocks ts)"
  have set: "set (Blocks ts2) = set ?bs" using n(1) go_sort_set [OF assms(1)] by metis
  have "ts_blk0 t \<in> set ?bs" by (simp add: Blocks_def)
  then have p: "bh_Parents (ts_blk0 ts2) = bh_Parents (ts_blk0 t)" using n(3) set by metis
  have "set (Blocks ts2) \<subseteq> set (Blocks t) \<union> set (Blocks ts)"
    using set one_per_miner_subset [of "[]" "Blocks t @ Blocks ts"] by simp
  then have "set (Blocks ts2) \<subseteq> (\<Union>h \<in> H. set (Blocks h))" using assms(2,3) unfolding from_heads_def by blast
  moreover have "\<exists>h \<in> H. bh_Parents (ts_blk0 ts2) = bh_Parents (ts_blk0 h)" using assms(2) p unfolding from_heads_def by simp
  ultimately show ?thesis using p n(2) assms(4) unfolding from_heads_def by simp
qed

text \<open>
  Adding a tipset to a bucket: the tips still come from the heads, no weight is lost and, unless
  tipsets are coalesced, at most the new one is added.
\<close>

definition tips_cover :: "'a sync_cfg \<Rightarrow> 'a tipSet set \<Rightarrow> 'a tipSet set \<Rightarrow> 'a tipSet set \<Rightarrow> bool" where
  "tips_cover cfg H A B \<longleftrightarrow> (\<forall>u \<in> B. from_heads (sc_env cfg) H u)
     \<and> (\<forall>u \<in> A. \<exists>v \<in> B. ParentWeight v = ParentWeight u) \<and> (\<not> sc_coalesceTipsets cfg \<longrightarrow> B \<subseteq> A)"

lemma tips_cover_insert: "tips_cover cfg H A B \<Longrightarrow> from_heads (sc_env cfg) H u \<Longrightarrow> tips_cover cfg H (insert u A) (insert u B)"
  unfolding tips_cover_def by blast

lemma tips_cover_union: "tips_cover cfg H A B \<Longrightarrow> \<forall>u \<in> C. from_heads (sc_env cfg) H u \<Longrightarrow> tips_cover cfg H (A \<union> C) (B \<union> C)"
  unfolding tips_cover_def by blast

lemma tips_cover_trans: "tips_cover cfg H A B \<Longrightarrow> tips_cover cfg H B C \<Longrightarrow> tips_cover cfg H A C"
  unfolding tips_cover_def by (elim conjE, intro conjI) (assumption, metis, blast)

lemma add_tip_cover:
  assumes cfg: "go_sort (sc_sortBlocks cfg)" and H: "heads_consistent (sc_env cfg) H"
    and ts: "from_heads (sc_env cfg) H ts"
  shows "\<forall>u \<in> set b. from_heads (sc_env cfg) H u \<Longrightarrow> tips_cover cfg H (insert ts (set b)) (set (add_tip cfg ts b))"
proof (induction b)
  case Nil
  then show ?case using ts by (simp add: tips_cover_def)
next
  case (Cons t b)
  have t: "from_heads (sc_env cfg) H t" and b: "\<forall>u \<in> set b. from_heads (sc_env cfg) H u" using Cons.prems by simp_all
  have rest: "tips_cover cfg H (insert ts (set (t # b))) (set (t # add_tip cfg ts b))"
    using tips_cover_insert [OF Cons.IH [OF b] t] by (simp add: insert_commute)
  show ?case
  proof (cases "Equals t ts")
    case True
    have "ParentWeight t = ParentWeight ts" by (rule from_heads_Equals [OF H t ts True])
    with True t b show ?thesis unfolding tips_cover_def by auto
  next
    case ne: False
    show ?thesis
    proof (cases "add_tip cfg ts (t # b) = t # add_tip cfg ts b")
      case True
      with rest show ?thesis by simp
    next
      case False
      then obtain ts2 where m: "sc_coalesceTipsets cfg" "CidArrsEqual (bh_Parents (ts_blk0 t)) (bh_Parents (ts_blk0 ts))"
          "NewTipSet (sc_env cfg) (sc_sortBlocks cfg) (one_per_miner [] (Blocks t @ Blocks ts)) = Inr ts2"
          "add_tip cfg ts (t # b) = ts2 # b"
        using ne by (auto split: if_splits sum.splits)
      from merge_from_heads [OF cfg t ts refl m(3)]
      have f: "from_heads (sc_env cfg) H ts2" and p: "bh_Parents (ts_blk0 ts2) = bh_Parents (ts_blk0 t)" by simp_all
      have "ParentWeight ts2 = ParentWeight t" "ParentWeight ts2 = ParentWeight ts"
        using from_heads_weight [OF H f t] from_heads_weight [OF H f ts] m(2) p by simp_all
      then show ?thesis unfolding tips_cover_def m(4) using m(1) f b by auto
    qed
  qed
qed

lemma Insert_cover:
  assumes cfg: "go_sort (sc_sortBlocks cfg)" and H: "heads_consistent (sc_env cfg) H"
    and ts: "from_heads (sc_env cfg) H ts"
  shows "\<forall>u \<in> set (concat sbs). from_heads (sc_env cfg) H u \<Longrightarrow>
    tips_cover cfg H (insert ts (set (concat sbs))) (set (concat (Insert cfg ts sbs)))"
proof (induction sbs)
  case Nil
  then show ?case using ts by (simp add: tips_cover_def)
next
  case (Cons b sbs)
  have b: "\<forall>u \<in> set b. from_heads (sc_env cfg) H u" and c: "\<forall>u \<in> set (concat sbs). from_heads (sc_env cfg) H u"
    using Cons.prems by auto
  show ?case
  proof (cases "sameChainAs (sc_env cfg) b ts")
    case True
    with tips_cover_union [OF add_tip_cover [OF cfg H ts b] c] show ?thesis by simp
  next
    case False
    with tips_cover_union [OF Cons.IH [OF c] b] show ?thesis by (simp add: Un_commute)
  qed
qed

definition insert_all :: "'a sync_cfg \<Rightarrow> 'a tipSet list \<Rightarrow> 'a syncBucketSet \<Rightarrow> 'a syncBucketSet" where
  "insert_all cfg tss sbs = foldl (\<lambda>bs ts. Insert cfg ts bs) sbs tss"

lemma insert_all_ok: "buckets_ok sbs \<Longrightarrow> buckets_ok (insert_all cfg tss sbs)"
  unfolding insert_all_def by (induction tss arbitrary: sbs) auto

lemma insert_all_not_empty: "tss \<noteq> [] \<or> sbs \<noteq> [] \<Longrightarrow> insert_all cfg tss sbs \<noteq> []"
  unfolding insert_all_def by (induction tss arbitrary: sbs) auto

lemma insert_all_cover:
  assumes cfg: "go_sort (sc_sortBlocks cfg)" and H: "heads_consistent (sc_env cfg) H"
  shows "\<forall>u \<in> set (concat sbs) \<union> set tss. from_heads (sc_env cfg) H u \<Longrightarrow>
    tips_cover cfg H (set tss \<union> set (concat sbs)) (set (concat (insert_all cfg tss sbs)))"
proof (induction tss arbitrary: sbs)
  case Nil
  then show ?case by (auto simp: insert_all_def tips_cover_def)
next
  case (Cons t tss)
  have t: "from_heads (sc_env cfg) H t" and c: "\<forall>u \<in> set (concat sbs). from_heads (sc_env cfg) H u"
    and s: "\<forall>u \<in> set tss. from_heads (sc_env cfg) H u"
    using Cons.prems by auto
  let ?s = "Insert cfg t sbs"
  have i: "tips_cover cfg H (insert t (set (concat sbs))) (set (concat ?s))" by (rule Insert_cover [OF cfg H t c])
  then have "\<forall>u \<in> set (concat ?s) \<union> set tss. from_heads (sc_env cfg) H u" using s unfolding tips_cover_def by blast
  from tips_cover_trans [OF tips_cover_union [OF i s] _] Cons.IH [OF this]
  have "tips_cover cfg H (insert t (set (concat sbs)) \<union> set tss) (set (concat (insert_all cfg tss ?s)))"
    by (metis Un_commute)
  then show ?case by (simp add: insert_all_def Un_commute)
qed

lemma Heaviest_spec:
  assumes "buckets_ok sbs" and "sbs \<noteq> []"
  obtains t where "Heaviest sbs = Some (Some t)" and "t \<in> set (concat sbs)"
    and "\<And>u. u \<in> set (concat sbs) \<Longrightarrow> ParentWeight u \<le> ParentWeight t"
proof -
  obtain r where r: "heaviest_buckets None sbs = Some r" "r \<noteq> None"
      "\<And>t. r = Some t \<Longrightarrow> (\<exists>b \<in> set sbs. t \<in> set b) \<and> (\<forall>b \<in> set sbs. \<forall>u \<in> set b. ParentWeight u \<le> ParentWeight t)"
    using heaviest_buckets_spec [OF assms(1), of None] assms(2) by auto
  then obtain t where "r = Some t" by blast
  with r show ?thesis by (intro that [of t]) (auto simp: Heaviest_def)
qed

lemma selectInitial_ok:
  assumes "go_sort (sc_sortTipsets cfg)" and "sm_heads sm = Some hs" and "headOrd hs \<noteq> []"
  obtains t where "selectInitialSyncTarget cfg headOrd sm = Some (Some t, sm\<lparr>sm_heads := None\<rparr>)"
    and "go_sort (sc_sortBlocks cfg) \<Longrightarrow> heads_consistent (sc_env cfg) (snd ` set (headOrd hs)) \<Longrightarrow>
      from_heads (sc_env cfg) (snd ` set (headOrd hs)) t
      \<and> (\<not> sc_coalesceTipsets cfg \<longrightarrow> t \<in> snd ` set (headOrd hs))
      \<and> (\<forall>h \<in> snd ` set (headOrd hs). ParentWeight h \<le> ParentWeight t)"
proof -
  define tss where "tss = sc_sortTipsets cfg (\<lambda>a b. ts_height a < ts_height b) (map snd (headOrd hs))"
  have set: "set tss = snd ` set (headOrd hs)"
    by (simp add: tss_def go_sort_set [OF assms(1)])
  then have ne: "tss \<noteq> []" using assms(3) by auto
  let ?B = "insert_all cfg tss []"
  have "buckets_ok ?B" "?B \<noteq> []"
    using insert_all_ok [of "[]"] insert_all_not_empty [of tss] ne by auto
  then obtain t where t: "Heaviest ?B = Some (Some t)" "t \<in> set (concat ?B)"
      "\<And>u. u \<in> set (concat ?B) \<Longrightarrow> ParentWeight u \<le> ParentWeight t"
    using Heaviest_spec by metis
  have sel: "selectInitialSyncTarget cfg headOrd sm = Some (Some t, sm\<lparr>sm_heads := None\<rparr>)"
    using t(1) assms(2) by (simp add: selectInitialSyncTarget_def Let_def insert_all_def tss_def)
  have "from_heads (sc_env cfg) (set tss) t \<and> (\<not> sc_coalesceTipsets cfg \<longrightarrow> t \<in> set tss)
      \<and> (\<forall>h \<in> set tss. ParentWeight h \<le> ParentWeight t)"
    if srt: "go_sort (sc_sortBlocks cfg)" and H: "heads_consistent (sc_env cfg) (set tss)"
  proof -
    have "\<forall>u \<in> set (concat []) \<union> set tss. from_heads (sc_env cfg) (set tss) u"
      using from_heads_head [OF H] by simp
    from insert_all_cover [OF srt H this] have c: "tips_cover cfg (set tss) (set tss) (set (concat ?B))" by simp
    have "\<forall>h \<in> set tss. \<exists>v \<in> set (concat ?B). ParentWeight v = ParentWeight h" using c unfolding tips_cover_def by blast
    then have "\<forall>h \<in> set tss. ParentWeight h \<le> ParentWeight t" using t(3) by metis
    then show ?thesis using c t(2) unfolding tips_cover_def by blast
  qed
  with sel set show ?thesis by (intro that [of t]) simp_all
qed

lemma handlePeerHead_ok:
  assumes "sm_inv sm" and "go_sort (sc_sortTipsets cfg)" and "\<And>m. mset (headOrd m) = mset m"
  shows "\<exists>sm'. handlePeerHead cfg headOrd ord p ts sm = Some sm' \<and> sm_inv sm'"
proof (cases "sm_nextWorker sm = 0")
  case True
  then obtain hs where hs: "sm_heads sm = Some hs" using assms(1) unfolding sm_inv_def by (metis not_None_eq not_gr0)
  let ?sm = "sm\<lparr>sm_heads := Some (gm_set p ts hs)\<rparr>"
  have inv: "sm_inv ?sm" using assms(1) True by (simp add: sm_inv_def)
  have ne: "headOrd (gm_set p ts hs) \<noteq> []" using assms(3) [of "gm_set p ts hs"] by (metis gm_set_not_empty mset_zero_iff)
  have "sm_heads ?sm = Some (gm_set p ts hs)" by simp
  from selectInitial_ok [where headOrd = headOrd, OF assms(2) this ne]
  obtain t where t: "selectInitialSyncTarget cfg headOrd ?sm = Some (Some t, ?sm\<lparr>sm_heads := None\<rparr>)"
    by blast
  have "sm_inv (spawnWorker t (?sm\<lparr>sm_heads := None\<rparr>))"
    using inv True by (auto simp: sm_inv_def spawnWorker_def MaxSyncWorkers_def Let_def)
  with True hs t inv show ?thesis by (simp add: handlePeerHead_def Let_def)
next
  case False
  then have pos: "0 < sm_nextWorker sm" by simp
  obtain t sm' where A: "addSyncTarget cfg ord ts sm = Some (t, sm')" "sm_inv sm'" "sm_nextWorker sm' = sm_nextWorker sm"
      "t \<noteq> None \<longrightarrow> sm' = sm \<and> length (sm_state sm) < MaxSyncWorkers"
    using addSync_ok [OF assms(1) pos] by metis
  have "\<exists>s. spawn_if (addSyncTarget cfg ord ts sm) = Some s \<and> sm_inv s"
    by (rule spawn_if_ok [OF A(1,2)]) (use A pos in auto)
  with False show ?thesis by (simp add: handlePeerHead_def)
qed

section \<open>The scheduler\<close>

text \<open>
  One turn of the scheduler's loop: a head arrives from a peer, a worker reports after some
  time, or the ticker fires.
\<close>

inductive sm_step :: "'a sync_cfg \<Rightarrow> ('p, 'a) syncManager \<Rightarrow> ('p, 'a) syncManager \<Rightarrow> bool" for cfg where
  Step_head: "(\<And>m. mset (headOrd m) = mset m) \<Longrightarrow> visits ord \<Longrightarrow>
     handlePeerHead cfg headOrd ord p ts sm = Some sm' \<Longrightarrow> sm_step cfg sm sm'"
| Step_status: "gm_get (sm_state sm) i = Some ws \<Longrightarrow> visits ord \<Longrightarrow>
     handleWorkerStatus cfg ord i failed (worker i dt sm) = Some sm' \<Longrightarrow> sm_step cfg sm sm'"
| Step_tick: "visits ord \<Longrightarrow> scheduler_tick cfg ord sm = Some sm' \<Longrightarrow> sm_step cfg sm sm'"

inductive sm_reachable :: "'a sync_cfg \<Rightarrow> ('p, 'a) syncManager \<Rightarrow> bool" for cfg where
  Reach_new: "sm_reachable cfg NewSyncManager"
| Reach_step: "sm_reachable cfg sm \<Longrightarrow> sm_step cfg sm sm' \<Longrightarrow> sm_reachable cfg sm'"

lemma worker_get: "gm_get (sm_state sm) i = Some ws \<Longrightarrow> gm_get (sm_state (worker i dt sm)) i = Some (ws\<lparr>ws_dt := dt\<rparr>)"
  by (simp add: worker_def)

lemma sm_step_inv:
  assumes "cfg_ok cfg" and "sm_step cfg sm sm'" and "sm_inv sm"
  shows "sm_inv sm'"
  using assms(2)
proof cases
  case (Step_head headOrd ord p ts)
  have "go_sort (sc_sortTipsets cfg)" using assms(1) by (simp add: cfg_ok_def)
  from handlePeerHead_ok [where headOrd = headOrd, OF assms(3) this Step_head(1)] Step_head(3) show ?thesis
    by (metis option.inject)
next
  case (Step_status i ws ord failed dt)
  from handleWorkerStatus_ok [OF worker_inv [OF assms(3)] worker_get [OF Step_status(1)]] Step_status(3)
  show ?thesis by (metis option.inject)
next
  case (Step_tick ord)
  with scheduler_tick_ok [OF assms(3)] show ?thesis by (metis option.inject)
qed

lemma NewSyncManager_inv: "sm_inv NewSyncManager"
  by (simp add: sm_inv_def NewSyncManager_def newSyncBuffer_def RecentSyncBufferSize_def SyncWorkerHistory_def)

lemma sm_reachable_inv:
  assumes "cfg_ok cfg" and "sm_reachable cfg sm"
  shows "sm_inv sm"
  using assms(2) by induction (use NewSyncManager_inv sm_step_inv [OF assms(1)] in auto)

text \<open>
  Property C3. Whatever heads peers send, however workers end and in whatever order maps are
  visited, the scheduler never panics, at most \<open>MaxSyncWorkers\<close> workers run, every worker is
  filed under its own identifier, and no waiting bucket is empty. In particular a head, the
  report of any running worker and the ticker are all handled in every reachable state.
\<close>

theorem scheduler_never_panics:
  assumes "cfg_ok cfg" and "sm_reachable cfg sm" and "\<And>m. mset (headOrd m) = mset m"
  shows "handlePeerHead cfg headOrd ord p ts sm \<noteq> None
    \<and> (gm_get (sm_state sm) i \<noteq> None \<longrightarrow> handleWorkerStatus cfg ord i failed (worker i dt sm) \<noteq> None)
    \<and> scheduler_tick cfg ord sm \<noteq> None
    \<and> length (sm_state sm) \<le> MaxSyncWorkers
    \<and> (\<forall>j ws. gm_get (sm_state sm) j = Some ws \<longrightarrow> ws_id ws = j \<and> j < sm_nextWorker sm)
    \<and> [] \<notin> set (sm_pend sm) \<and> [] \<notin> set (sm_deferred sm)"
proof -
  have inv: "sm_inv sm" by (rule sm_reachable_inv [OF assms(1,2)])
  have "go_sort (sc_sortTipsets cfg)" using assms(1) by (simp add: cfg_ok_def)
  then have "handlePeerHead cfg headOrd ord p ts sm \<noteq> None"
    using handlePeerHead_ok [where headOrd = headOrd, OF inv _ assms(3)] by (metis option.distinct(1))
  moreover have "handleWorkerStatus cfg ord i failed (worker i dt sm) \<noteq> None" if "gm_get (sm_state sm) i \<noteq> None"
    using that handleWorkerStatus_ok [OF worker_inv [OF inv] worker_get] by (metis option.distinct(1) not_None_eq)
  moreover have "scheduler_tick cfg ord sm \<noteq> None"
    using scheduler_tick_ok [OF inv] by (metis option.distinct(1))
  ultimately show ?thesis using inv unfolding sm_inv_def by blast
qed

text \<open>
  Property C26. The first sync goes for the heaviest head: once enough peers have reported, the
  scheduler starts one worker, and no peer's head is heavier than its target. The target is the head of
  one of the peers or, where tipsets are coalesced, put together from blocks of the heads on the
  parents of one of them. The heads are consistent: their cids are those of their blocks, different
  blocks have different cids, and blocks on the same parents have the same weight.
\<close>

theorem initial_target_is_heaviest:
  assumes "cfg_ok cfg" and "\<And>m. mset (headOrd m) = mset m"
    and "sm_nextWorker sm = 0" and "sm_heads sm = Some hs" and "sm_state sm = []"
    and "sc_BootstrapPeerThreshold cfg \<le> int (length (gm_set p ts hs))"
    and "heads_consistent (sc_env cfg) (snd ` set (gm_set p ts hs))"
  shows "\<exists>sm' t. handlePeerHead cfg headOrd ord p ts sm = Some sm'
    \<and> sm_state sm' = [(0, \<lparr>ws_id = 0, ws_ts = t, ws_dt = 0\<rparr>)] \<and> sm_nextWorker sm' = 1 \<and> sm_heads sm' = None
    \<and> (\<forall>h \<in> snd ` set (gm_set p ts hs). ParentWeight h \<le> ParentWeight t)
    \<and> (\<not> sc_coalesceTipsets cfg \<longrightarrow> t \<in> snd ` set (gm_set p ts hs))
    \<and> from_heads (sc_env cfg) (snd ` set (gm_set p ts hs)) t"
proof -
  let ?hs = "gm_set p ts hs"
  let ?sm = "sm\<lparr>sm_heads := Some ?hs\<rparr>"
  have set: "set (headOrd ?hs) = set ?hs" using assms(2) by (rule mset_eq_setD)
  then have ne: "headOrd ?hs \<noteq> []" by (metis gm_set_not_empty set_empty)
  have sort: "go_sort (sc_sortTipsets cfg)" "go_sort (sc_sortBlocks cfg)" using assms(1) by (simp_all add: cfg_ok_def)
  have hs: "sm_heads ?sm = Some ?hs" by simp
  from selectInitial_ok [where headOrd = headOrd, OF sort(1) hs ne] obtain t where
      sel: "selectInitialSyncTarget cfg headOrd ?sm = Some (Some t, ?sm\<lparr>sm_heads := None\<rparr>)"
      and t: "from_heads (sc_env cfg) (snd ` set ?hs) t" "\<not> sc_coalesceTipsets cfg \<longrightarrow> t \<in> snd ` set ?hs"
        "\<forall>h \<in> snd ` set ?hs. ParentWeight h \<le> ParentWeight t"
    using sort(2) assms(7) unfolding set by metis
  have "handlePeerHead cfg headOrd ord p ts sm = Some (spawnWorker t (?sm\<lparr>sm_heads := None\<rparr>))"
    using assms(3,4,6) sel by (simp add: handlePeerHead_def Let_def)
  moreover have "sm_state (spawnWorker t (?sm\<lparr>sm_heads := None\<rparr>)) = [(0, \<lparr>ws_id = 0, ws_ts = t, ws_dt = 0\<rparr>)]"
    "sm_nextWorker (spawnWorker t (?sm\<lparr>sm_heads := None\<rparr>)) = 1" "sm_heads (spawnWorker t (?sm\<lparr>sm_heads := None\<rparr>)) = None"
    using assms(3,5) by (simp_all add: spawnWorker_def Let_def)
  ultimately show ?thesis using t by blast
qed

definition demo_sync_cfg :: "int \<Rightarrow> nat sync_cfg" where
  "demo_sync_cfg threshold = \<lparr>sc_env = demo_ts_env, sc_sortBlocks = insertion_sort, sc_sortTipsets = insertion_sort,
     sc_BootstrapPeerThreshold = threshold, sc_coalesceTipsets = False\<rparr>"

text \<open>A tipset of one block.\<close>

definition demo_ts :: "nat \<Rightarrow> cid list \<Rightarrow> int \<Rightarrow> nat tipSet" where
  "demo_ts miner parents weight =
     \<lparr>ts_cids = [100 + miner], ts_blk0 = demo_block miner 1 parents weight 7, ts_blks1 = [], ts_height = 7\<rparr>"

definition in_order :: "'a visit" where
  "in_order k m = m"

lemma demo_cfg_ok: "cfg_ok (demo_sync_cfg n)"
  by (simp add: cfg_ok_def demo_sync_cfg_def go_sort_insertion_sort)

text \<open>Witness of C3: a new manager handles a head, and the ticker.\<close>

theorem scheduler_never_panics_witness:
  "handlePeerHead (demo_sync_cfg 1) (\<lambda>m. m) in_order (1::nat) demo_tipset NewSyncManager \<noteq> None
    \<and> scheduler_tick (demo_sync_cfg 1) in_order (NewSyncManager :: (nat, nat) syncManager) \<noteq> None"
  using scheduler_never_panics [where headOrd = "\<lambda>m. m" and cfg = "demo_sync_cfg 1" and ord = in_order
      and p = "1::nat" and ts = demo_tipset, OF demo_cfg_ok Reach_new refl]
  by blast

text \<open>Witness of C26: the second of two peers has the heavier head, and tipsets are coalesced.\<close>

theorem initial_target_is_heaviest_witness:
  "\<exists>sm' t. handlePeerHead (demo_sync_cfg 2\<lparr>sc_coalesceTipsets := True\<rparr>) (\<lambda>m. m) in_order 2 (demo_ts 4 [3] 80)
        (NewSyncManager\<lparr>sm_heads := Some [(1::nat, demo_ts 5 [2] 70)]\<rparr>) = Some sm'
    \<and> sm_state sm' = [(0, \<lparr>ws_id = 0, ws_ts = t, ws_dt = 0\<rparr>)] \<and> 80 \<le> ParentWeight t"
proof -
  let ?cfg = "demo_sync_cfg 2\<lparr>sc_coalesceTipsets := True\<rparr>"
  let ?sm = "NewSyncManager\<lparr>sm_heads := Some [(1::nat, demo_ts 5 [2] 70)]\<rparr>"
  have ok: "cfg_ok ?cfg" and m: "\<And>m. mset ((\<lambda>m. m) m) = mset m"
    using demo_cfg_ok [of 2] by (simp_all add: cfg_ok_def)
  have n: "sm_nextWorker ?sm = 0" "sm_heads ?sm = Some [(1::nat, demo_ts 5 [2] 70)]" "sm_state ?sm = []"
    by (simp_all add: NewSyncManager_def)
  have b: "sc_BootstrapPeerThreshold ?cfg \<le> int (length (gm_set 2 (demo_ts 4 [3] 80) [(1::nat, demo_ts 5 [2] 70)]))"
    by (simp add: demo_sync_cfg_def)
  have w: "heads_consistent (sc_env ?cfg) (snd ` set (gm_set 2 (demo_ts 4 [3] 80) [(1::nat, demo_ts 5 [2] 70)]))"
    by (simp add: heads_consistent_def demo_sync_cfg_def demo_ts_env_def demo_ts_def demo_block_def Blocks_def CidArrsEqual_def)
  from initial_target_is_heaviest [OF ok m n b w, of in_order] show ?thesis
    by (force simp: demo_ts_def demo_block_def ParentWeight_def)
qed

section \<open>Targets\<close>



text \<open>Witness of C27: a fork heavier than the only worker's target.\<close>

definition demo_busy :: "(nat, nat) syncManager" where
  "demo_busy = NewSyncManager\<lparr>sm_nextWorker := 1, sm_heads := None, sm_initialSyncDone := True,
     sm_state := [(0, \<lparr>ws_id = 0, ws_ts = demo_ts 4 [3] 80, ws_dt = 0\<rparr>)]\<rparr>"

lemma Synced_new: "\<not> Synced (newSyncBuffer n) ts"
  by (simp add: Synced_def newSyncBuffer_def list_ex_iff)

lemmas demo_sync_simps = demo_busy_def NewSyncManager_def demo_sync_cfg_def demo_ts_def demo_block_def demo_ts_env_def
  in_order_def Synced_new Equals_def isHeavier_def ParentWeight_def
  Parents_def Key_def encodeKey_def RelatedToAny_def MaxSyncWorkers_def

lemma demo_visits: "visits in_order"
  by (simp add: visits_def in_order_def)


text \<open>
  Property C35. A defect: when no worker runs, \<open>selectDeferredSyncTarget\<close> selects nothing, whatever is
  deferred, because the only statement that selects a target sits inside the loop over the
  running workers. If no deferred tipset is related to a pending bucket, the deferred queue
  is emptied and nothing else changes: the targets are neither selected nor moved to the pending buckets.
\<close>

theorem deferred_dropped_without_workers:
  assumes "buckets_ok (sm_deferred sm)" and "sm_state sm = []" and "visits ord"
    and "\<forall>b \<in> set (sm_deferred sm). \<forall>t \<in> set b. \<not> RelatedToAny (sc_env cfg) (sm_pend sm) t"
  shows "selectDeferredSyncTarget cfg ord sm = Some (None, sm\<lparr>sm_deferred := []\<rparr>)"
  using assms(1,2,4)
proof (induction "length (sm_deferred sm)" arbitrary: sm rule: less_induct)
  case less
  show ?case
  proof (cases "Empty (sm_deferred sm)")
    case True
    then show ?thesis by (simp add: selectDeferredSyncTarget.simps Empty_def)
  next
    case False
    then obtain i h where P: "Pop (sm_deferred sm) = Some (sm_deferred sm ! i, removeBucket i (sm_deferred sm))"
        and b: "best_bucket (sm_deferred sm) i h"
      using Pop_spec [OF less.prems(1)] by (auto simp: Empty_def)
    let ?rest = "removeBucket i (sm_deferred sm)"
    have rest: "set ?rest \<subseteq> set (sm_deferred sm)" by (rule removeBucket_set)
    have h: "heaviestTipSet (sm_deferred sm ! i) = Some h" and i: "i < length (sm_deferred sm)"
      using b by (simp_all add: best_bucket_def)
    have "\<not> RelatedToAny (sc_env cfg) (sm_pend sm) h"
      using less.prems(3) heaviestTipSet_Some(1) [OF h] nth_mem [OF i] by blast
    moreover have "mset (ord (length ?rest) []) = {#}" using assms(3) unfolding visits_def by (metis mset.simps(1))
    then have "ord (length ?rest) (sm_state sm) = []" using less.prems(2) by simp
    ultimately have "selectDeferredSyncTarget cfg ord sm = selectDeferredSyncTarget cfg ord (sm\<lparr>sm_deferred := ?rest\<rparr>)"
      using False P h by (simp add: selectDeferredSyncTarget.simps [of cfg ord sm])
    also have "\<dots> = Some (None, sm\<lparr>sm_deferred := ?rest\<rparr>\<lparr>sm_deferred := []\<rparr>)"
      by (rule less.hyps) (use Pop_length [OF P] rest less.prems in auto)
    finally show ?thesis by simp
  qed
qed

text \<open>Witness of C35: a heavy fork that was deferred is lost.\<close>

theorem deferred_dropped_without_workers_witness:
  "selectDeferredSyncTarget (demo_sync_cfg 1) in_order
       (demo_busy\<lparr>sm_state := [], sm_pend := [[demo_ts 4 [3] 80]], sm_deferred := [[demo_ts 6 [2] 90]]\<rparr>)
     = Some (None, demo_busy\<lparr>sm_state := [], sm_pend := [[demo_ts 4 [3] 80]], sm_deferred := []\<rparr>)"
proof -
  let ?sm = "demo_busy\<lparr>sm_state := [], sm_pend := [[demo_ts 4 [3] 80]], sm_deferred := [[demo_ts 6 [2] 90]]\<rparr>"
  have "buckets_ok (sm_deferred ?sm)" "sm_state ?sm = []"
    "\<forall>b \<in> set (sm_deferred ?sm). \<forall>t \<in> set b. \<not> RelatedToAny (sc_env (demo_sync_cfg 1)) (sm_pend ?sm) t"
    by (simp_all add: demo_sync_simps sameChainAs_def)
  from deferred_dropped_without_workers [OF this(1,2) demo_visits this(3)] show ?thesis by simp
qed

text \<open>
  Property C36. A defect of the same loop: it looks only at the worker it visits first, so with two
  workers the answer depends on the order of the map, and a target that a worker is already
  syncing can be handed to a second worker.
\<close>

theorem deferred_target_synced_twice:
  assumes "sm_state sm = [(i, v), (j, w)]" and "buckets_ok (sm_deferred sm)"
    and "sm_deferred sm = [[ws_ts w]]" and "\<not> Synced (sm_recent sm) (ws_ts w)"
    and "\<not> RelatedToAny (sc_env cfg) (sm_pend sm) (ws_ts w)"
    and "\<not> Equals (ws_ts v) (ws_ts w)" and "ParentWeight (ws_ts v) \<le> ParentWeight (ws_ts w)"
    and "Parents (sc_env cfg) (ws_ts w) \<noteq> Key (sc_env cfg) (ws_ts v)"
  shows "selectDeferredSyncTarget cfg (\<lambda>k m. m) sm = Some (Some (ws_ts w), sm\<lparr>sm_deferred := []\<rparr>)
    \<and> selectDeferredSyncTarget cfg (\<lambda>k m. rev m) sm = Some (None, sm\<lparr>sm_deferred := []\<rparr>)"
proof -
  have P: "Pop (sm_deferred sm) = Some ([ws_ts w], [])" "heaviestTipSet [ws_ts w] = Some (ws_ts w)"
    by (simp_all add: assms(3) Pop_def removeBucket_def heaviestTipSet_def)
  have ne: "\<not> Empty (sm_deferred sm)" by (simp add: assms(3) Empty_def)
  have e: "selectDeferredSyncTarget cfg ord (sm\<lparr>sm_deferred := []\<rparr>) = Some (None, sm\<lparr>sm_deferred := []\<rparr>)" for ord
    by (simp add: selectDeferredSyncTarget.simps Empty_def)
  show ?thesis
    using assms ne P e by (simp add: selectDeferredSyncTarget.simps [of cfg _ sm] isHeavier_def Equals_def)
qed

text \<open>Witness of C36: workers on two forks, the heavier of which is also deferred.\<close>

theorem deferred_target_synced_twice_witness:
  "selectDeferredSyncTarget (demo_sync_cfg 1) (\<lambda>k m. m)
      (demo_busy\<lparr>sm_state := [(0, \<lparr>ws_id = 0, ws_ts = demo_ts 4 [3] 80, ws_dt = 0\<rparr>),
                            (1, \<lparr>ws_id = 1, ws_ts = demo_ts 6 [2] 90, ws_dt = 0\<rparr>)],
                 sm_deferred := [[demo_ts 6 [2] 90]]\<rparr>) \<noteq>
   selectDeferredSyncTarget (demo_sync_cfg 1) (\<lambda>k m. rev m)
      (demo_busy\<lparr>sm_state := [(0, \<lparr>ws_id = 0, ws_ts = demo_ts 4 [3] 80, ws_dt = 0\<rparr>),
                            (1, \<lparr>ws_id = 1, ws_ts = demo_ts 6 [2] 90, ws_dt = 0\<rparr>)],
                 sm_deferred := [[demo_ts 6 [2] 90]]\<rparr>)"
proof -
  let ?v = "\<lparr>ws_id = 0, ws_ts = demo_ts 4 [3] 80, ws_dt = 0\<rparr>"
  let ?w = "\<lparr>ws_id = 1, ws_ts = demo_ts 6 [2] 90, ws_dt = 0\<rparr>"
  let ?sm = "demo_busy\<lparr>sm_state := [(0, ?v), (1, ?w)], sm_deferred := [[demo_ts 6 [2] 90]]\<rparr>"
  have "sm_state ?sm = [(0, ?v), (1, ?w)]" "buckets_ok (sm_deferred ?sm)" "sm_deferred ?sm = [[ws_ts ?w]]"
      "\<not> Synced (sm_recent ?sm) (ws_ts ?w)" "\<not> RelatedToAny (sc_env (demo_sync_cfg 1)) (sm_pend ?sm) (ws_ts ?w)"
      "\<not> Equals (ws_ts ?v) (ws_ts ?w)" "ParentWeight (ws_ts ?v) \<le> ParentWeight (ws_ts ?w)"
      "Parents (sc_env (demo_sync_cfg 1)) (ws_ts ?w) \<noteq> Key (sc_env (demo_sync_cfg 1)) (ws_ts ?v)"
    by (simp_all add: demo_sync_simps)
  from deferred_target_synced_twice [OF this] show ?thesis by simp
qed

end
