(* ===== verification/Gas_Fees.thy ===== *)
theory Gas_Fees
  imports Tipset
begin

text \<open>
  Gas fees: what a message pays (chain/vm/burn.go) and how the base fee moves from one tipset to
  the next (chain/store/basefee.go). \<^verbatim>\<open>int64\<close> arithmetic wraps and its division
  truncates; the division of big integers, \<^verbatim>\<open>big.Div\<close>, is the argument
  \<open>bigDiv\<close>.
\<close>

text \<open>What \<^verbatim>\<open>big.Div\<close> documents: Euclidean division, here for a positive divisor.\<close>

definition big_div_spec :: "(int \<Rightarrow> int \<Rightarrow> int) \<Rightarrow> bool" where
  "big_div_spec bigDiv \<longleftrightarrow> (\<forall>a b. 0 < b \<longrightarrow> bigDiv a b = a div b)"

section \<open>The fees of a message\<close>

definition gasOveruseNum :: int where "gasOveruseNum = 11"
definition gasOveruseDenom :: int where "gasOveruseDenom = 10"

record gasOutputs =
  go_BaseFeeBurn :: tokenAmount
  go_OverEstimationBurn :: tokenAmount
  go_MinerPenalty :: tokenAmount
  go_MinerTip :: tokenAmount
  go_Refund :: tokenAmount
  go_GasRefund :: int
  go_GasBurned :: int

definition ZeroGasOutputs :: gasOutputs where
  "ZeroGasOutputs = \<lparr>go_BaseFeeBurn = 0, go_OverEstimationBurn = 0, go_MinerPenalty = 0, go_MinerTip = 0,
     go_Refund = 0, go_GasRefund = 0, go_GasBurned = 0\<rparr>"

definition ComputeGasOverestimationBurn :: "(int \<Rightarrow> int \<Rightarrow> int) \<Rightarrow> int \<Rightarrow> int \<Rightarrow> int \<times> int" where
  "ComputeGasOverestimationBurn bigDiv gasUsed gasLimit =
     (if gasUsed = 0 then (0, gasLimit)
      else
        let over = wrap64 (gasLimit - tdiv (wrap64 (gasOveruseNum * gasUsed)) gasOveruseDenom)
        in if over < 0 then (wrap64 (gasLimit - gasUsed), 0)
           else
             let over' = (if over > gasUsed then gasUsed else over);
                 gasToBurn = bigDiv (wrap64 (gasLimit - gasUsed) * over') gasUsed
             in (wrap64 (wrap64 (gasLimit - gasUsed) - wrap64 gasToBurn), wrap64 gasToBurn))"

definition ComputeGasOutputs ::
  "(int \<Rightarrow> int \<Rightarrow> int) \<Rightarrow> int \<Rightarrow> int \<Rightarrow> tokenAmount \<Rightarrow> tokenAmount \<Rightarrow> tokenAmount \<Rightarrow> bool \<Rightarrow> gasOutputs" where
  "ComputeGasOutputs bigDiv gasUsed gasLimit baseFee feeCap gasPremium chargeNetworkFee =
     (let out0 = ZeroGasOutputs;
          baseFeeToPay = (if baseFee > feeCap then feeCap else baseFee);
          out1 = (if baseFee > feeCap then out0\<lparr>go_MinerPenalty := (baseFee - feeCap) * gasUsed\<rparr> else out0);
          out2 = (if chargeNetworkFee then out1\<lparr>go_BaseFeeBurn := baseFeeToPay * gasUsed\<rparr> else out1);
          minerTip = (if baseFeeToPay + gasPremium > feeCap then feeCap - baseFeeToPay else gasPremium);
          out3 = out2\<lparr>go_MinerTip := minerTip * gasLimit\<rparr>;
          (gasRefund, gasBurned) = ComputeGasOverestimationBurn bigDiv gasUsed gasLimit;
          out4 = out3\<lparr>go_GasRefund := gasRefund, go_GasBurned := gasBurned\<rparr>;
          out5 = (if go_GasBurned out4 \<noteq> 0
                  then out4\<lparr>go_OverEstimationBurn := baseFeeToPay * go_GasBurned out4,
                            go_MinerPenalty := go_MinerPenalty out4 + (baseFee - baseFeeToPay) * go_GasBurned out4\<rparr>
                  else out4);
          requiredFunds = gasLimit * feeCap
      in out5\<lparr>go_Refund := requiredFunds - go_BaseFeeBurn out5 - go_MinerTip out5 - go_OverEstimationBurn out5\<rparr>)"

section \<open>The base fee\<close>

definition BlockGasLimit :: int where "BlockGasLimit = 10000000000"
definition BlockGasTarget :: int where "BlockGasTarget = tdiv BlockGasLimit 2"
definition BaseFeeMaxChangeDenom :: int where "BaseFeeMaxChangeDenom = 8"
definition MinimumBaseFee :: int where "MinimumBaseFee = 100"
definition PackingEfficiencyNum :: int where "PackingEfficiencyNum = 4"
definition PackingEfficiencyDenom :: int where "PackingEfficiencyDenom = 5"

text \<open>The heights of network upgrades, which differ between builds.\<close>

record upgrades =
  up_SmokeHeight :: int
  up_BreezeHeight :: int
  up_BreezeGasTampingDuration :: int

definition next_delta :: "upgrades \<Rightarrow> int \<Rightarrow> int \<Rightarrow> int \<Rightarrow> int option" where
  "next_delta up gasLimitUsed noOfBlocks epoch =
     (if epoch > up_SmokeHeight up
      then (if noOfBlocks = 0 then None
            else Some (wrap64 (wrap64 (tdiv gasLimitUsed noOfBlocks) - BlockGasTarget)))
      else (let d = wrap64 (noOfBlocks * PackingEfficiencyNum)
            in if d = 0 then None
               else Some (wrap64 (wrap64 (tdiv (wrap64 (PackingEfficiencyDenom * gasLimitUsed)) d) - BlockGasTarget))))"

text \<open>Division of an \<^verbatim>\<open>int64\<close> by zero is a panic, \<open>None\<close>.\<close>

definition ComputeNextBaseFee ::
  "(int \<Rightarrow> int \<Rightarrow> int) \<Rightarrow> upgrades \<Rightarrow> tokenAmount \<Rightarrow> int \<Rightarrow> int \<Rightarrow> int \<Rightarrow> tokenAmount option" where
  "ComputeNextBaseFee bigDiv up baseFee gasLimitUsed noOfBlocks epoch =
     (case next_delta up gasLimitUsed noOfBlocks epoch of
        None \<Rightarrow> None
      | Some delta0 \<Rightarrow>
          (let delta1 = (if delta0 > BlockGasTarget then BlockGasTarget else delta0);
               delta = (if delta1 < - BlockGasTarget then - BlockGasTarget else delta1);
               change = bigDiv (bigDiv (baseFee * delta) BlockGasTarget) BaseFeeMaxChangeDenom;
               nextBaseFee = baseFee + change
           in Some (if nextBaseFee < MinimumBaseFee then MinimumBaseFee else nextBaseFee)))"

text \<open>Messages as pairs of cid and gas limit; the total wraps like the \<^verbatim>\<open>int64\<close> it is.\<close>

fun sum_unique :: "(cid \<times> int) list \<Rightarrow> cid list \<Rightarrow> int \<Rightarrow> cid list \<times> int" where
  "sum_unique [] seen totalLimit = (seen, totalLimit)"
| "sum_unique ((c, gasLimit) # msgs) seen totalLimit =
     (if c \<in> set seen then sum_unique msgs seen totalLimit
      else sum_unique msgs (c # seen) (wrap64 (totalLimit + gasLimit)))"

text \<open>\<open>msgsFor\<close> is \<^verbatim>\<open>MessagesForBlock\<close>: the BLS and the signed messages, or an error.\<close>

fun sum_blocks ::
  "('a blockHeader \<Rightarrow> 'e + (cid \<times> int) list \<times> (cid \<times> int) list) \<Rightarrow> 'a blockHeader list \<Rightarrow> cid list \<Rightarrow> int \<Rightarrow> 'e + int" where
  "sum_blocks msgsFor [] seen totalLimit = Inr totalLimit"
| "sum_blocks msgsFor (b # bs) seen totalLimit =
     (case msgsFor b of
        Inl err \<Rightarrow> Inl err
      | Inr (msg1, msg2) \<Rightarrow>
          (case sum_unique msg1 seen totalLimit of
             (seen1, total1) \<Rightarrow>
               (case sum_unique msg2 seen1 total1 of
                  (seen2, total2) \<Rightarrow> sum_blocks msgsFor bs seen2 total2)))"

definition ComputeBaseFee ::
  "(int \<Rightarrow> int \<Rightarrow> int) \<Rightarrow> upgrades \<Rightarrow> ('a blockHeader \<Rightarrow> 'e + (cid \<times> int) list \<times> (cid \<times> int) list) \<Rightarrow> 'a tipSet
     \<Rightarrow> ('e + tokenAmount) option" where
  "ComputeBaseFee bigDiv up msgsFor ts =
     (if up_BreezeHeight up \<ge> 0 \<and> ts_height ts > up_BreezeHeight up
         \<and> ts_height ts < up_BreezeHeight up + up_BreezeGasTampingDuration up
      then Some (Inr 100)
      else case sum_blocks msgsFor (Blocks ts) [] 0 of
        Inl err \<Rightarrow> Some (Inl err)
      | Inr totalLimit \<Rightarrow>
          (case ComputeNextBaseFee bigDiv up (bh_ParentBaseFee (ts_blk0 ts)) totalLimit (int (length (Blocks ts))) (ts_height ts) of
             None \<Rightarrow> None
           | Some fee \<Rightarrow> Some (Inr fee)))"

section \<open>Fees are covered\<close>

lemma wrap64_nonneg: "0 \<le> x \<Longrightarrow> x < 2 ^ 63 \<Longrightarrow> wrap64 x = x"
  by (rule wrap64_id) (simp add: is_int64_def)

lemma overestimation_burn:
  assumes "big_div_spec bigDiv" and "0 \<le> gasUsed" and "gasUsed \<le> gasLimit" and "11 * gasLimit < 2 ^ 63"
    and "ComputeGasOverestimationBurn bigDiv gasUsed gasLimit = (refund, burned)"
  shows "0 \<le> refund" and "0 \<le> burned" and "refund + burned = gasLimit - gasUsed"
proof -
  have "0 \<le> refund \<and> 0 \<le> burned \<and> refund + burned = gasLimit - gasUsed"
  proof (cases "gasUsed = 0")
    case True
    with assms show ?thesis by (simp add: ComputeGasOverestimationBurn_def)
  next
    case False
    then have pos: "0 < gasUsed" using assms(2) by simp
    have lim: "0 \<le> gasLimit" "gasLimit < 2 ^ 63" using assms by auto
    define over where "over = gasLimit - 11 * gasUsed div 10"
    have w1: "wrap64 (11 * gasUsed) = 11 * gasUsed"
      using assms by (intro wrap64_nonneg) auto
    have t: "tdiv (11 * gasUsed) 10 = 11 * gasUsed div 10"
      using pos by (intro tdiv_nonneg) auto
    have w2: "wrap64 over = over"
      unfolding over_def by (rule wrap64_id) (use assms pos in \<open>auto simp: is_int64_def\<close>)
    have w3: "wrap64 (gasLimit - gasUsed) = gasLimit - gasUsed"
      using assms pos lim by (intro wrap64_nonneg) auto
    have ov: "wrap64 (gasLimit - tdiv (wrap64 (gasOveruseNum * gasUsed)) gasOveruseDenom) = over"
      using w1 t w2 by (simp add: gasOveruseNum_def gasOveruseDenom_def over_def)
    show ?thesis
    proof (cases "over < 0")
      case True
      then have "refund = gasLimit - gasUsed" "burned = 0"
        using assms(5) False w3 unfolding ComputeGasOverestimationBurn_def Let_def ov by simp_all
      with assms show ?thesis by simp
    next
      case nonneg: False
      define o' where "o' = (if over > gasUsed then gasUsed else over)"
      define burn where "burn = (gasLimit - gasUsed) * o' div gasUsed"
      have o': "0 \<le> o'" "o' \<le> gasUsed" using nonneg pos by (auto simp: o'_def)
      have "(gasLimit - gasUsed) * o' \<le> (gasLimit - gasUsed) * gasUsed"
        using o' assms by (intro mult_left_mono) auto
      then have "burn \<le> (gasLimit - gasUsed) * gasUsed div gasUsed"
        unfolding burn_def using pos by (intro zdiv_mono1)
      then have burn: "0 \<le> burn" "burn \<le> gasLimit - gasUsed"
        using pos o' assms by (auto simp: burn_def pos_imp_zdiv_nonneg_iff)
      have div: "bigDiv ((gasLimit - gasUsed) * o') gasUsed = burn"
        using assms(1) pos by (simp add: big_div_spec_def burn_def)
      have w4: "wrap64 burn = burn" and w5: "wrap64 (gasLimit - gasUsed - burn) = gasLimit - gasUsed - burn"
        using burn assms(2) lim by (auto intro!: wrap64_nonneg)
      have "ComputeGasOverestimationBurn bigDiv gasUsed gasLimit = (gasLimit - gasUsed - burn, burn)"
        unfolding ComputeGasOverestimationBurn_def Let_def ov o'_def [symmetric] w3 div w4 w5
        using False nonneg by simp
      with burn assms(5) show ?thesis by simp
    qed
  qed
  then show "0 \<le> refund" "0 \<le> burned" "refund + burned = gasLimit - gasUsed" by blast+
qed

text \<open>
  Property C18. No message pays more than it declared: for non-negative fees, with at least the
  gas limit reserved and within a range where \<^verbatim>\<open>int64\<close> does not overflow, every
  output is non-negative, the burnt fees, the tip and the refund add up to the gas limit times
  the fee cap, and refunded, burnt and used gas add up to the limit.
\<close>

theorem ComputeGasOutputs_covered:
  assumes "big_div_spec bigDiv" and "0 \<le> gasUsed" and "gasUsed \<le> gasLimit" and "11 * gasLimit < 2 ^ 63"
    and "0 \<le> baseFee" and "0 \<le> feeCap" and "0 \<le> gasPremium"
    and "out = ComputeGasOutputs bigDiv gasUsed gasLimit baseFee feeCap gasPremium chargeNetworkFee"
  shows "0 \<le> go_BaseFeeBurn out \<and> 0 \<le> go_OverEstimationBurn out \<and> 0 \<le> go_MinerPenalty out
    \<and> 0 \<le> go_MinerTip out \<and> 0 \<le> go_Refund out
    \<and> go_BaseFeeBurn out + go_OverEstimationBurn out + go_MinerTip out + go_Refund out = gasLimit * feeCap
    \<and> 0 \<le> go_GasRefund out \<and> 0 \<le> go_GasBurned out \<and> gasUsed + go_GasRefund out + go_GasBurned out = gasLimit"
proof -
  obtain refund burned where rb: "ComputeGasOverestimationBurn bigDiv gasUsed gasLimit = (refund, burned)" by fastforce
  note g = overestimation_burn [OF assms(1-4) rb]
  define pay where "pay = (if baseFee > feeCap then feeCap else baseFee)"
  define tip where "tip = (if pay + gasPremium > feeCap then feeCap - pay else gasPremium)"
  have pay: "0 \<le> pay" "pay \<le> feeCap" "pay \<le> baseFee" and tip: "0 \<le> tip" "pay + tip \<le> feeCap"
    using assms(5-7) by (auto simp: pay_def tip_def)
  have out: "go_BaseFeeBurn out = (if chargeNetworkFee then pay * gasUsed else 0)"
      "go_MinerTip out = tip * gasLimit" "go_OverEstimationBurn out = pay * burned"
      "go_MinerPenalty out = (if baseFee > feeCap then (baseFee - feeCap) * gasUsed else 0) + (baseFee - pay) * burned"
      "go_GasRefund out = refund" "go_GasBurned out = burned"
      "go_Refund out = gasLimit * feeCap - go_BaseFeeBurn out - go_MinerTip out - go_OverEstimationBurn out"
    unfolding assms(8) ComputeGasOutputs_def rb Let_def prod.case pay_def [symmetric] tip_def [symmetric]
    by (simp_all add: ZeroGasOutputs_def)
  have "pay * gasUsed + pay * burned \<le> pay * gasLimit"
    using g pay by (simp add: mult_left_mono flip: distrib_left)
  moreover have "pay * gasLimit + tip * gasLimit \<le> gasLimit * feeCap"
    using tip assms(2,3) mult_right_mono [of "pay + tip" feeCap gasLimit] by (simp add: algebra_simps)
  moreover have "0 \<le> pay * gasUsed" using pay assms(2) by simp
  ultimately have "0 \<le> go_Refund out" using out by auto
  moreover have "0 \<le> go_MinerPenalty out" using out(4) pay g(2) assms(2) by simp
  moreover have "0 \<le> go_BaseFeeBurn out" "0 \<le> go_OverEstimationBurn out" "0 \<le> go_MinerTip out"
    using out(1-3) pay tip g(2) assms(2,3) by simp_all
  ultimately show ?thesis using out(5-7) g by simp
qed

text \<open>Witness of C18: a message that over-estimates its gas, with a fee cap below the base fee.\<close>

theorem ComputeGasOutputs_covered_witness:
  "0 \<le> go_Refund (ComputeGasOutputs (div) 100 150 20 15 3 True)
    \<and> go_MinerPenalty (ComputeGasOutputs (div) 100 150 20 15 3 True) = 600"
proof -
  have d: "big_div_spec (div)" by (simp add: big_div_spec_def)
  have "go_MinerPenalty (ComputeGasOutputs (div) 100 150 20 15 3 True) = 600" by code_simp
  with ComputeGasOutputs_covered [OF d, of 100 150 20 15 3 _ True] show ?thesis by simp
qed

section \<open>The base fee moves slowly\<close>

lemma BlockGasTarget_eq: "BlockGasTarget = 5000000000"
  by (simp add: BlockGasTarget_def BlockGasLimit_def tdiv_def)

text \<open>The capped change of the base fee is one division.\<close>

lemma change_eq:
  assumes "big_div_spec bigDiv"
  shows "bigDiv (bigDiv (baseFee * delta) BlockGasTarget) BaseFeeMaxChangeDenom = baseFee * delta div (BlockGasTarget * 8)"
  using assms by (simp add: big_div_spec_def BlockGasTarget_eq BaseFeeMaxChangeDenom_def zdiv_zmult2_eq)

lemma div_between: "0 \<le> a \<Longrightarrow> 0 < b \<Longrightarrow> 0 \<le> a div b \<and> a div b \<le> (a :: int)"
  using zdiv_mono2 [of a 1 b] by (simp add: pos_imp_zdiv_nonneg_iff)

lemma wrap64_delta: "0 \<le> a \<Longrightarrow> a < 2 ^ 63 \<Longrightarrow> wrap64 (wrap64 a - BlockGasTarget) = a - BlockGasTarget"
proof -
  assume a: "0 \<le> a" "a < 2 ^ 63"
  then have "is_int64 (a - BlockGasTarget)" by (simp add: is_int64_def BlockGasTarget_eq)
  with a show ?thesis by (simp add: wrap64_nonneg wrap64_id)
qed

definition load :: "upgrades \<Rightarrow> int \<Rightarrow> int \<Rightarrow> int \<Rightarrow> int" where
  "load up gasLimitUsed noOfBlocks epoch =
     (if epoch > up_SmokeHeight up then gasLimitUsed div noOfBlocks else 5 * gasLimitUsed div (4 * noOfBlocks))"

lemma next_delta_Some:
  assumes "0 < noOfBlocks" and "4 * noOfBlocks < 2 ^ 63" and "0 \<le> gasLimitUsed" and "5 * gasLimitUsed < 2 ^ 63"
  shows "next_delta up gasLimitUsed noOfBlocks epoch = Some (load up gasLimitUsed noOfBlocks epoch - BlockGasTarget)"
proof -
  have w: "wrap64 (noOfBlocks * 4) = 4 * noOfBlocks" "wrap64 (5 * gasLimitUsed) = 5 * gasLimitUsed"
    using assms by (simp_all add: wrap64_nonneg mult.commute)
  have t: "tdiv gasLimitUsed noOfBlocks = gasLimitUsed div noOfBlocks"
      "tdiv (5 * gasLimitUsed) (4 * noOfBlocks) = 5 * gasLimitUsed div (4 * noOfBlocks)"
    using assms by (simp_all add: tdiv_nonneg)
  have "wrap64 (wrap64 (gasLimitUsed div noOfBlocks) - BlockGasTarget) = gasLimitUsed div noOfBlocks - BlockGasTarget"
    using div_between [of gasLimitUsed noOfBlocks] assms by (intro wrap64_delta) auto
  moreover have "wrap64 (wrap64 (5 * gasLimitUsed div (4 * noOfBlocks)) - BlockGasTarget) = 5 * gasLimitUsed div (4 * noOfBlocks) - BlockGasTarget"
    using div_between [of "5 * gasLimitUsed" "4 * noOfBlocks"] assms by (intro wrap64_delta) auto
  ultimately show ?thesis
    using assms(1) unfolding next_delta_def PackingEfficiencyNum_def PackingEfficiencyDenom_def Let_def w t load_def
    by simp
qed

definition capped :: "int \<Rightarrow> int" where
  "capped d = max (- BlockGasTarget) (min BlockGasTarget d)"

lemma ComputeNextBaseFee_Some:
  assumes "big_div_spec bigDiv"
    and "0 < noOfBlocks" and "4 * noOfBlocks < 2 ^ 63" and "0 \<le> gasLimitUsed" and "5 * gasLimitUsed < 2 ^ 63"
  shows "ComputeNextBaseFee bigDiv up baseFee gasLimitUsed noOfBlocks epoch =
    Some (max MinimumBaseFee (baseFee +
      baseFee * capped (load up gasLimitUsed noOfBlocks epoch - BlockGasTarget) div (BlockGasTarget * 8)))"
proof -
  let ?d = "load up gasLimitUsed noOfBlocks epoch - BlockGasTarget"
  have c: "(if (if ?d > BlockGasTarget then BlockGasTarget else ?d) < - BlockGasTarget then - BlockGasTarget
      else (if ?d > BlockGasTarget then BlockGasTarget else ?d)) = capped ?d"
    by (simp add: capped_def BlockGasTarget_eq)
  show ?thesis
    unfolding ComputeNextBaseFee_def next_delta_Some [OF assms(2-5)] option.case Let_def c change_eq [OF assms(1)]
    by (simp add: max_def)
qed

text \<open>
  Property C28. The base fee moves by at most an eighth per tipset and never falls below the
  minimum; a tipset with more gas never gives a lower fee, and blocks that are exactly on target
  leave the fee as it is. There is no panic and no overflow as long as five times the gas fits
  \<^verbatim>\<open>int64\<close>.
\<close>

theorem ComputeNextBaseFee_bounds:
  assumes "big_div_spec bigDiv" and "0 \<le> baseFee"
    and "0 < noOfBlocks" and "4 * noOfBlocks < 2 ^ 63" and "0 \<le> gas" and "gas \<le> gas'" and "5 * gas' < 2 ^ 63"
  shows "\<exists>fee fee'. ComputeNextBaseFee bigDiv up baseFee gas noOfBlocks epoch = Some fee
    \<and> ComputeNextBaseFee bigDiv up baseFee gas' noOfBlocks epoch = Some fee'
    \<and> MinimumBaseFee \<le> fee \<and> fee \<le> fee'
    \<and> baseFee + (- baseFee) div 8 \<le> fee \<and> fee' \<le> max MinimumBaseFee (baseFee + baseFee div 8)
    \<and> (epoch > up_SmokeHeight up \<and> gas = BlockGasTarget * noOfBlocks \<longrightarrow> fee = max MinimumBaseFee baseFee)"
proof -
  let ?T = "BlockGasTarget"
  have T: "0 < ?T" by (simp add: BlockGasTarget_eq)
  define d where "d = capped (load up gas noOfBlocks epoch - ?T)"
  define d' where "d' = capped (load up gas' noOfBlocks epoch - ?T)"
  have "load up gas noOfBlocks epoch \<le> load up gas' noOfBlocks epoch"
    using assms(3,6) by (simp add: load_def zdiv_mono1)
  then have d: "- ?T \<le> d" "d \<le> d'" "d' \<le> ?T"
    using T by (auto simp: d_def d'_def capped_def)
  have mono: "baseFee * x div (?T * 8) \<le> baseFee * y div (?T * 8)" if "x \<le> y" for x y
    using that assms(2) T by (intro zdiv_mono1 mult_left_mono) auto
  have ends: "baseFee * (- ?T) div (?T * 8) = (- baseFee) div 8" "baseFee * ?T div (?T * 8) = baseFee div 8"
    using T div_mult_mult1 [of ?T "- baseFee" 8] div_mult_mult1 [of ?T baseFee 8] by (simp_all add: mult.commute)
  have F: "ComputeNextBaseFee bigDiv up baseFee gas noOfBlocks epoch = Some (max MinimumBaseFee (baseFee + baseFee * d div (?T * 8)))"
      "ComputeNextBaseFee bigDiv up baseFee gas' noOfBlocks epoch = Some (max MinimumBaseFee (baseFee + baseFee * d' div (?T * 8)))"
    unfolding d_def d'_def using assms by (auto intro!: ComputeNextBaseFee_Some)
  have "d = 0" if "epoch > up_SmokeHeight up" "gas = ?T * noOfBlocks"
    using that assms(3) T by (simp add: d_def load_def capped_def)
  then show ?thesis
    using F mono [OF d(1)] mono [OF d(2)] mono [OF d(3)] unfolding ends by auto
qed

text \<open>Witness of C28: a full and an empty tipset.\<close>

theorem ComputeNextBaseFee_bounds_witness:
  "\<exists>fee fee'. ComputeNextBaseFee (div) \<lparr>up_SmokeHeight = 10, up_BreezeHeight = 5, up_BreezeGasTampingDuration = 3\<rparr> 1000 0 1 20 = Some fee
    \<and> ComputeNextBaseFee (div) \<lparr>up_SmokeHeight = 10, up_BreezeHeight = 5, up_BreezeGasTampingDuration = 3\<rparr> 1000 10000000000 1 20 = Some fee'
    \<and> 875 \<le> fee \<and> fee' \<le> 1125"
proof -
  have d: "big_div_spec (div)" by (simp add: big_div_spec_def)
  from ComputeNextBaseFee_bounds [OF d, of 1000 1 0 10000000000
      "\<lparr>up_SmokeHeight = 10, up_BreezeHeight = 5, up_BreezeGasTampingDuration = 3\<rparr>" 20]
  show ?thesis by (auto simp: MinimumBaseFee_def)
qed

end
