(* ===== verification/Rlp.thy ===== *)
theory Rlp
  imports Lotus_Prelude "HOL-Library.Word"
begin

text \<open>
  The RLP codec of the Ethereum API (chain/types/ethtypes/rlp.go). Bytes are
  \<^typ>\<open>8 word\<close>. Lengths of slices are natural numbers below \<open>2 ^ 63\<close>; the length that is read
  from the input is a signed 64-bit integer and is checked as one.
\<close>

section \<open>Data model\<close>

type_synonym byte = "8 word"

text \<open>\<^verbatim>\<open>interface{}\<close>: a byte string, a list, or a value of another type.\<close>

datatype rlp = RBytes "byte list" | RList "rlp list" | ROther

datatype rlp_error =
    RlpLengthZero | RlpType | RlpEmpty | RlpBounds | RlpNegative | RlpListLength | RlpTrailing | RlpPanic

definition maxListElements :: nat where "maxListElements = 12"

section \<open>Encoding\<close>

text \<open>\<^verbatim>\<open>binary.Write\<close> of an integer in \<open>k\<close> big-endian bytes.\<close>

fun be_bytes :: "nat \<Rightarrow> nat \<Rightarrow> byte list" where
  "be_bytes 0 n = []"
| "be_bytes (Suc k) n = be_bytes k (n div 256) @ [word_of_nat (n mod 256)]"

definition encodeLength :: "nat \<Rightarrow> rlp_error + byte list" where
  "encodeLength len =
     (if len = 0 then Inl RlpLengthZero
      else
        let buf = be_bytes 8 len
        in case dropWhile (\<lambda>b. b = 0) buf of
             [] \<Rightarrow> Inr (drop (length buf - 1) buf)
           | res \<Rightarrow> Inr res)"

fun encodeRLP :: "rlp \<Rightarrow> rlp_error + byte list"
  and encodeRLPListItems :: "rlp list \<Rightarrow> rlp_error + byte list" where
  "encodeRLP (RBytes data) =
     (if length data = 1 \<and> hd data \<le> 0x7f then Inr data
      else if length data \<le> 55 then Inr (word_of_nat (0x80 + length data) # data)
      else case encodeLength (length data) of
        Inl err \<Rightarrow> Inl err
      | Inr lenInBytes \<Rightarrow> Inr (word_of_nat (0xb7 + length lenInBytes) # lenInBytes @ data))"
| "encodeRLP (RList items) =
     (case encodeRLPListItems items of
        Inl err \<Rightarrow> Inl err
      | Inr encodedList \<Rightarrow>
          (if length encodedList \<le> 55 then Inr (word_of_nat (0xc0 + length encodedList) # encodedList)
           else case encodeLength (length encodedList) of
             Inl err \<Rightarrow> Inl err
           | Inr lenInBytes \<Rightarrow> Inr (word_of_nat (0xf7 + length lenInBytes) # lenInBytes @ encodedList)))"
| "encodeRLP ROther = Inl RlpType"
| "encodeRLPListItems [] = Inr []"
| "encodeRLPListItems (x # xs) =
     (case encodeRLP x of
        Inl err \<Rightarrow> Inl err
      | Inr encoded \<Rightarrow>
          (case encodeRLPListItems xs of
             Inl err \<Rightarrow> Inl err
           | Inr res \<Rightarrow> Inr (encoded @ res)))"

section \<open>Decoding\<close>

fun be_value :: "byte list \<Rightarrow> nat" where
  "be_value [] = 0"
| "be_value (b # bs) = unat b * 256 ^ length bs + be_value bs"

definition decodeLength :: "byte list \<Rightarrow> nat \<Rightarrow> rlp_error + nat" where
  "decodeLength data lenInBytes =
     (if lenInBytes > length data \<or> lenInBytes > 8 then Inl RlpBounds
      else
        let decodedLength = wrap64 (int (be_value (replicate (8 - lenInBytes) 0 @ take lenInBytes data)))
        in if decodedLength < 0 then Inl RlpNegative
           else
             let totalLength = wrap64 (int lenInBytes + decodedLength)
             in if totalLength < 0 \<or> totalLength > int (length data) then Inl RlpBounds
                else Inr (nat decodedLength))"

text \<open>
  \<open>decodeListElems\<close> is the loop with its counters \<open>i\<close>, \<open>totalConsumed\<close> and the list so
  far; slicing past the end of the data is \<open>RlpPanic\<close>.
\<close>

function (sequential) decodeRLP :: "byte list \<Rightarrow> rlp_error + rlp \<times> nat"
  and decodeListElems :: "byte list \<Rightarrow> nat \<Rightarrow> nat \<Rightarrow> nat \<Rightarrow> rlp list \<Rightarrow> rlp_error + rlp list" where
  "decodeRLP [] = Inl RlpEmpty"
| "decodeRLP (b # data) =
     (if b \<ge> 0xf8
      then
        let listLenInBytes = unat b - 0xf7
        in case decodeLength data listLenInBytes of
             Inl err \<Rightarrow> Inl err
           | Inr listLen \<Rightarrow>
               (if 1 + listLenInBytes + listLen > length (b # data) then Inl RlpBounds
                else case decodeListElems (drop listLenInBytes data) listLen 0 0 [] of
                  Inl err \<Rightarrow> Inl err
                | Inr result \<Rightarrow> Inr (RList result, 1 + listLenInBytes + listLen))
      else if b \<ge> 0xc0
      then
        let len = unat b - 0xc0
        in case decodeListElems data len 0 0 [] of
             Inl err \<Rightarrow> Inl err
           | Inr result \<Rightarrow> Inr (RList result, 1 + len)
      else if b \<ge> 0xb8
      then
        let strLenInBytes = unat b - 0xb7
        in case decodeLength data strLenInBytes of
             Inl err \<Rightarrow> Inl err
           | Inr strLen \<Rightarrow>
               (if 1 + strLenInBytes + strLen > length (b # data) then Inl RlpBounds
                else Inr (RBytes (take strLen (drop strLenInBytes data)), 1 + strLenInBytes + strLen))
      else if b \<ge> 0x80
      then
        let len = unat b - 0x80
        in if 1 + len > length (b # data) then Inl RlpBounds
           else Inr (RBytes (take len data), 1 + len)
      else Inr (RBytes [b], 1))"
| "decodeListElems data len i totalConsumed result =
     (if totalConsumed < len \<and> i < maxListElements
      then
        if totalConsumed > length data then Inl RlpPanic
        else case decodeRLP (drop totalConsumed data) of
          Inl err \<Rightarrow> Inl err
        | Inr (elem, consumed) \<Rightarrow> decodeListElems data len (Suc i) (totalConsumed + consumed) (result @ [elem])
      else if totalConsumed \<noteq> len then Inl RlpListLength
      else Inr result)"
  by pat_completeness auto
termination
  by (relation "measures [\<lambda>x. case x of Inl d \<Rightarrow> length d | Inr (d, _) \<Rightarrow> length d,
                          \<lambda>x. case x of Inl _ \<Rightarrow> 0 | Inr _ \<Rightarrow> 1,
                          \<lambda>x. case x of Inl _ \<Rightarrow> 0 | Inr (_, _, i, _) \<Rightarrow> maxListElements - i]") auto

definition DecodeRLP :: "byte list \<Rightarrow> rlp_error + rlp" where
  "DecodeRLP data =
     (case decodeRLP data of
        Inl err \<Rightarrow> Inl err
      | Inr (res, consumed) \<Rightarrow> if consumed \<noteq> length data then Inl RlpTrailing else Inr res)"

declare decodeRLP.simps(2) [simp del] decodeListElems.simps [simp del]

section \<open>Bytes and lengths\<close>

lemma unat_byte: "n < 256 \<Longrightarrow> unat (word_of_nat n :: byte) = n"
  by (simp add: unsigned_of_nat take_bit_eq_mod)

lemma length_be_bytes [simp]: "length (be_bytes k n) = k"
  by (induction k arbitrary: n) auto

lemma be_value_append: "be_value (xs @ ys) = be_value xs * 256 ^ length ys + be_value ys"
  by (induction xs) (auto simp: algebra_simps power_add)

lemma be_value_be_bytes: "n < 256 ^ k \<Longrightarrow> be_value (be_bytes k n) = n"
proof (induction k arbitrary: n)
  case (Suc k)
  have "n div 256 < 256 ^ k" using Suc.prems by (simp add: less_mult_imp_div_less mult.commute)
  from Suc.IH [OF this] show ?case
    by (simp add: be_value_append unat_byte)
qed simp

lemma be_value_zeros [simp]: "be_value (replicate k 0 @ xs) = be_value xs"
  by (induction k) auto

lemma be_value_skip: "\<forall>b \<in> set zs. b = 0 \<Longrightarrow> be_value (zs @ xs) = be_value xs"
  by (induction zs) auto

lemma wrap64_overflow: "2 ^ 63 \<le> x \<Longrightarrow> x < 2 ^ 64 \<Longrightarrow> wrap64 x < 0"
proof -
  assume x: "2 ^ 63 \<le> x" "x < 2 ^ 64"
  have "(x + 2 ^ 63) mod 2 ^ 64 = (x + 2 ^ 63 - 2 ^ 64) mod 2 ^ 64" by (rule minus_mod_self2 [symmetric])
  also have "\<dots> = x + 2 ^ 63 - 2 ^ 64" by (rule mod_pos_pos_trivial) (use x in auto)
  finally show ?thesis using x by (simp add: wrap64_def)
qed

text \<open>A length that is accepted lies within the data; the addition cannot overflow unnoticed.\<close>

lemma decodeLength_bound:
  assumes "decodeLength data l = Inr n"
  shows "l + n \<le> length data" and "l \<le> 8"
proof -
  define d where "d = wrap64 (int (be_value (replicate (8 - l) 0 @ take l data)))"
  have A: "l \<le> length data" "l \<le> 8" "0 \<le> d" "0 \<le> wrap64 (int l + d)" "wrap64 (int l + d) \<le> int (length data)" "n = nat d"
    using assms unfolding decodeLength_def Let_def d_def [symmetric] by (auto split: if_splits)
  have "d < 2 ^ 63" using wrap64_bounds unfolding d_def is_int64_def by blast
  moreover have "int l + d < 2 ^ 63"
  proof (rule ccontr)
    assume "\<not> int l + d < 2 ^ 63"
    then have "wrap64 (int l + d) < 0" using A(2) \<open>d < 2 ^ 63\<close> by (intro wrap64_overflow) auto
    with A(4) show False by simp
  qed
  then have "wrap64 (int l + d) = int l + d" using A by (intro wrap64_id) (simp add: is_int64_def)
  with A show "l + n \<le> length data" "l \<le> 8" by auto
qed

lemma decode_bounds:
  "decodeRLP d \<noteq> Inl RlpPanic \<and> (\<forall>v c. decodeRLP d = Inr (v, c) \<longrightarrow> 1 \<le> c \<and> c \<le> length d)"
  "tc \<le> length e \<Longrightarrow> decodeListElems e len i tc res \<noteq> Inl RlpPanic
     \<and> (\<forall>r. decodeListElems e len i tc res = Inr r \<longrightarrow> len \<le> length e)"
proof (induction d and e len i tc res rule: decodeRLP_decodeListElems.induct)
  case (2 b data)
  have "decodeLength data k \<noteq> Inl RlpPanic" for k by (simp add: decodeLength_def Let_def)
  with 2 show ?case
    unfolding decodeRLP.simps(2) Let_def
    by (auto split: if_splits sum.splits dest: decodeLength_bound)
next
  case (3 data len i tc res)
  show ?case
  proof (cases "tc < len \<and> i < maxListElements")
    case False
    with 3 show ?thesis by (auto simp: decodeListElems.simps [of data len i tc])
  next
    case True
    show ?thesis
    proof (cases "decodeRLP (drop tc data)")
      case (Inl err)
      with 3 True show ?thesis by (auto simp: decodeListElems.simps [of data len i tc])
    next
      case (Inr p)
      obtain el c where p: "p = (el, c)" by fastforce
      with 3 True Inr have "c \<le> length (drop tc data)" by auto
      then have "tc + c \<le> length data" using "3.prems" by simp
      with 3 True Inr p show ?thesis by (simp add: decodeListElems.simps [of data len i tc])
    qed
  qed
qed simp

text \<open>
  Property C21. Decoding any input, however malformed, ends without a panic, and what it reports as
  consumed is at least one byte and lies within the input.
\<close>

theorem decodeRLP_safe:
  "decodeRLP data \<noteq> Inl RlpPanic \<and> DecodeRLP data \<noteq> Inl RlpPanic
    \<and> (\<forall>v c. decodeRLP data = Inr (v, c) \<longrightarrow> 1 \<le> c \<and> c \<le> length data)"
  using decode_bounds(1) [of data] by (auto simp: DecodeRLP_def split: sum.splits)

text \<open>Witness of C21: a list header that promises five bytes in an input that has two.\<close>

theorem decodeRLP_safe_witness: "decodeRLP [0xc5, 1, 2] \<noteq> Inl RlpPanic \<and> decodeRLP [0xc5, 1, 2] = Inl RlpEmpty"
  using decodeRLP_safe [of "[0xc5, 1, 2]"] by (simp add: decodeRLP.simps(2) decodeListElems.simps maxListElements_def word_le_nat_alt)

section \<open>Round trip\<close>

text \<open>Every list in the value has at most \<open>maxListElements\<close> elements, which the decoder requires.\<close>

fun rlp_ok :: "rlp \<Rightarrow> bool" where
  "rlp_ok (RBytes _) = True"
| "rlp_ok (RList items) = (length items \<le> maxListElements \<and> list_all rlp_ok items)"
| "rlp_ok ROther = True"

lemma encodeLength_spec:
  assumes "encodeLength n = Inr l" and "n < 2 ^ 63"
  shows "1 \<le> length l" and "length l \<le> 8" and "be_value (replicate (8 - length l) 0 @ l) = n" and "0 < n"
proof -
  have n: "0 < n" using assms(1) by (auto simp: encodeLength_def split: if_splits)
  have v: "be_value (be_bytes 8 n) = n" using assms(2) by (intro be_value_be_bytes) simp
  define z where "z = takeWhile (\<lambda>b. b = 0) (be_bytes 8 n)"
  define r where "r = dropWhile (\<lambda>b. b = 0) (be_bytes 8 n)"
  have zr: "be_bytes 8 n = z @ r" by (simp add: z_def r_def)
  have "be_value (z @ r) = be_value r" unfolding z_def by (rule be_value_skip) (auto dest: set_takeWhileD)
  then have vr: "be_value r = n" using v zr by simp
  then have "r \<noteq> []" using n by auto
  then have l: "l = r" using assms(1) n by (auto simp: encodeLength_def Let_def r_def split: list.splits if_splits)
  have "length z + length r = 8" using zr by (metis length_append length_be_bytes)
  then show "1 \<le> length l" "length l \<le> 8" "0 < n" using \<open>r \<noteq> []\<close> l n by (auto simp: Suc_le_eq)
  show "be_value (replicate (8 - length l) 0 @ l) = n"
    using vr l by simp
qed

lemma decodeLength_encodeLength:
  assumes "encodeLength n = Inr l" and "n \<le> length rest" and "length (l @ rest) < 2 ^ 63"
  shows "decodeLength (l @ rest) (length l) = Inr n"
proof -
  have n: "n < 2 ^ 63" using assms(2,3) by simp
  note e = encodeLength_spec [OF assms(1) n]
  have w: "wrap64 (int n) = int n" using n by (intro wrap64_id) (simp add: is_int64_def)
  have w': "wrap64 (int (length l) + int n) = int (length l) + int n"
    using assms(2,3) by (intro wrap64_id) (simp add: is_int64_def)
  show ?thesis
    unfolding decodeLength_def Let_def using e(2,3) w w' assms(2) by simp
qed

lemma encodeRLP_not_empty: "encodeRLP v = Inr bs \<Longrightarrow> bs \<noteq> []"
  by (cases v) (auto split: if_splits sum.splits)

lemma decode_string_short:
  assumes "unat b = 0x80 + length data" and "length data \<le> 55"
  shows "decodeRLP (b # data @ rest) = Inr (RBytes data, 1 + length data)"
  unfolding decodeRLP.simps(2) Let_def using assms by (simp add: word_le_nat_alt)

lemma decode_string_long:
  assumes "encodeLength (length data) = Inr l" and "length (l @ data @ rest) < 2 ^ 63" and "unat b = 0xb7 + length l"
  shows "decodeRLP (b # l @ data @ rest) = Inr (RBytes data, 1 + length l + length data)"
proof -
  have len: "length data < 2 ^ 63" using assms(2) by simp
  note e = encodeLength_spec [OF assms(1) len]
  have "decodeLength (l @ data @ rest) (length l) = Inr (length data)"
    using decodeLength_encodeLength [OF assms(1), of "data @ rest"] assms(2) by simp
  with e(1,2) assms(3) show ?thesis
    unfolding decodeRLP.simps(2) Let_def by (simp add: word_le_nat_alt)
qed

lemma decode_list_short:
  assumes "decodeListElems (enc @ rest) (length enc) 0 0 [] = Inr items"
    and "length enc \<le> 55" and "unat b = 0xc0 + length enc"
  shows "decodeRLP (b # enc @ rest) = Inr (RList items, 1 + length enc)"
  unfolding decodeRLP.simps(2) Let_def using assms by (simp add: word_le_nat_alt)

lemma decode_list_long:
  assumes "decodeListElems (enc @ rest) (length enc) 0 0 [] = Inr items"
    and "encodeLength (length enc) = Inr l" and "length (l @ enc @ rest) < 2 ^ 63" and "unat b = 0xf7 + length l"
  shows "decodeRLP (b # l @ enc @ rest) = Inr (RList items, 1 + length l + length enc)"
proof -
  have len: "length enc < 2 ^ 63" using assms(3) by simp
  note e = encodeLength_spec [OF assms(2) len]
  have "decodeLength (l @ enc @ rest) (length l) = Inr (length enc)"
    using decodeLength_encodeLength [OF assms(2), of "enc @ rest"] assms(3) by simp
  with e(1,2) assms(1,4) show ?thesis
    unfolding decodeRLP.simps(2) Let_def by (simp add: word_le_nat_alt)
qed

lemma decode_encode:
  "encodeRLP v = Inr bs \<Longrightarrow> rlp_ok v \<Longrightarrow> length (bs @ rest) < 2 ^ 63 \<Longrightarrow> decodeRLP (bs @ rest) = Inr (v, length bs)"
  "encodeRLPListItems items = Inr bs \<Longrightarrow> list_all rlp_ok items \<Longrightarrow> i + length items \<le> maxListElements \<Longrightarrow>
     length (pre @ bs @ rest) < 2 ^ 63 \<Longrightarrow>
     decodeListElems (pre @ bs @ rest) (length pre + length bs) i (length pre) res = Inr (res @ items)"
proof (induction v and items arbitrary: bs rest and bs rest i pre res rule: encodeRLP_encodeRLPListItems.induct)
  case (1 data)
  show ?case
  proof (cases "length data = 1 \<and> hd data \<le> 0x7f")
    case True
    then obtain b where b: "data = [b]" "b \<le> 0x7f" by (cases data) auto
    then have "\<not> 0x80 \<le> b" "\<not> 0xb8 \<le> b" "\<not> 0xc0 \<le> b" "\<not> 0xf8 \<le> b" by (auto simp: word_le_nat_alt)
    moreover have "bs = [b]" using "1.prems"(1) b by auto
    ultimately show ?thesis using b(1) by (simp add: decodeRLP.simps(2))
  next
    case False
    show ?thesis
    proof (cases "length data \<le> 55")
      case True
      with False 1 have "bs = word_of_nat (0x80 + length data) # data" by auto
      with decode_string_short [OF unat_byte True, of rest] True show ?thesis by simp
    next
      case long: False
      with False 1 obtain l where l: "encodeLength (length data) = Inr l"
          "bs = word_of_nat (0xb7 + length l) # l @ data"
        by (auto split: sum.splits)
      have "length data < 2 ^ 63" using l(2) "1.prems"(3) by simp
      note e = encodeLength_spec [OF l(1) this]
      have "unat (word_of_nat (0xb7 + length l) :: byte) = 0xb7 + length l" using e by (intro unat_byte) simp
      from decode_string_long [OF l(1) _ this, of rest] "1.prems"(3) l(2) show ?thesis by simp
    qed
  qed
next
  case (2 items)
  then obtain enc where enc: "encodeRLPListItems items = Inr enc" by (auto split: sum.splits)
  show ?case
  proof (cases "length enc \<le> 55")
    case True
    with 2 enc have bs: "bs = word_of_nat (0xc0 + length enc) # enc" by simp
    have "decodeListElems (enc @ rest) (length enc) 0 0 [] = Inr items"
      using "2.IH" [OF enc, of 0 "[]" rest "[]"] 2 bs by simp
    from decode_list_short [OF this True unat_byte] bs True show ?thesis by simp
  next
    case False
    with 2 enc obtain l where l: "encodeLength (length enc) = Inr l" "bs = word_of_nat (0xf7 + length l) # l @ enc"
      by (auto split: sum.splits)
    have "decodeListElems (enc @ rest) (length enc) 0 0 [] = Inr items"
      using "2.IH" [OF enc, of 0 "[]" rest "[]"] 2 l by simp
    moreover have "length enc < 2 ^ 63" using l(2) "2.prems"(3) by simp
    note e = encodeLength_spec [OF l(1) this]
    have "unat (word_of_nat (0xf7 + length l) :: byte) = 0xf7 + length l" using e by (intro unat_byte) simp
    ultimately show ?thesis using decode_list_long [OF _ l(1), of rest items] "2.prems"(3) l(2) by simp
  qed
next
  case 3
  then show ?case by simp
next
  case 4
  then show ?case by (simp add: decodeListElems.simps)
next
  case (5 x xs)
  then obtain e r where e: "encodeRLP x = Inr e" and r: "encodeRLPListItems xs = Inr r" and bs: "bs = e @ r"
    by (auto split: sum.splits)
  have ne: "e \<noteq> []" by (rule encodeRLP_not_empty [OF e])
  have dx: "decodeRLP (e @ r @ rest) = Inr (x, length e)"
    using "5.IH"(1) [OF e, of "r @ rest"] 5 bs by simp
  have "decodeListElems ((pre @ e) @ r @ rest) (length (pre @ e) + length r) (Suc i) (length (pre @ e)) (res @ [x])
      = Inr ((res @ [x]) @ xs)"
    using "5.IH"(2) [OF e r, of "Suc i" "pre @ e" rest "res @ [x]"] 5 bs by simp
  then show ?case
    using ne dx "5.prems"(3) bs by (simp add: decodeListElems.simps [of _ _ i] add.assoc)
qed

text \<open>
  Property C19. Round trip: a value whose lists have at most \<open>maxListElements\<close> elements and
  whose encoding is shorter than \<open>2 ^ 63\<close> bytes decodes to itself, also when more bytes follow.
\<close>

theorem DecodeRLP_EncodeRLP:
  assumes "encodeRLP v = Inr bs" and "rlp_ok v" and "length bs < 2 ^ 63"
  shows "DecodeRLP bs = Inr v
    \<and> (length (bs @ rest) < 2 ^ 63 \<longrightarrow> decodeRLP (bs @ rest) = Inr (v, length bs))"
  using decode_encode(1) [OF assms(1,2), of "[]"] decode_encode(1) [OF assms(1,2), of rest] assms(3)
  by (simp add: DecodeRLP_def)

text \<open>Witness of C19: a list of a short string and an empty list.\<close>

theorem DecodeRLP_EncodeRLP_witness:
  "DecodeRLP [0xc4, 0x82, 1, 2, 0xc0] = Inr (RList [RBytes [1, 2], RList []])"
proof -
  have "encodeRLP (RList [RBytes [1, 2], RList []]) = Inr [0xc4, 0x82, 1, 2, 0xc0]" by simp
  from DecodeRLP_EncodeRLP [OF this] show ?thesis by (simp add: maxListElements_def)
qed

end
