(* ===== verification/Fr32.thy ===== *)
theory Fr32
  imports Lotus_Prelude
begin

text \<open>
  Fr32 padding of piece data (storage/sealer/fr32/fr32.go): 127 bytes are spread over 128 so
  that every 32 byte element has its two highest bits clear. Bytes are 8-bit words; the loops over an
  array are recursions over the slice they walk; an index or slice out of range is a panic,
  \<open>None\<close>.
\<close>

unbundle bit_operations_syntax

type_synonym byte = "8 word"

section \<open>Chunks\<close>

text \<open>
  \<^verbatim>\<open>out[i] = (v << l) | t; t = v >> r\<close> over a slice.
\<close>

fun shift_loop :: "nat \<Rightarrow> nat \<Rightarrow> byte list \<Rightarrow> byte \<Rightarrow> byte list" where
  "shift_loop l r [] t = []"
| "shift_loop l r (v # vs) t = (push_bit l v OR t) # shift_loop l r vs (drop_bit r v)"

text \<open>\<^verbatim>\<open>out[i] &= 0x3f\<close> at the last index of a slice.\<close>

definition mask_last :: "byte list \<Rightarrow> byte list" where
  "mask_last xs = xs[length xs - 1 := last xs AND 0x3f]"

text \<open>One chunk of \<open>pad\<close>: the 127 bytes of \<open>inp\<close> to 128 bytes.\<close>

definition pad_chunk :: "byte list \<Rightarrow> byte list" where
  "pad_chunk inp =
     (let b31 = inp ! 31;
          a1 = take 31 inp @ [b31 AND 0x3f];
          s2 = take 32 (drop 32 inp);
          a2 = mask_last (shift_loop 2 6 s2 (drop_bit 6 b31));
          s3 = take 32 (drop 64 inp);
          a3 = mask_last (shift_loop 4 4 s3 (drop_bit 4 (last s2)));
          s4 = take 31 (drop 96 inp);
          a4 = shift_loop 6 2 s4 (drop_bit 2 (last s3))
      in a1 @ a2 @ a3 @ a4 @ [drop_bit 2 (last s4) AND 0x3f])"

text \<open>
  \<^verbatim>\<open>out[i] = at >> r; out[i] |= next << l; at = next\<close> over the following bytes \<^verbatim>\<open>next\<close>.
\<close>

fun unshift_loop :: "nat \<Rightarrow> nat \<Rightarrow> byte \<Rightarrow> byte list \<Rightarrow> byte list" where
  "unshift_loop r l a [] = []"
| "unshift_loop r l a (nxt # ns) = (drop_bit r a OR push_bit l nxt) # unshift_loop r l nxt ns"

text \<open>\<^verbatim>\<open>out[i] ^= (at << l) ^ (at << l')\<close> at the last index of a slice.\<close>

definition xor_last :: "byte list \<Rightarrow> byte \<Rightarrow> nat \<Rightarrow> nat \<Rightarrow> byte list" where
  "xor_last xs a l l' = xs[length xs - 1 := last xs XOR (push_bit l a XOR push_bit l' a)]"

text \<open>One chunk of \<open>unpad\<close>: the 128 bytes of \<open>inp\<close> to 127 bytes.\<close>

definition unpad_chunk :: "byte list \<Rightarrow> byte list" where
  "unpad_chunk inp =
     (let o1 = take 32 inp;
          a32 = inp ! 32;
          o1' = o1[31 := o1 ! 31 OR push_bit 6 a32];
          o2 = unshift_loop 2 6 a32 (take 32 (drop 33 inp));
          a64 = inp ! 64;
          o2' = xor_last o2 a64 6 4;
          o3 = unshift_loop 4 4 a64 (take 32 (drop 65 inp));
          a96 = inp ! 96;
          o3' = xor_last o3 a96 4 2;
          o4 = unshift_loop 6 2 a96 (take 31 (drop 97 inp))
      in o1' @ o2' @ o3' @ o4)"

section \<open>Loops over chunks and threads\<close>

definition chunk :: "nat \<Rightarrow> 'a list \<Rightarrow> nat \<Rightarrow> 'a list" where
  "chunk n xs c = take n (drop (n * c) xs)"

text \<open>
  \<open>pad\<close> and \<open>unpad\<close> take the unpadded and the padded slice and return both; the bytes that
  are not reached keep their value.
\<close>

definition pad :: "byte list \<Rightarrow> byte list \<Rightarrow> (byte list \<times> byte list) option" where
  "pad inp out =
     (let chunks = length out div 128
      in if length inp < 127 * chunks then None
         else Some (inp, concat (map (\<lambda>c. pad_chunk (chunk 127 inp c)) [0..<chunks]) @ drop (128 * chunks) out))"

definition unpad :: "byte list \<Rightarrow> byte list \<Rightarrow> (byte list \<times> byte list) option" where
  "unpad out inp =
     (let chunks = length inp div 128
      in if length out < 127 * chunks then None
         else Some (concat (map (\<lambda>c. unpad_chunk (chunk 128 inp c)) [0..<chunks]) @ drop (127 * chunks) out, inp))"

definition MTTresh :: nat where "MTTresh = 512 * 1024"

text \<open>\<^verbatim>\<open>bits.Len32\<close>.\<close>

fun Len32 :: "nat \<Rightarrow> nat" where
  "Len32 n = (if n = 0 then 0 else Suc (Len32 (n div 2)))"

declare Len32.simps [simp del]

text \<open>\<open>ncpu\<close> is \<^verbatim>\<open>runtime.NumCPU()\<close>.\<close>

definition mtChunkCount :: "nat \<Rightarrow> nat \<Rightarrow> nat" where
  "mtChunkCount ncpu usz =
     (let threads = usz div MTTresh;
          threads' = (if threads > ncpu then 2 ^ Len32 ncpu else threads)
      in if threads' = 0 then 1 else if threads' > 32 then 32 else threads')"

definition slice :: "nat \<Rightarrow> nat \<Rightarrow> 'a list \<Rightarrow> 'a list option" where
  "slice a b xs = (if a \<le> b \<and> b \<le> length xs then Some (take (b - a) (drop a xs)) else None)"

text \<open>
  \<open>mt\<close>: the goroutines work on disjoint slices, so their order does not matter. \<open>unpadded\<close> is
  \<^verbatim>\<open>abi.PaddedPieceSize.Unpadded\<close>.
\<close>

definition mt_part ::
  "(nat \<Rightarrow> nat) \<Rightarrow> nat \<Rightarrow> byte list \<Rightarrow> byte list \<Rightarrow> (byte list \<Rightarrow> byte list \<Rightarrow> (byte list \<times> byte list) option)
     \<Rightarrow> nat \<Rightarrow> (byte list \<times> byte list) option" where
  "mt_part unpadded threadBytes un pd opr thread =
     (let start = threadBytes * thread;
          end1 = start + threadBytes
      in case (slice (unpadded start) (unpadded end1) un, slice start end1 pd) of
           (Some u, Some p) \<Rightarrow> opr u p
         | _ \<Rightarrow> None)"

definition mt ::
  "(nat \<Rightarrow> nat) \<Rightarrow> nat \<Rightarrow> byte list \<Rightarrow> byte list \<Rightarrow> nat \<Rightarrow> (byte list \<Rightarrow> byte list \<Rightarrow> (byte list \<times> byte list) option)
     \<Rightarrow> (byte list \<times> byte list) option" where
  "mt unpadded ncpu un pd padLen opr =
     (let threads = mtChunkCount ncpu padLen;
          threadBytes = padLen div threads
      in case those (map (mt_part unpadded threadBytes un pd opr) [0..<threads]) of
           None \<Rightarrow> None
         | Some rs \<Rightarrow>
             Some (concat (map fst rs) @ drop (unpadded (threadBytes * threads)) un,
                   concat (map snd rs) @ drop (threadBytes * threads) pd))"

definition Pad :: "(nat \<Rightarrow> nat) \<Rightarrow> nat \<Rightarrow> byte list \<Rightarrow> byte list \<Rightarrow> byte list option" where
  "Pad unpadded ncpu inp out =
     map_option snd (if length out > MTTresh then mt unpadded ncpu inp out (length out) pad else pad inp out)"

definition Unpad :: "(nat \<Rightarrow> nat) \<Rightarrow> nat \<Rightarrow> byte list \<Rightarrow> byte list \<Rightarrow> byte list option" where
  "Unpad unpadded ncpu inp out =
     map_option fst (if length inp > MTTresh then mt unpadded ncpu out inp (length inp) unpad else unpad out inp)"

section \<open>One chunk\<close>

lemma mask6: "(0x3f :: byte) = mask 6"
  by (simp add: mask_eq_exp_minus_1)

lemma bit_below_8: "n < 8 \<Longrightarrow> n = 0 \<or> n = 1 \<or> n = 2 \<or> n = 3 \<or> n = 4 \<or> n = 5 \<or> n = 6 \<or> n = (7 :: nat)"
  by auto

lemma round_31: "(a AND 0x3f) OR push_bit 6 (push_bit 2 b OR drop_bit 6 a) = (a :: byte)"
  unfolding mask6 by (rule bit_word_eqI) (auto simp: bit_simps simp flip: numeral_2_eq_2 numeral_3_eq_3 dest!: bit_below_8)

lemma round_2: "drop_bit 2 (push_bit 2 v OR drop_bit 6 a) OR push_bit 6 (push_bit 2 w OR drop_bit 6 v) = (v :: byte)"
  by (rule bit_word_eqI) (auto simp: bit_simps simp flip: numeral_2_eq_2 numeral_3_eq_3 dest!: bit_below_8)

lemma round_2_masked:
  "drop_bit 2 (push_bit 2 v OR drop_bit 6 a) OR push_bit 6 ((push_bit 2 w OR drop_bit 6 v) AND 0x3f) = (v :: byte)"
  unfolding mask6 by (rule bit_word_eqI) (auto simp: bit_simps simp flip: numeral_2_eq_2 numeral_3_eq_3 dest!: bit_below_8)

lemma round_63:
  fixes v a w :: byte
  defines "q \<equiv> push_bit 4 w OR drop_bit 4 v"
  shows "(drop_bit 2 ((push_bit 2 v OR drop_bit 6 a) AND 0x3f) OR push_bit 6 q) XOR (push_bit 6 q XOR push_bit 4 q) = v"
  unfolding mask6 q_def
  by (rule bit_word_eqI) (auto simp: bit_simps simp flip: numeral_2_eq_2 numeral_3_eq_3 dest!: bit_below_8)

lemma round_4: "drop_bit 4 (push_bit 4 v OR drop_bit 4 a) OR push_bit 4 (push_bit 4 w OR drop_bit 4 v) = (v :: byte)"
  by (rule bit_word_eqI) (auto simp: bit_simps simp flip: numeral_2_eq_2 numeral_3_eq_3 dest!: bit_below_8)

lemma round_4_masked:
  "drop_bit 4 (push_bit 4 v OR drop_bit 4 a) OR push_bit 4 ((push_bit 4 w OR drop_bit 4 v) AND 0x3f) = (v :: byte)"
  unfolding mask6 by (rule bit_word_eqI) (auto simp: bit_simps simp flip: numeral_2_eq_2 numeral_3_eq_3 dest!: bit_below_8)

lemma round_95:
  fixes v a w :: byte
  defines "q \<equiv> push_bit 6 w OR drop_bit 2 v"
  shows "(drop_bit 4 ((push_bit 4 v OR drop_bit 4 a) AND 0x3f) OR push_bit 4 q) XOR (push_bit 4 q XOR push_bit 2 q) = v"
  unfolding mask6 q_def
  by (rule bit_word_eqI) (auto simp: bit_simps simp flip: numeral_2_eq_2 numeral_3_eq_3 dest!: bit_below_8)

lemma round_6: "drop_bit 6 (push_bit 6 v OR drop_bit 2 a) OR push_bit 2 (push_bit 6 w OR drop_bit 2 v) = (v :: byte)"
  by (rule bit_word_eqI) (auto simp: bit_simps simp flip: numeral_2_eq_2 numeral_3_eq_3 dest!: bit_below_8)

lemma round_6_last: "drop_bit 6 (push_bit 6 v OR drop_bit 2 a) OR push_bit 2 (drop_bit 2 v AND 0x3f) = (v :: byte)"
  unfolding mask6 by (rule bit_word_eqI) (auto simp: bit_simps simp flip: numeral_2_eq_2 numeral_3_eq_3 dest!: bit_below_8)

lemma length_shift_loop [simp]: "length (shift_loop l r vs t) = length vs"
  by (induction l r vs t rule: shift_loop.induct) simp_all

lemma nth_shift_loop [simp]:
  "i < length vs \<Longrightarrow> shift_loop l r vs t ! i = push_bit l (vs ! i) OR (if i = 0 then t else drop_bit r (vs ! (i - 1)))"
proof (induction l r vs t arbitrary: i rule: shift_loop.induct)
  case (2 l r v vs t)
  then show ?case by (cases i) (auto simp: nth_Cons split: nat.split)
qed simp

lemma length_unshift_loop [simp]: "length (unshift_loop r l a ns) = length ns"
  by (induction r l a ns rule: unshift_loop.induct) simp_all

lemma nth_unshift_loop [simp]:
  "i < length ns \<Longrightarrow> unshift_loop r l a ns ! i = drop_bit r (if i = 0 then a else ns ! (i - 1)) OR push_bit l (ns ! i)"
proof (induction r l a ns arbitrary: i rule: unshift_loop.induct)
  case (2 r l a nxt ns)
  then show ?case by (cases i) (auto simp: nth_Cons split: nat.split)
qed simp

lemma length_mask_last [simp]: "length (mask_last xs) = length xs"
  by (simp add: mask_last_def)

lemma nth_mask_last [simp]:
  "i < length xs \<Longrightarrow> mask_last xs ! i = (if Suc i = length xs then xs ! i AND 0x3f else xs ! i)"
  by (cases xs rule: rev_cases) (auto simp: mask_last_def nth_append)

lemma length_xor_last [simp]: "length (xor_last xs a l l') = length xs"
  by (simp add: xor_last_def)

lemma nth_xor_last [simp]:
  "i < length xs \<Longrightarrow> xor_last xs a l l' ! i =
     (if Suc i = length xs then xs ! i XOR (push_bit l a XOR push_bit l' a) else xs ! i)"
  by (cases xs rule: rev_cases) (auto simp: xor_last_def nth_append)

lemma length_pad_chunk: "length inp = 127 \<Longrightarrow> length (pad_chunk inp) = 128"
  by (simp add: pad_chunk_def Let_def)

lemma length_unpad_chunk: "length inp = 128 \<Longrightarrow> length (unpad_chunk inp) = 127"
  by (simp add: unpad_chunk_def Let_def)

lemma last_slice: "b < length xs \<Longrightarrow> a \<le> b \<Longrightarrow> last (take (Suc b - a) (drop a xs)) = xs ! b"
  by (simp add: last_conv_nth)

text \<open>The padded chunk, byte by byte.\<close>

definition padded_byte :: "byte list \<Rightarrow> nat \<Rightarrow> byte" where
  "padded_byte x i =
     (if i < 31 then x ! i
      else if i = 31 then x ! 31 AND 0x3f
      else if i < 63 then push_bit 2 (x ! i) OR drop_bit 6 (x ! (i - 1))
      else if i = 63 then (push_bit 2 (x ! 63) OR drop_bit 6 (x ! 62)) AND 0x3f
      else if i < 95 then push_bit 4 (x ! i) OR drop_bit 4 (x ! (i - 1))
      else if i = 95 then (push_bit 4 (x ! 95) OR drop_bit 4 (x ! 94)) AND 0x3f
      else if i < 127 then push_bit 6 (x ! i) OR drop_bit 2 (x ! (i - 1))
      else drop_bit 2 (x ! 126) AND 0x3f)"

lemma nth_pad_chunk:
  assumes "length x = 127" "i < 128"
  shows "pad_chunk x ! i = padded_byte x i"
proof -
  have l: "last (take 32 (drop 32 x)) = x ! 63" "last (take 32 (drop 64 x)) = x ! 95" "last (take 31 (drop 96 x)) = x ! 126"
    using last_slice [of 63 x 32] last_slice [of 95 x 64] last_slice [of 126 x 96] assms by simp_all
  consider "i < 31" | "i = 31" | "32 \<le> i" "i < 63" | "i = 63" | "64 \<le> i" "i < 95" | "i = 95" | "96 \<le> i" "i < 127" | "i = 127"
    using assms(2) by linarith
  then show ?thesis
    by cases (use assms l in \<open>auto simp: pad_chunk_def Let_def padded_byte_def nth_append\<close>)
qed

text \<open>The unpadded chunk, byte by byte.\<close>

definition unpadded_byte :: "byte list \<Rightarrow> nat \<Rightarrow> byte" where
  "unpadded_byte p i =
     (if i < 31 then p ! i
      else if i = 31 then p ! 31 OR push_bit 6 (p ! 32)
      else if i < 63 then drop_bit 2 (p ! i) OR push_bit 6 (p ! (i + 1))
      else if i = 63 then (drop_bit 2 (p ! 63) OR push_bit 6 (p ! 64)) XOR (push_bit 6 (p ! 64) XOR push_bit 4 (p ! 64))
      else if i < 95 then drop_bit 4 (p ! i) OR push_bit 4 (p ! (i + 1))
      else if i = 95 then (drop_bit 4 (p ! 95) OR push_bit 4 (p ! 96)) XOR (push_bit 4 (p ! 96) XOR push_bit 2 (p ! 96))
      else drop_bit 6 (p ! i) OR push_bit 2 (p ! (i + 1)))"

lemma nth_unpad_chunk:
  assumes "length p = 128" "i < 127"
  shows "unpad_chunk p ! i = unpadded_byte p i"
proof -
  consider "i < 31" | "i = 31" | "i = 32" | "33 \<le> i" "i < 63" | "i = 63" | "i = 64" | "65 \<le> i" "i < 95" | "i = 95"
    | "i = 96" | "97 \<le> i" "i < 127"
    using assms(2) by linarith
  then show ?thesis
    by cases (use assms in \<open>auto simp: unpad_chunk_def Let_def unpadded_byte_def nth_append nth_list_update\<close>)
qed

lemma unpad_pad_byte:
  assumes "length x = 127" "i < 127"
  shows "unpadded_byte (pad_chunk x) i = x ! i"
proof -
  note n = nth_pad_chunk [OF assms(1)]
  consider "i < 31" | "i = 31" | "32 \<le> i" "i < 62" | "i = 62" | "i = 63" | "64 \<le> i" "i < 94" | "i = 94" | "i = 95"
    | "96 \<le> i" "i < 126" | "i = 126"
    using assms(2) by linarith
  then show ?thesis
  proof cases
    case 1 then show ?thesis using assms by (simp add: unpadded_byte_def n padded_byte_def)
  next
    case 2 then show ?thesis using round_31 by (simp add: unpadded_byte_def n padded_byte_def)
  next
    case 3 then show ?thesis using round_2 by (simp add: unpadded_byte_def n padded_byte_def)
  next
    case 4 then show ?thesis using round_2_masked by (simp add: unpadded_byte_def n padded_byte_def)
  next
    case 5 then show ?thesis using round_63 by (simp add: unpadded_byte_def n padded_byte_def)
  next
    case 6 then show ?thesis using round_4 by (simp add: unpadded_byte_def n padded_byte_def)
  next
    case 7 then show ?thesis using round_4_masked by (simp add: unpadded_byte_def n padded_byte_def)
  next
    case 8 then show ?thesis using round_95 by (simp add: unpadded_byte_def n padded_byte_def)
  next
    case 9 then show ?thesis using round_6 by (simp add: unpadded_byte_def n padded_byte_def)
  next
    case 10 then show ?thesis using round_6_last by (simp add: unpadded_byte_def n padded_byte_def)
  qed
qed

lemma unpad_pad_chunk: "length x = 127 \<Longrightarrow> unpad_chunk (pad_chunk x) = x"
  by (rule nth_equalityI)
     (simp_all add: length_unpad_chunk length_pad_chunk nth_unpad_chunk unpad_pad_byte)

text \<open>The two highest bits of every 32 byte element of a padded chunk are clear.\<close>

lemma and_3f_top: "(a AND 0x3f) AND 0xc0 = (0 :: byte)"
  by (simp add: and.assoc)

lemma pad_chunk_top:
  assumes "length x = 127" "j < 4"
  shows "pad_chunk x ! (32 * j + 31) AND 0xc0 = 0"
proof -
  have "j = 0 \<or> j = 1 \<or> j = 2 \<or> j = 3" using assms(2) by auto
  then show ?thesis
    using nth_pad_chunk [OF assms(1), of "32 * j + 31"] by (auto simp: padded_byte_def and_3f_top)
qed

section \<open>Chunks of lists\<close>

lemma length_chunk: "n * Suc c \<le> length xs \<Longrightarrow> length (chunk n xs c) = n"
  by (simp add: chunk_def)

lemma chunk_bound: "c < k \<Longrightarrow> length xs = n * k \<Longrightarrow> length (chunk n xs c) = n"
  by (rule length_chunk) (simp only: mult_le_mono2 Suc_leI)

lemma concat_chunks_take: "concat (map (chunk n xs) [0..<k]) = take (n * k) xs"
proof (induction k)
  case (Suc k)
  have "take (n * Suc k) xs = take (n * k) xs @ take n (drop (n * k) xs)"
    by (metis mult_Suc_right add.commute take_add)
  then show ?case using Suc by (simp add: chunk_def)
qed simp

lemma concat_chunks: "length xs = n * k \<Longrightarrow> concat (map (chunk n xs) [0..<k]) = xs"
  by (simp add: concat_chunks_take)

lemma chunk_concat:
  "\<forall>xs \<in> set xss. length xs = n \<Longrightarrow> c < length xss \<Longrightarrow> chunk n (concat xss @ ys) c = xss ! c"
proof (induction xss arbitrary: c)
  case (Cons xs xss)
  then show ?case by (cases c) (auto simp: chunk_def)
qed simp

lemma length_concat_same: "\<forall>xs \<in> set xss. length xs = n \<Longrightarrow> length (concat xss) = n * length xss"
  by (induction xss) auto

lemma chunk_chunk:
  assumes "c < q"
  shows "chunk n (chunk (n * q) xs i) c = chunk n xs (i * q + c)"
proof -
  have "n * Suc c \<le> n * q" using assms by (intro mult_le_mono2) simp
  then have "min n (n * q - n * c) = n" by simp
  moreover have "n * c + n * q * i = n * (i * q + c)" by (simp add: distrib_left mult.commute mult.left_commute)
  ultimately show ?thesis by (simp add: chunk_def drop_take)
qed

lemma concat_map_blocks: "concat (map (\<lambda>i. map (\<lambda>c. f (i * q + c)) [0..<q]) [0..<t]) = map f [0..<t * q]"
proof (induction t)
  case (Suc t)
  have "map (\<lambda>c. f (t * q + c)) [0..<q] = map f [t * q..<t * q + q]"
    by (rule nth_equalityI) simp_all
  moreover have "[0..<t * q + q] = [0..<t * q] @ [t * q..<t * q + q]" by (rule upt_add_eq_append) simp
  ultimately show ?case using Suc by (simp add: add.commute)
qed simp

lemma concat_concat_map: "concat (concat (map f xs)) = concat (map (\<lambda>i. concat (f i)) xs)"
  by (induction xs) simp_all

lemma concat_blocks:
  "concat (map (\<lambda>i. concat (map (\<lambda>c. F (chunk n (chunk (n * q) x i) c)) [0..<q])) [0..<t]) =
   concat (map (\<lambda>c. F (chunk n x c)) [0..<t * q])"
proof -
  have "map (\<lambda>c. F (chunk n (chunk (n * q) x i) c)) [0..<q] = map (\<lambda>c. F (chunk n x (i * q + c))) [0..<q]" for i
    by (rule map_cong) (auto simp: chunk_chunk)
  then show ?thesis
    unfolding concat_map_blocks [of "\<lambda>c. F (chunk n x c)" q t, symmetric] concat_concat_map by (simp only:)
qed

lemma those_Some: "(\<And>x. x \<in> set xs \<Longrightarrow> f x = Some (g x)) \<Longrightarrow> those (map f xs) = Some (map g xs)"
  by (induction xs) auto

section \<open>Padding whole buffers\<close>

definition padAll :: "byte list \<Rightarrow> nat \<Rightarrow> byte list" where
  "padAll x k = concat (map (\<lambda>c. pad_chunk (chunk 127 x c)) [0..<k])"

definition unpadAll :: "byte list \<Rightarrow> nat \<Rightarrow> byte list" where
  "unpadAll p k = concat (map (\<lambda>c. unpad_chunk (chunk 128 p c)) [0..<k])"

lemma padAll_lengths: "length x = 127 * k \<Longrightarrow> \<forall>xs \<in> set (map (\<lambda>c. pad_chunk (chunk 127 x c)) [0..<k]). length xs = 128"
  by (auto simp: length_pad_chunk chunk_bound)

lemma length_padAll: "length x = 127 * k \<Longrightarrow> length (padAll x k) = 128 * k"
  using length_concat_same [OF padAll_lengths] by (simp add: padAll_def)

lemma chunk_padAll: "length x = 127 * k \<Longrightarrow> c < k \<Longrightarrow> chunk 128 (padAll x k) c = pad_chunk (chunk 127 x c)"
  using chunk_concat [OF padAll_lengths, of x k c "[]"] by (simp add: padAll_def)

lemma unpadAll_padAll: "length x = 127 * k \<Longrightarrow> unpadAll (padAll x k) k = x"
proof -
  assume l: "length x = 127 * k"
  have "map (\<lambda>c. unpad_chunk (chunk 128 (padAll x k) c)) [0..<k] = map (chunk 127 x) [0..<k]"
    using l by (simp add: chunk_padAll unpad_pad_chunk chunk_bound)
  then show ?thesis unfolding unpadAll_def using concat_chunks [OF l] by (simp only:)
qed

lemma padAll_top:
  assumes "length x = 127 * k" "j < 4 * k"
  shows "padAll x k ! (32 * j + 31) AND 0xc0 = 0"
proof -
  let ?c = "j div 4" and ?r = "j mod 4"
  have c: "?c < k" using assms(2) by auto
  have i: "32 * j + 31 = 128 * ?c + (32 * ?r + 31)" using div_mult_mod_eq [of j 4] by linarith
  have "?r < 4" by simp
  then have r: "32 * ?r + 31 < 128" by linarith
  have "padAll x k ! (32 * j + 31) = chunk 128 (padAll x k) ?c ! (32 * ?r + 31)"
    using r c length_padAll [OF assms(1)] unfolding i by (simp add: chunk_def)
  also have "\<dots> = pad_chunk (chunk 127 x ?c) ! (32 * ?r + 31)" using chunk_padAll [OF assms(1) c] by simp
  finally show ?thesis using pad_chunk_top [of "chunk 127 x ?c" ?r] chunk_bound [OF c assms(1)] by simp
qed

lemma pad_multiple:
  "length x = 127 * k \<Longrightarrow> length out = 128 * k \<Longrightarrow> pad x out = Some (x, padAll x k)"
  by (simp add: pad_def Let_def padAll_def)

lemma unpad_multiple:
  "length p = 128 * k \<Longrightarrow> length out = 127 * k \<Longrightarrow> unpad out p = Some (unpadAll p k, p)"
  by (simp add: unpad_def Let_def unpadAll_def)

lemma padAll_blocks: "concat (map (\<lambda>i. padAll (chunk (127 * q) x i) q) [0..<t]) = padAll x (t * q)"
  unfolding padAll_def by (rule concat_blocks)

lemma unpadAll_blocks: "concat (map (\<lambda>i. unpadAll (chunk (128 * q) p i) q) [0..<t]) = unpadAll p (t * q)"
  unfolding unpadAll_def by (rule concat_blocks)

section \<open>Threads\<close>

lemma slice_chunk: "n * Suc i \<le> length xs \<Longrightarrow> slice (n * i) (n * i + n) xs = Some (chunk n xs i)"
  by (simp add: slice_def chunk_def)

lemma mt_aligned:
  assumes unp: "\<And>k. unpadded (128 * k) = 127 * k"
    and t: "mtChunkCount ncpu (128 * (t * q)) = t" "0 < t"
    and len: "length un = 127 * (t * q)" "length pd = 128 * (t * q)"
    and f: "\<And>i. i < t \<Longrightarrow> opr (chunk (127 * q) un i) (chunk (128 * q) pd i) = Some (u i, p i)"
  shows "mt unpadded ncpu un pd (128 * (t * q)) opr = Some (concat (map u [0..<t]), concat (map p [0..<t]))"
proof -
  have tb: "128 * (t * q) div t = 128 * q" using t(2) by simp
  have part: "mt_part unpadded (128 * q) un pd opr i = Some (u i, p i)" if "i < t" for i
  proof -
    have "Suc i * q \<le> t * q" using that by (intro mult_le_mono1) simp
    then have le: "127 * q * Suc i \<le> length un" "128 * q * Suc i \<le> length pd" using len by (simp_all add: algebra_simps)
    have "unpadded (128 * q * i) = 127 * q * i" "unpadded (128 * q * i + 128 * q) = 127 * q * i + 127 * q"
      using unp [of "q * i"] unp [of "q * i + q"] by (simp_all add: distrib_left mult.assoc)
    then show ?thesis
      using slice_chunk [OF le(1)] slice_chunk [OF le(2)] f [OF that] by (simp add: mt_part_def Let_def)
  qed
  have "those (map (mt_part unpadded (128 * q) un pd opr) [0..<t]) = Some (map (\<lambda>i. (u i, p i)) [0..<t])"
    by (rule those_Some) (simp add: part)
  moreover have "unpadded (128 * q * t) = length un" "128 * q * t = length pd"
    using unp [of "q * t"] len by (simp_all add: algebra_simps)
  ultimately show ?thesis using t tb by (simp add: mt_def Let_def o_def)
qed

lemma mtChunkCount_pos: "0 < mtChunkCount ncpu n"
  by (simp add: mtChunkCount_def Let_def)

lemma Pad_eq:
  assumes unp: "\<And>k. unpadded (128 * k) = 127 * k"
    and len: "length x = 127 * k" "length out = 128 * k"
    and al: "128 * k \<le> MTTresh \<or> mtChunkCount ncpu (128 * k) dvd k"
  shows "Pad unpadded ncpu x out = Some (padAll x k)"
proof (cases "128 * k \<le> MTTresh")
  case True
  then show ?thesis using len pad_multiple [OF len] by (simp add: Pad_def)
next
  case False
  let ?t = "mtChunkCount ncpu (128 * k)"
  obtain q where k: "k = ?t * q" using al False by (auto elim: dvdE)
  have "pad (chunk (127 * q) x i) (chunk (128 * q) out i) = Some (chunk (127 * q) x i, padAll (chunk (127 * q) x i) q)"
    if "i < ?t" for i
    using that len k by (intro pad_multiple chunk_bound) (simp_all add: mult.assoc mult.commute mult.left_commute)
  then have "mt unpadded ncpu x out (128 * (?t * q)) pad =
      Some (concat (map (chunk (127 * q) x) [0..<?t]), concat (map (\<lambda>i. padAll (chunk (127 * q) x i) q) [0..<?t]))"
    using len k by (intro mt_aligned [OF unp _ mtChunkCount_pos]) simp_all
  then show ?thesis using False len k padAll_blocks [of q x ?t] by (simp add: Pad_def)
qed

lemma Unpad_eq:
  assumes unp: "\<And>k. unpadded (128 * k) = 127 * k"
    and len: "length p = 128 * k" "length out = 127 * k"
    and al: "128 * k \<le> MTTresh \<or> mtChunkCount ncpu (128 * k) dvd k"
  shows "Unpad unpadded ncpu p out = Some (unpadAll p k)"
proof (cases "128 * k \<le> MTTresh")
  case True
  then show ?thesis using len unpad_multiple [OF len] by (simp add: Unpad_def)
next
  case False
  let ?t = "mtChunkCount ncpu (128 * k)"
  obtain q where k: "k = ?t * q" using al False by (auto elim: dvdE)
  have "unpad (chunk (127 * q) out i) (chunk (128 * q) p i) = Some (unpadAll (chunk (128 * q) p i) q, chunk (128 * q) p i)"
    if "i < ?t" for i
    using that len k by (intro unpad_multiple chunk_bound) (simp_all add: mult.assoc mult.commute mult.left_commute)
  then have "mt unpadded ncpu out p (128 * (?t * q)) unpad =
      Some (concat (map (\<lambda>i. unpadAll (chunk (128 * q) p i) q) [0..<?t]), concat (map (chunk (128 * q) p) [0..<?t]))"
    using len k by (intro mt_aligned [OF unp _ mtChunkCount_pos]) simp_all
  then show ?thesis using False len k unpadAll_blocks [of q p ?t] by (simp add: Unpad_def)
qed

text \<open>
  Property C20: for every whole number of chunks that the number of threads divides (always
  for buffers up to \<open>MTTresh\<close>), padding succeeds, every 32 byte element has its two highest bits clear
  whatever the data and the old contents of the buffers, and unpadding gives the data back.
\<close>

theorem Unpad_Pad:
  assumes "\<forall>n. unpadded (128 * n) = 127 * n"
    and "length x = 127 * k" "length out = 128 * k" "length out2 = 127 * k"
    and "128 * k \<le> MTTresh \<or> mtChunkCount ncpu (128 * k) dvd k"
  shows "\<exists>p. Pad unpadded ncpu x out = Some p \<and> length p = 128 * k
    \<and> (\<forall>j < 4 * k. p ! (32 * j + 31) AND 0xc0 = 0)
    \<and> Unpad unpadded ncpu p out2 = Some x"
proof (intro exI conjI)
  have unp: "\<And>n. unpadded (128 * n) = 127 * n" using assms(1) by blast
  show "Pad unpadded ncpu x out = Some (padAll x k)" by (rule Pad_eq [OF unp assms(2,3,5)])
  show len: "length (padAll x k) = 128 * k" by (rule length_padAll [OF assms(2)])
  show "\<forall>j < 4 * k. padAll x k ! (32 * j + 31) AND 0xc0 = 0" using padAll_top [OF assms(2)] by blast
  show "Unpad unpadded ncpu (padAll x k) out2 = Some x"
    using Unpad_eq [OF unp len assms(4,5)] unpadAll_padAll [OF assms(2)] by simp
qed

text \<open>Witness of C20: one chunk of ones, with the size function of the library.\<close>

theorem Unpad_Pad_witness:
  "\<exists>p. Pad (\<lambda>s. s - s div 128) 4 (replicate 127 0xff) (replicate 128 0xff) = Some p
     \<and> p ! 127 AND 0xc0 = 0 \<and> Unpad (\<lambda>s. s - s div 128) 4 p (replicate 127 0) = Some (replicate 127 0xff)"
proof -
  have "\<exists>p. Pad (\<lambda>s. s - s div 128) 4 (replicate 127 0xff) (replicate 128 0xff) = Some p \<and> length p = 128 * 1
      \<and> (\<forall>j < 4 * 1. p ! (32 * j + 31) AND 0xc0 = 0)
      \<and> Unpad (\<lambda>s. s - s div 128) 4 p (replicate 127 0) = Some (replicate 127 0xff)"
    by (rule Unpad_Pad) (simp_all add: MTTresh_def)
  then obtain p where p: "Pad (\<lambda>s. s - s div 128) 4 (replicate 127 0xff) (replicate 128 0xff) = Some p"
      "\<forall>j < 4. p ! (32 * j + 31) AND 0xc0 = 0"
      "Unpad (\<lambda>s. s - s div 128) 4 p (replicate 127 0) = Some (replicate 127 0xff)" by auto
  have "p ! 127 AND 0xc0 = 0" using p(2) [rule_format, of 3] by simp
  then show ?thesis using p by blast
qed

lemma pad_unwritten:
  assumes "pad inp out = Some (u, p)" "128 * (length out div 128) \<le> i" "i < length out" "length inp = 127 * (length out div 128) + r"
  shows "p ! i = out ! i \<and> length p = length out"
proof -
  let ?k = "length out div 128"
  have l: "\<forall>xs \<in> set (map (\<lambda>c. pad_chunk (chunk 127 inp c)) [0..<?k]). length xs = 128"
  proof -
    have "length (chunk 127 inp c) = 127" if "c < ?k" for c
      using that assms(4) by (intro length_chunk) (simp add: Suc_leI)
    then show ?thesis by (auto simp: length_pad_chunk)
  qed
  have "length (concat (map (\<lambda>c. pad_chunk (chunk 127 inp c)) [0..<?k])) = 128 * ?k"
    using length_concat_same [OF l] by simp
  moreover have "p = concat (map (\<lambda>c. pad_chunk (chunk 127 inp c)) [0..<?k]) @ drop (128 * ?k) out"
    using assms(1) by (auto simp: pad_def Let_def split: if_splits)
  ultimately show ?thesis using assms(2,3) by (simp add: nth_append)
qed

lemma share_arith:
  fixes s tb a b sm tm d :: nat
  assumes "s = 128 * a + sm" "tb = 128 * b + tm" "d \<le> tm"
  shows "s - a \<le> s + tb - (a + b + d) \<and> 127 * b \<le> s + tb - (a + b + d) - (s - a)"
  using assms by arith

lemma unpadded_share:
  assumes "e = s + (tb :: nat)"
  shows "s - s div 128 \<le> e - e div 128 \<and> 127 * (tb div 128) \<le> (e - e div 128) - (s - s div 128)"
proof -
  define d where "d = (s mod 128 + tb mod 128) div 128"
  have e: "e div 128 = s div 128 + tb div 128 + d" unfolding assms d_def by (rule div_add1_eq)
  have "128 * d \<le> s mod 128 + tb mod 128" unfolding d_def by (rule times_div_less_eq_dividend)
  moreover have "s mod 128 < 128" "tb mod 128 < 128" by simp_all
  ultimately have d: "d \<le> tb mod 128" by linarith
  show ?thesis
    unfolding e unfolding assms
    by (rule share_arith [OF _ _ d, where sm = "s mod 128"]) (simp_all only: mult_div_mod_eq)
qed

lemma pad_total: "127 * (length out div 128) \<le> length inp \<Longrightarrow> \<exists>r. pad inp out = Some r"
  by (simp add: pad_def Let_def)

lemma those_total: "(\<And>x. x \<in> set xs \<Longrightarrow> \<exists>y. f x = Some y) \<Longrightarrow> \<exists>ys. those (map f xs) = Some ys"
  by (induction xs) fastforce+

lemma Pad_total:
  assumes unp: "\<And>n. unpadded n = n - n div 128" and len: "length x = 127 * k" "length out = 128 * k"
  shows "\<exists>p. Pad unpadded ncpu x out = Some p"
proof -
  let ?t = "mtChunkCount ncpu (128 * k)" and ?tb = "128 * k div mtChunkCount ncpu (128 * k)"
  have "\<exists>r. mt_part unpadded ?tb x out pad i = Some r" if "i < ?t" for i
  proof -
    let ?s = "?tb * i" and ?e = "?tb * i + ?tb"
    have "?e = ?tb * Suc i" by simp
    also have "\<dots> \<le> ?tb * ?t" using that by (intro mult_le_mono2) simp
    also have "\<dots> \<le> 128 * k" by (rule div_times_less_eq_dividend)
    finally have e: "?e \<le> 128 * k" .
    then have eu: "unpadded ?e \<le> length x" using unp [of ?e] unpadded_share [of "128 * k" ?e "128 * k - ?e"] len(1) by simp
    note sh = unpadded_share [of ?e ?s ?tb, OF refl]
    have "\<exists>u. slice (unpadded ?s) (unpadded ?e) x = Some u \<and> 127 * (?tb div 128) \<le> length u"
      using sh eu by (simp add: slice_def unp)
    moreover have "\<exists>o'. slice ?s ?e out = Some o' \<and> length o' = ?tb" using e len(2) by (simp add: slice_def)
    ultimately show ?thesis using pad_total by (fastforce simp: mt_part_def Let_def)
  qed
  then have "\<exists>rs. those (map (mt_part unpadded ?tb x out pad) [0..<?t]) = Some rs" by (intro those_total) simp
  moreover have "\<exists>r. pad x out = Some r" using len by (intro pad_total) simp
  ultimately show ?thesis using len(2) by (auto simp: Pad_def mt_def Let_def)
qed

text \<open>
  Property C40: where the number of threads does not divide the buffer into whole chunks,
  \<open>Pad\<close> returns normally but leaves bytes of the output unwritten, although input and output
  are whole numbers of chunks: the last byte of the first thread's share keeps its old value.
\<close>

theorem Pad_unaligned_unwritten:
  assumes unp: "\<forall>n. unpadded n = n - n div 128"
    and len: "length x = 127 * k" "length out = 128 * k"
    and big: "MTTresh < 128 * k" "threadBytes = 128 * k div mtChunkCount ncpu (128 * k)"
    and al: "threadBytes mod 128 \<noteq> 0"
  shows "\<exists>p. Pad unpadded ncpu x out = Some p \<and> p ! (threadBytes - 1) = out ! (threadBytes - 1)"
proof -
  let ?t = "mtChunkCount ncpu (128 * k)" and ?tb = threadBytes
  obtain p where p: "Pad unpadded ncpu x out = Some p" using Pad_total [OF _ len] unp by blast
  obtain rs where rs: "those (map (mt_part unpadded ?tb x out pad) [0..<?t]) = Some rs"
      "p = concat (map snd rs) @ drop (?tb * ?t) out"
    using p len(2) big by (auto simp: Pad_def mt_def Let_def split: option.splits)
  have upt: "[0..<?t] = 0 # [1..<?t]" using mtChunkCount_pos [of ncpu "128 * k"] by (simp add: upt_conv_Cons)
  obtain u p0 rs' where p0: "mt_part unpadded ?tb x out pad 0 = Some (u, p0)" "rs = (u, p0) # rs'"
    using rs(1) unfolding upt by (auto split: option.splits)
  then obtain x0 out0 where sl: "slice (unpadded 0) (unpadded ?tb) x = Some x0" "slice 0 ?tb out = Some out0"
      "pad x0 out0 = Some (u, p0)"
    by (auto simp: mt_part_def Let_def split: option.splits)
  have tb: "0 < ?tb" using al by (cases ?tb) auto
  have out0: "out0 = take ?tb out" "length out0 = ?tb" using sl(2) by (auto simp: slice_def split: if_splits)
  have "length x0 = ?tb - ?tb div 128" using sl(1) unp by (auto simp: slice_def split: if_splits)
  then have "length x0 = 127 * (?tb div 128) + ?tb mod 128" using div_mult_mod_eq [of ?tb 128] by linarith
  moreover have "128 * (?tb div 128) \<le> ?tb - 1" using al div_mult_mod_eq [of ?tb 128] by linarith
  ultimately have "p0 ! (?tb - 1) = out0 ! (?tb - 1) \<and> length p0 = ?tb"
    using pad_unwritten [OF sl(3), of "?tb - 1"] out0(2) tb by simp
  then show ?thesis using p rs(2) p0(2) out0(1) tb by (simp add: nth_append)
qed

text \<open>Witness of C40: 12289 chunks, a little more than 1.5 MiB, on 8 CPUs.\<close>

theorem Pad_unaligned_unwritten_witness:
  "\<exists>p. Pad (\<lambda>s. s - s div 128) 8 (replicate (127 * 12289) 1) (replicate (128 * 12289) 0xff) = Some p \<and> p ! 524329 = 0xff"
proof -
  have t: "mtChunkCount 8 (128 * 12289) = 3" by (simp add: mtChunkCount_def MTTresh_def)
  have "\<exists>p. Pad (\<lambda>s. s - s div 128) 8 (replicate (127 * 12289) 1) (replicate (128 * 12289) 0xff) = Some p
      \<and> p ! (524330 - 1) = replicate (128 * 12289) 0xff ! (524330 - 1)"
  proof (rule Pad_unaligned_unwritten [where k = 12289])
    show "MTTresh < 128 * 12289" unfolding MTTresh_def by simp
    show "524330 = 128 * 12289 div mtChunkCount 8 (128 * 12289)" unfolding t by simp
  qed simp_all
  moreover have "replicate (128 * 12289) (0xff :: byte) ! (524330 - 1) = 0xff" by (rule nth_replicate) simp
  ultimately show ?thesis by simp
qed

end
