(* ===== verification/Sealing_Fsm.thy ===== *)
theory Sealing_Fsm
  imports Lotus_Prelude "HOL-Library.Word"
begin

text \<open>
  The state machine of a sector in the sealing pipeline: the states
  (storage/pipeline/sector_state.go), the events (storage/pipeline/fsm_events.go), the table of
  planners and the planning of events (storage/pipeline/fsm.go), the sector's record
  (storage/pipeline/types.go) and the statistics (storage/pipeline/stats.go). The handlers
  that a state starts do the actual work and answer with further events; here they are names, which
  \<open>runHandler\<close> of \<open>Sealing_Recovery\<close> runs.
\<close>

section \<open>States and sectors\<close>

text \<open>
  \<^verbatim>\<open>SectorState\<close> is a string; \<open>UndefinedSectorState\<close> is the empty one and
  \<open>OtherState\<close> any string that is not the name of a state.
\<close>

datatype (plugins only: code) sectorState =
    UndefinedSectorState | Empty | WaitDeals | AddPiece | Packing | GetTicket | PreCommit1 | PreCommit2
    | PreCommitting | PreCommitWait | SubmitPreCommitBatch | PreCommitBatchWait | WaitSeed | Committing
    | CommitFinalize | CommitFinalizeFailed | SubmitCommit | CommitWait | SubmitCommitAggregate
    | CommitAggregateWait | FinalizeSector | Proving | Available | SnapDealsWaitDeals | SnapDealsAddPiece
    | SnapDealsPacking | UpdateReplica | ProveReplicaUpdate | SubmitReplicaUpdate | WaitMutable
    | ReplicaUpdateWait | FinalizeReplicaUpdate | UpdateActivating | ReleaseSectorKey | ReceiveSector
    | FailedUnrecoverable | AddPieceFailed | SealPreCommit1Failed | SealPreCommit2Failed | PreCommitFailed
    | ComputeProofFailed | RemoteCommitFailed | CommitFailed | PackingFailed | FinalizeFailed | DealsExpired
    | RecoverDealIDs | SnapDealsAddPieceFailed | SnapDealsDealsExpired | SnapDealsRecoverDealIDs
    | AbortUpgrade | ReplicaUpdateFailed | ReleaseSectorKeyFailed | FinalizeReplicaUpdateFailed | Faulty
    | FaultReported | FaultedFinal | Terminating | TerminateWait | TerminateFinality | TerminateFailed
    | Removing | RemoveFailed | Removed | OtherState string

type_synonym bytes = "nat list"

record pieceInfo =
  pi_Size :: "64 word"
  pi_PieceCID :: cid

record dealProposal =
  dp_PieceCID :: cid
  dp_PieceSize :: "64 word"
  dp_VerifiedDeal :: bool
  dp_Client :: nat
  dp_Provider :: nat
  dp_Label :: string
  dp_StartEpoch :: int
  dp_EndEpoch :: int
  dp_StoragePricePerEpoch :: tokenAmount
  dp_ProviderCollateral :: tokenAmount
  dp_ClientCollateral :: tokenAmount

record dealInfo =
  di_PublishCid :: "cid option"
  di_DealID :: nat
  di_DealProposal :: "dealProposal option"
  di_EndEpoch :: int
  di_KeepUnsealed :: bool

record sectorPiece =
  sp_Piece :: pieceInfo
  sp_DealInfo :: "dealInfo option"

record logEntry =
  le_Timestamp :: int
  le_Trace :: string
  le_Message :: string
  le_Kind :: string

record sectorLocation =
  sl_Local :: bool
  sl_URL :: string

text \<open>
  \<^verbatim>\<open>SectorInfo\<close>: all fields but \<^verbatim>\<open>LastErr\<close>. Randomness, proofs and seals are byte
  strings; a nil pointer is \<open>None\<close>; \<open>si_Return\<close> is \<open>None\<close> for the empty string.
  \<open>si_remoteDone\<close> collects the notifications sent to a remote endpoint.
\<close>

record sectorInfo =
  si_State :: sectorState
  si_SectorNumber :: nat
  si_SectorType :: nat
  si_CreationTime :: int
  si_Pieces :: "sectorPiece list"
  si_TicketValue :: bytes
  si_TicketEpoch :: int
  si_PreCommit1Out :: bytes
  si_PreCommit1Fails :: "64 word"
  si_CommD :: "cid option"
  si_CommR :: "cid option"
  si_Proof :: bytes
  si_PreCommitDeposit :: tokenAmount
  si_PreCommitMessage :: "cid option"
  si_PreCommitTipSet :: bytes
  si_PreCommit2Fails :: "64 word"
  si_SeedValue :: bytes
  si_SeedEpoch :: int
  si_CommitMessage :: "cid option"
  si_InvalidProofs :: "64 word"
  si_CCUpdate :: bool
  si_CCPieces :: "sectorPiece list"
  si_UpdateSealed :: "cid option"
  si_UpdateUnsealed :: "cid option"
  si_ReplicaUpdateProof :: "bytes option"
  si_ReplicaUpdateMessage :: "cid option"
  si_FaultReportMsg :: "cid option"
  si_Return :: "sectorState option"
  si_TerminateMessage :: "cid option"
  si_TerminatedAt :: int
  si_RemoteDataUnsealed :: "sectorLocation option"
  si_RemoteDataSealed :: "sectorLocation option"
  si_RemoteDataCache :: "sectorLocation option"
  si_RemoteCommit1Endpoint :: string
  si_RemoteCommit2Endpoint :: string
  si_RemoteSealingDoneEndpoint :: string
  si_RemoteDataFinalized :: bool
  si_Log :: "logEntry list"
  si_remoteDone :: "(bool \<times> string \<times> cid option) list"

definition ExistSectorStateList :: "sectorState list" where
  "ExistSectorStateList =
    [Empty, WaitDeals, Packing, AddPiece, AddPieceFailed, GetTicket, PreCommit1, PreCommit2, PreCommitting
     , PreCommitWait, SubmitPreCommitBatch, PreCommitBatchWait, WaitSeed, Committing, CommitFinalize
     , CommitFinalizeFailed, SubmitCommit, CommitWait, SubmitCommitAggregate, CommitAggregateWait
     , FinalizeSector, Proving, Available, FailedUnrecoverable, SealPreCommit1Failed, SealPreCommit2Failed
     , PreCommitFailed, ComputeProofFailed, RemoteCommitFailed, CommitFailed, PackingFailed, FinalizeFailed
     , DealsExpired, RecoverDealIDs, Faulty, FaultReported, FaultedFinal, Terminating, TerminateWait
     , TerminateFinality, TerminateFailed, Removing, RemoveFailed, Removed, SnapDealsWaitDeals
     , SnapDealsAddPiece, SnapDealsPacking, UpdateReplica, ProveReplicaUpdate, SubmitReplicaUpdate
     , WaitMutable, ReplicaUpdateWait, UpdateActivating, ReleaseSectorKey, FinalizeReplicaUpdate
     , SnapDealsAddPieceFailed, SnapDealsDealsExpired, SnapDealsRecoverDealIDs, ReplicaUpdateFailed
     , ReleaseSectorKeyFailed, FinalizeReplicaUpdateFailed, AbortUpgrade, ReceiveSector]"

section \<open>Events\<close>

text \<open>The error inside an error event plays no role in planning and is left out.\<close>

datatype (plugins only: extraction) event =
    SectorRestart | SectorFatalError | SectorForceState sectorState | SectorStart nat nat
    | SectorStartCC nat nat | SectorAddPiece | SectorPieceAdded "sectorPiece list" | SectorAddPieceFailed
    | SectorRetryWaitDeals | SectorStartPacking | SectorPacked "pieceInfo list" | SectorTicket bytes int
    | SectorOldTicket | SectorPreCommit1 bytes | SectorPreCommit2 cid cid | SectorPreCommitBatch
    | SectorPreCommitBatchSent cid | SectorPreCommitLanded bytes | SectorSealPreCommit1Failed
    | SectorSealPreCommit2Failed | SectorChainPreCommitFailed | SectorPreCommitted cid tokenAmount
    | SectorSeedReady bytes int | SectorRemoteCommit1Failed | SectorRemoteCommit2Failed
    | SectorComputeProofFailed | SectorCommitFailed | SectorRetrySubmitCommit | SectorDealsExpired
    | SectorTicketExpired | SectorCommitted bytes | SectorProofReady bytes | SectorSubmitCommitAggregate
    | SectorCommitSubmitted cid | SectorCommitAggregateSent cid | SectorProving | SectorFinalized
    | SectorFinalizedAvailable | SectorRetryFinalize | SectorFinalizeFailed | SectorMarkForUpdate
    | SectorStartCCUpdate | SectorReplicaUpdate cid cid | SectorProveReplicaUpdate "bytes option"
    | SectorReplicaUpdateSubmitted cid | SectorReplicaUpdateLanded | SectorUpdateActive | SectorKeyReleased
    | SectorRetrySealPreCommit1 | SectorRetrySealPreCommit2 | SectorRetryPreCommit | SectorRetryWaitSeed
    | SectorRetryPreCommitWait | SectorRetryComputeProof | SectorRetryInvalidProof | SectorRetryCommitWait
    | SectorInvalidDealIDs "sectorState option" | SectorUpdateDealIDs "(int, nat) gomap"
    | SectorRetryReplicaUpdate | SectorRetryProveReplicaUpdate | SectorUpdateReplicaFailed
    | SectorProveReplicaUpdateFailed | SectorAbortUpgrade | SectorRevertUpgradeToProving
    | SectorRetrySubmitReplicaUpdateWait | SectorRetrySubmitReplicaUpdate | SectorSubmitReplicaUpdateFailed
    | SectorDeadlineImmutable | SectorDeadlineMutable | SectorReleaseKeyFailed | SectorFaulty
    | SectorFaultReported cid | SectorFaultedFinal | SectorTerminate | SectorTerminating "cid option"
    | SectorTerminated int | SectorTerminateFailed | SectorRemove | SectorRemoved | SectorRemoveFailed
    | SectorReceive sectorInfo | SectorReceived

text \<open>\<^verbatim>\<open>reflect.TypeOf\<close> of an event: the name of its type.\<close>

primrec typeOf :: "event \<Rightarrow> string" where
  "typeOf SectorRestart = ''SectorRestart''"
| "typeOf SectorFatalError = ''SectorFatalError''"
| "typeOf (SectorForceState a) = ''SectorForceState''"
| "typeOf (SectorStart a b) = ''SectorStart''"
| "typeOf (SectorStartCC a b) = ''SectorStartCC''"
| "typeOf SectorAddPiece = ''SectorAddPiece''"
| "typeOf (SectorPieceAdded a) = ''SectorPieceAdded''"
| "typeOf SectorAddPieceFailed = ''SectorAddPieceFailed''"
| "typeOf SectorRetryWaitDeals = ''SectorRetryWaitDeals''"
| "typeOf SectorStartPacking = ''SectorStartPacking''"
| "typeOf (SectorPacked a) = ''SectorPacked''"
| "typeOf (SectorTicket a b) = ''SectorTicket''"
| "typeOf SectorOldTicket = ''SectorOldTicket''"
| "typeOf (SectorPreCommit1 a) = ''SectorPreCommit1''"
| "typeOf (SectorPreCommit2 a b) = ''SectorPreCommit2''"
| "typeOf SectorPreCommitBatch = ''SectorPreCommitBatch''"
| "typeOf (SectorPreCommitBatchSent a) = ''SectorPreCommitBatchSent''"
| "typeOf (SectorPreCommitLanded a) = ''SectorPreCommitLanded''"
| "typeOf SectorSealPreCommit1Failed = ''SectorSealPreCommit1Failed''"
| "typeOf SectorSealPreCommit2Failed = ''SectorSealPreCommit2Failed''"
| "typeOf SectorChainPreCommitFailed = ''SectorChainPreCommitFailed''"
| "typeOf (SectorPreCommitted a b) = ''SectorPreCommitted''"
| "typeOf (SectorSeedReady a b) = ''SectorSeedReady''"
| "typeOf SectorRemoteCommit1Failed = ''SectorRemoteCommit1Failed''"
| "typeOf SectorRemoteCommit2Failed = ''SectorRemoteCommit2Failed''"
| "typeOf SectorComputeProofFailed = ''SectorComputeProofFailed''"
| "typeOf SectorCommitFailed = ''SectorCommitFailed''"
| "typeOf SectorRetrySubmitCommit = ''SectorRetrySubmitCommit''"
| "typeOf SectorDealsExpired = ''SectorDealsExpired''"
| "typeOf SectorTicketExpired = ''SectorTicketExpired''"
| "typeOf (SectorCommitted a) = ''SectorCommitted''"
| "typeOf (SectorProofReady a) = ''SectorProofReady''"
| "typeOf SectorSubmitCommitAggregate = ''SectorSubmitCommitAggregate''"
| "typeOf (SectorCommitSubmitted a) = ''SectorCommitSubmitted''"
| "typeOf (SectorCommitAggregateSent a) = ''SectorCommitAggregateSent''"
| "typeOf SectorProving = ''SectorProving''"
| "typeOf SectorFinalized = ''SectorFinalized''"
| "typeOf SectorFinalizedAvailable = ''SectorFinalizedAvailable''"
| "typeOf SectorRetryFinalize = ''SectorRetryFinalize''"
| "typeOf SectorFinalizeFailed = ''SectorFinalizeFailed''"
| "typeOf SectorMarkForUpdate = ''SectorMarkForUpdate''"
| "typeOf SectorStartCCUpdate = ''SectorStartCCUpdate''"
| "typeOf (SectorReplicaUpdate a b) = ''SectorReplicaUpdate''"
| "typeOf (SectorProveReplicaUpdate a) = ''SectorProveReplicaUpdate''"
| "typeOf (SectorReplicaUpdateSubmitted a) = ''SectorReplicaUpdateSubmitted''"
| "typeOf SectorReplicaUpdateLanded = ''SectorReplicaUpdateLanded''"
| "typeOf SectorUpdateActive = ''SectorUpdateActive''"
| "typeOf SectorKeyReleased = ''SectorKeyReleased''"
| "typeOf SectorRetrySealPreCommit1 = ''SectorRetrySealPreCommit1''"
| "typeOf SectorRetrySealPreCommit2 = ''SectorRetrySealPreCommit2''"
| "typeOf SectorRetryPreCommit = ''SectorRetryPreCommit''"
| "typeOf SectorRetryWaitSeed = ''SectorRetryWaitSeed''"
| "typeOf SectorRetryPreCommitWait = ''SectorRetryPreCommitWait''"
| "typeOf SectorRetryComputeProof = ''SectorRetryComputeProof''"
| "typeOf SectorRetryInvalidProof = ''SectorRetryInvalidProof''"
| "typeOf SectorRetryCommitWait = ''SectorRetryCommitWait''"
| "typeOf (SectorInvalidDealIDs a) = ''SectorInvalidDealIDs''"
| "typeOf (SectorUpdateDealIDs a) = ''SectorUpdateDealIDs''"
| "typeOf SectorRetryReplicaUpdate = ''SectorRetryReplicaUpdate''"
| "typeOf SectorRetryProveReplicaUpdate = ''SectorRetryProveReplicaUpdate''"
| "typeOf SectorUpdateReplicaFailed = ''SectorUpdateReplicaFailed''"
| "typeOf SectorProveReplicaUpdateFailed = ''SectorProveReplicaUpdateFailed''"
| "typeOf SectorAbortUpgrade = ''SectorAbortUpgrade''"
| "typeOf SectorRevertUpgradeToProving = ''SectorRevertUpgradeToProving''"
| "typeOf SectorRetrySubmitReplicaUpdateWait = ''SectorRetrySubmitReplicaUpdateWait''"
| "typeOf SectorRetrySubmitReplicaUpdate = ''SectorRetrySubmitReplicaUpdate''"
| "typeOf SectorSubmitReplicaUpdateFailed = ''SectorSubmitReplicaUpdateFailed''"
| "typeOf SectorDeadlineImmutable = ''SectorDeadlineImmutable''"
| "typeOf SectorDeadlineMutable = ''SectorDeadlineMutable''"
| "typeOf SectorReleaseKeyFailed = ''SectorReleaseKeyFailed''"
| "typeOf SectorFaulty = ''SectorFaulty''"
| "typeOf (SectorFaultReported a) = ''SectorFaultReported''"
| "typeOf SectorFaultedFinal = ''SectorFaultedFinal''"
| "typeOf SectorTerminate = ''SectorTerminate''"
| "typeOf (SectorTerminating a) = ''SectorTerminating''"
| "typeOf (SectorTerminated a) = ''SectorTerminated''"
| "typeOf SectorTerminateFailed = ''SectorTerminateFailed''"
| "typeOf SectorRemove = ''SectorRemove''"
| "typeOf SectorRemoved = ''SectorRemoved''"
| "typeOf SectorRemoveFailed = ''SectorRemoveFailed''"
| "typeOf (SectorReceive a) = ''SectorReceive''"
| "typeOf SectorReceived = ''SectorReceived''"

text \<open>\<^verbatim>\<open>globalMutator\<close>s apply in every state; \<^verbatim>\<open>Ignorable\<close> events may be skipped.\<close>

definition globalMutator :: "event \<Rightarrow> bool" where
  "globalMutator e = (case e of
     SectorRestart \<Rightarrow> True | SectorFatalError \<Rightarrow> True | SectorForceState _ \<Rightarrow> True
   | SectorTerminate \<Rightarrow> True | SectorRemove \<Rightarrow> True | _ \<Rightarrow> False)"

definition Ignorable :: "event \<Rightarrow> bool" where
  "Ignorable e = (case e of SectorStartPacking \<Rightarrow> True | _ \<Rightarrow> False)"

definition maybeNotifyRemoteDone :: "bool \<Rightarrow> string \<Rightarrow> sectorInfo \<Rightarrow> sectorInfo" where
  "maybeNotifyRemoteDone success st si =
     (if si_RemoteSealingDoneEndpoint si = '''' then si
      else si\<lparr>si_remoteDone := si_remoteDone si @ [(success, st, si_CommitMessage si)]\<rparr>)"

text \<open>\<open>applyGlobal\<close>: the new record, and whether processing should be interrupted.\<close>

definition applyGlobal :: "event \<Rightarrow> sectorInfo \<Rightarrow> sectorInfo \<times> bool" where
  "applyGlobal e si = (case e of
     SectorRestart \<Rightarrow> (si, False)
   | SectorFatalError \<Rightarrow> (si, True)
   | SectorForceState st \<Rightarrow> (si\<lparr>si_State := st\<rparr>, True)
   | SectorTerminate \<Rightarrow> (si\<lparr>si_State := Terminating\<rparr>, True)
   | SectorRemove \<Rightarrow> ((maybeNotifyRemoteDone False ''Removing'' si)\<lparr>si_State := Removing\<rparr>, True)
   | _ \<Rightarrow> (si, False))"

text \<open>
  The update of deal identifiers writes through a slice index and a pointer: an index out of
  range or a piece without a deal is a panic, \<open>None\<close>.
\<close>

fun updateDealIDs :: "(int, nat) gomap \<Rightarrow> sectorPiece list \<Rightarrow> sectorPiece list option" where
  "updateDealIDs [] ps = Some ps"
| "updateDealIDs ((i, d) # us) ps =
     (if i < 0 \<or> int (length ps) \<le> i then None
      else case sp_DealInfo (ps ! nat i) of
        None \<Rightarrow> None
      | Some di \<Rightarrow> updateDealIDs us (ps[nat i := (ps ! nat i)\<lparr>sp_DealInfo := Some (di\<lparr>di_DealID := d\<rparr>)\<rparr>]))"

definition filler :: "pieceInfo \<Rightarrow> sectorPiece" where
  "filler p = \<lparr>sp_Piece = p, sp_DealInfo = None\<rparr>"

text \<open>
  The method \<^verbatim>\<open>apply\<close> of the event types, by the sections of fsm_events.go from the last to the
  first; an event whose method is empty leaves the record as it is.
\<close>

text \<open>Faults, termination and import.\<close>

definition apply_external :: "event \<Rightarrow> sectorInfo \<Rightarrow> sectorInfo option" where
  "apply_external e si = (case e of
     SectorFaultReported m \<Rightarrow> Some (si\<lparr>si_FaultReportMsg := Some m\<rparr>)
   | SectorTerminating m \<Rightarrow> Some (si\<lparr>si_TerminateMessage := m\<rparr>)
   | SectorTerminated ep \<Rightarrow> Some (si\<lparr>si_TerminatedAt := ep\<rparr>)
   | SectorReceive st \<Rightarrow> Some st
   | _ \<Rightarrow> Some si)"

text \<open>Recovery from failed states.\<close>

definition apply_recovery :: "event \<Rightarrow> sectorInfo \<Rightarrow> sectorInfo option" where
  "apply_recovery e si = (case e of
     SectorRetryComputeProof \<Rightarrow> Some (si\<lparr>si_InvalidProofs := si_InvalidProofs si + 1\<rparr>)
   | SectorRetryInvalidProof \<Rightarrow> Some (si\<lparr>si_InvalidProofs := si_InvalidProofs si + 1\<rparr>)
   | SectorInvalidDealIDs ret \<Rightarrow> Some (si\<lparr>si_Return := ret\<rparr>)
   | SectorUpdateDealIDs us \<Rightarrow> map_option (\<lambda>ps. si\<lparr>si_Pieces := ps\<rparr>) (updateDealIDs us (si_Pieces si))
   | SectorRevertUpgradeToProving \<Rightarrow>
       Some (si\<lparr>si_CCUpdate := False, si_UpdateSealed := None, si_UpdateUnsealed := None, si_ReplicaUpdateProof := None,
                si_ReplicaUpdateMessage := None, si_Pieces := si_CCPieces si, si_CCPieces := [], si_CreationTime := 0\<rparr>)
   | _ \<Rightarrow> apply_external e si)"

text \<open>The upgrade of a committed capacity sector.\<close>

definition apply_upgrade :: "event \<Rightarrow> sectorInfo \<Rightarrow> sectorInfo option" where
  "apply_upgrade e si = (case e of
     SectorStartCCUpdate \<Rightarrow>
       Some (si\<lparr>si_CCUpdate := True, si_CCPieces := si_Pieces si, si_Pieces := [], si_CreationTime := 0\<rparr>)
   | SectorReplicaUpdate sealed unsealed \<Rightarrow> Some (si\<lparr>si_UpdateSealed := Some sealed, si_UpdateUnsealed := Some unsealed\<rparr>)
   | SectorProveReplicaUpdate p \<Rightarrow> Some (si\<lparr>si_ReplicaUpdateProof := p\<rparr>)
   | SectorReplicaUpdateSubmitted m \<Rightarrow> Some (si\<lparr>si_ReplicaUpdateMessage := Some m\<rparr>)
   | _ \<Rightarrow> apply_recovery e si)"

text \<open>From the precommit message to the commit message.\<close>

definition apply_commit :: "event \<Rightarrow> sectorInfo \<Rightarrow> sectorInfo option" where
  "apply_commit e si = (case e of
     SectorPreCommitted m dep \<Rightarrow> Some (si\<lparr>si_PreCommitMessage := Some m, si_PreCommitDeposit := dep\<rparr>)
   | SectorSeedReady v ep \<Rightarrow> Some (si\<lparr>si_SeedEpoch := ep, si_SeedValue := v\<rparr>)
   | SectorCommitted p \<Rightarrow> Some (si\<lparr>si_Proof := p\<rparr>)
   | SectorProofReady p \<Rightarrow> Some (si\<lparr>si_Proof := p\<rparr>)
   | SectorCommitSubmitted m \<Rightarrow> Some (si\<lparr>si_CommitMessage := Some m\<rparr>)
   | SectorCommitAggregateSent m \<Rightarrow> Some (si\<lparr>si_CommitMessage := Some m\<rparr>)
   | _ \<Rightarrow> apply_upgrade e si)"

text \<open>From the start of a sector to the precommit; \<open>now\<close> is the Unix time.\<close>

definition apply_event :: "int \<Rightarrow> event \<Rightarrow> sectorInfo \<Rightarrow> sectorInfo option" where
  "apply_event now e si = (case e of
     SectorStart i t \<Rightarrow> Some (si\<lparr>si_SectorNumber := i, si_SectorType := t\<rparr>)
   | SectorStartCC i t \<Rightarrow> Some (si\<lparr>si_SectorNumber := i, si_SectorType := t\<rparr>)
   | SectorAddPiece \<Rightarrow> Some (if si_CreationTime si = 0 then si\<lparr>si_CreationTime := now\<rparr> else si)
   | SectorPieceAdded ps \<Rightarrow> Some (si\<lparr>si_Pieces := si_Pieces si @ ps\<rparr>)
   | SectorPacked fs \<Rightarrow> Some (si\<lparr>si_Pieces := si_Pieces si @ map filler fs\<rparr>)
   | SectorTicket v ep \<Rightarrow> Some (si\<lparr>si_TicketEpoch := ep, si_TicketValue := v\<rparr>)
   | SectorPreCommit1 out \<Rightarrow> Some (si\<lparr>si_PreCommit1Out := out, si_PreCommit2Fails := 0\<rparr>)
   | SectorPreCommit2 sealed unsealed \<Rightarrow> Some (si\<lparr>si_CommD := Some unsealed, si_CommR := Some sealed\<rparr>)
   | SectorPreCommitBatchSent m \<Rightarrow> Some (si\<lparr>si_PreCommitMessage := Some m\<rparr>)
   | SectorPreCommitLanded ts \<Rightarrow> Some (si\<lparr>si_PreCommitTipSet := ts\<rparr>)
   | SectorSealPreCommit1Failed \<Rightarrow>
       Some (si\<lparr>si_InvalidProofs := 0, si_PreCommit2Fails := 0, si_PreCommit1Fails := si_PreCommit1Fails si + 1\<rparr>)
   | SectorSealPreCommit2Failed \<Rightarrow> Some (si\<lparr>si_InvalidProofs := 0, si_PreCommit2Fails := si_PreCommit2Fails si + 1\<rparr>)
   | _ \<Rightarrow> apply_commit e si)"

lemmas apply_defs = apply_event_def apply_commit_def apply_upgrade_def apply_recovery_def apply_external_def

section \<open>Planners\<close>

datatype fsm_error =
    ErrReturnNotSet | ErrUnexpectedEvent string | ErrFinalState | ErrUnknownCommitting string | ErrNoPlanner
  | ErrSectorRemoved | ErrUndefinedState | ErrFailedUnrecoverable | ErrUnexpectedState

text \<open>
  A rule of a planner is the type of an event with what \<open>on\<close>, \<open>onWithCB\<close>, \<open>apply\<close> or
  \<open>onReturning\<close> does after the event was applied.
\<close>

datatype (plugins only: code) action = On sectorState | OnWithCB sectorState bool string | Apply | OnReturning

datatype (plugins only: code) planner =
    PlanOne "(string \<times> action) list" | PlanOneOrIgnore "(string \<times> action) list" | PlanCommitting | Final | FinalRemoved

text \<open>The table \<^verbatim>\<open>fsmPlanners\<close>, section by section.\<close>

definition sealingPlanners :: "(sectorState \<times> planner) list" where
  "sealingPlanners =
    [(ReceiveSector, PlanOne
        [(''SectorReceived'', OnReturning)]),
     (UndefinedSectorState, PlanOne
        [(''SectorStart'', On WaitDeals),
         (''SectorStartCC'', On Packing),
         (''SectorReceive'', On ReceiveSector)]),
     (Empty, PlanOne
        [(''SectorAddPiece'', On AddPiece),
         (''SectorStartPacking'', On Packing)]),
     (WaitDeals, PlanOne
        [(''SectorAddPiece'', On AddPiece),
         (''SectorStartPacking'', On Packing)]),
     (AddPiece, PlanOne
        [(''SectorPieceAdded'', On WaitDeals),
         (''SectorStartPacking'', Apply),
         (''SectorAddPiece'', Apply),
         (''SectorAddPieceFailed'', On AddPieceFailed)]),
     (Packing, PlanOne
        [(''SectorPacked'', On GetTicket)]),
     (GetTicket, PlanOne
        [(''SectorTicket'', On PreCommit1),
         (''SectorCommitFailed'', On CommitFailed)]),
     (PreCommit1, PlanOne
        [(''SectorPreCommit1'', On PreCommit2),
         (''SectorSealPreCommit1Failed'', On SealPreCommit1Failed),
         (''SectorDealsExpired'', On DealsExpired),
         (''SectorInvalidDealIDs'', On RecoverDealIDs),
         (''SectorOldTicket'', On GetTicket)]),
     (PreCommit2, PlanOne
        [(''SectorPreCommit2'', On SubmitPreCommitBatch),
         (''SectorSealPreCommit2Failed'', On SealPreCommit2Failed),
         (''SectorSealPreCommit1Failed'', On SealPreCommit1Failed)]),
     (PreCommitting, PlanOne
        [(''SectorPreCommitBatch'', On SubmitPreCommitBatch),
         (''SectorPreCommitted'', On PreCommitWait),
         (''SectorSealPreCommit1Failed'', On SealPreCommit1Failed),
         (''SectorChainPreCommitFailed'', On PreCommitFailed),
         (''SectorPreCommitLanded'', On WaitSeed),
         (''SectorDealsExpired'', On DealsExpired),
         (''SectorInvalidDealIDs'', On RecoverDealIDs)]),
     (SubmitPreCommitBatch, PlanOne
        [(''SectorPreCommitBatchSent'', On PreCommitBatchWait),
         (''SectorSealPreCommit1Failed'', On SealPreCommit1Failed),
         (''SectorChainPreCommitFailed'', On PreCommitFailed),
         (''SectorPreCommitLanded'', On WaitSeed),
         (''SectorDealsExpired'', On DealsExpired),
         (''SectorInvalidDealIDs'', On RecoverDealIDs)]),
     (PreCommitBatchWait, PlanOne
        [(''SectorChainPreCommitFailed'', On PreCommitFailed),
         (''SectorPreCommitLanded'', On WaitSeed),
         (''SectorRetryPreCommit'', On PreCommitting)]),
     (PreCommitWait, PlanOne
        [(''SectorChainPreCommitFailed'', On PreCommitFailed),
         (''SectorPreCommitLanded'', On WaitSeed),
         (''SectorRetryPreCommit'', On PreCommitting)]),
     (WaitSeed, PlanOne
        [(''SectorSeedReady'', On Committing),
         (''SectorChainPreCommitFailed'', On PreCommitFailed)]),
     (Committing, PlanCommitting),
     (CommitFinalize, PlanOne
        [(''SectorFinalized'', On SubmitCommit),
         (''SectorFinalizedAvailable'', On SubmitCommit),
         (''SectorFinalizeFailed'', On CommitFinalizeFailed)]),
     (SubmitCommit, PlanOne
        [(''SectorCommitSubmitted'', On CommitWait),
         (''SectorSubmitCommitAggregate'', On SubmitCommitAggregate),
         (''SectorCommitFailed'', On CommitFailed)]),
     (SubmitCommitAggregate, PlanOne
        [(''SectorCommitAggregateSent'', On CommitAggregateWait),
         (''SectorCommitFailed'', On CommitFailed),
         (''SectorRetrySubmitCommit'', On SubmitCommit)]),
     (CommitWait, PlanOne
        [(''SectorProving'', On FinalizeSector),
         (''SectorCommitFailed'', On CommitFailed),
         (''SectorRetrySubmitCommit'', On SubmitCommit)]),
     (CommitAggregateWait, PlanOne
        [(''SectorProving'', On FinalizeSector),
         (''SectorCommitFailed'', On CommitFailed),
         (''SectorRetrySubmitCommit'', On SubmitCommit)]),
     (FinalizeSector, PlanOne
        [(''SectorFinalized'', OnWithCB Proving True ''Proving''),
         (''SectorFinalizedAvailable'', OnWithCB Available True ''Available''),
         (''SectorFinalizeFailed'', On FinalizeFailed)])]"

definition snapPlanners :: "(sectorState \<times> planner) list" where
  "snapPlanners =
    [(SnapDealsWaitDeals, PlanOne
        [(''SectorAddPiece'', On SnapDealsAddPiece),
         (''SectorStartPacking'', On SnapDealsPacking),
         (''SectorAbortUpgrade'', On AbortUpgrade)]),
     (SnapDealsAddPiece, PlanOne
        [(''SectorPieceAdded'', On SnapDealsWaitDeals),
         (''SectorStartPacking'', Apply),
         (''SectorAddPiece'', Apply),
         (''SectorAddPieceFailed'', On SnapDealsAddPieceFailed),
         (''SectorAbortUpgrade'', On AbortUpgrade)]),
     (SnapDealsPacking, PlanOne
        [(''SectorPacked'', On UpdateReplica),
         (''SectorAbortUpgrade'', On AbortUpgrade)]),
     (UpdateReplica, PlanOne
        [(''SectorReplicaUpdate'', On ProveReplicaUpdate),
         (''SectorUpdateReplicaFailed'', On ReplicaUpdateFailed),
         (''SectorDealsExpired'', On SnapDealsDealsExpired),
         (''SectorInvalidDealIDs'', On SnapDealsRecoverDealIDs),
         (''SectorAbortUpgrade'', On AbortUpgrade)]),
     (ProveReplicaUpdate, PlanOne
        [(''SectorProveReplicaUpdate'', On FinalizeReplicaUpdate),
         (''SectorProveReplicaUpdateFailed'', On ReplicaUpdateFailed),
         (''SectorDealsExpired'', On SnapDealsDealsExpired),
         (''SectorInvalidDealIDs'', On SnapDealsRecoverDealIDs),
         (''SectorAbortUpgrade'', On AbortUpgrade)]),
     (FinalizeReplicaUpdate, PlanOne
        [(''SectorFinalized'', On SubmitReplicaUpdate),
         (''SectorFinalizeFailed'', On FinalizeReplicaUpdateFailed)]),
     (SubmitReplicaUpdate, PlanOne
        [(''SectorReplicaUpdateSubmitted'', On ReplicaUpdateWait),
         (''SectorSubmitReplicaUpdateFailed'', On ReplicaUpdateFailed),
         (''SectorDeadlineImmutable'', On WaitMutable)]),
     (WaitMutable, PlanOne
        [(''SectorDeadlineMutable'', On SubmitReplicaUpdate),
         (''SectorAbortUpgrade'', On AbortUpgrade)]),
     (ReplicaUpdateWait, PlanOne
        [(''SectorReplicaUpdateLanded'', On UpdateActivating),
         (''SectorSubmitReplicaUpdateFailed'', On ReplicaUpdateFailed),
         (''SectorAbortUpgrade'', On AbortUpgrade)]),
     (UpdateActivating, PlanOne
        [(''SectorUpdateActive'', On ReleaseSectorKey)]),
     (ReleaseSectorKey, PlanOne
        [(''SectorKeyReleased'', On Proving),
         (''SectorReleaseKeyFailed'', On ReleaseSectorKeyFailed)])]"

definition sealingErrorPlanners :: "(sectorState \<times> planner) list" where
  "sealingErrorPlanners =
    [(AddPieceFailed, PlanOne
        [(''SectorRetryWaitDeals'', On WaitDeals),
         (''SectorStartPacking'', Apply),
         (''SectorAddPiece'', Apply)]),
     (SealPreCommit1Failed, PlanOne
        [(''SectorRetrySealPreCommit1'', On PreCommit1)]),
     (SealPreCommit2Failed, PlanOne
        [(''SectorRetrySealPreCommit1'', On PreCommit1),
         (''SectorRetrySealPreCommit2'', On PreCommit2)]),
     (PreCommitFailed, PlanOne
        [(''SectorRetryPreCommit'', On PreCommitting),
         (''SectorRetryPreCommitWait'', On PreCommitWait),
         (''SectorRetryWaitSeed'', On WaitSeed),
         (''SectorSealPreCommit1Failed'', On SealPreCommit1Failed),
         (''SectorPreCommitLanded'', On WaitSeed),
         (''SectorDealsExpired'', OnWithCB DealsExpired False ''DealsExpired''),
         (''SectorInvalidDealIDs'', On RecoverDealIDs)]),
     (ComputeProofFailed, PlanOne
        [(''SectorRetryComputeProof'', On Committing),
         (''SectorSealPreCommit1Failed'', On SealPreCommit1Failed)]),
     (RemoteCommitFailed, PlanOne
        [(''SectorRetryComputeProof'', On Committing)]),
     (CommitFinalizeFailed, PlanOne
        [(''SectorRetryFinalize'', On CommitFinalize)]),
     (CommitFailed, PlanOne
        [(''SectorSealPreCommit1Failed'', On SealPreCommit1Failed),
         (''SectorRetryWaitSeed'', On WaitSeed),
         (''SectorRetryComputeProof'', On Committing),
         (''SectorRetryInvalidProof'', On Committing),
         (''SectorRetryPreCommitWait'', On PreCommitWait),
         (''SectorChainPreCommitFailed'', On PreCommitFailed),
         (''SectorRetryPreCommit'', On PreCommitting),
         (''SectorRetryCommitWait'', On CommitWait),
         (''SectorRetrySubmitCommit'', On SubmitCommit),
         (''SectorDealsExpired'', OnWithCB DealsExpired False ''DealsExpired''),
         (''SectorInvalidDealIDs'', On RecoverDealIDs),
         (''SectorTicketExpired'', OnWithCB Removing False ''Removing'')]),
     (FinalizeFailed, PlanOne
        [(''SectorRetryFinalize'', On FinalizeSector)]),
     (PackingFailed, PlanOne []),
     (DealsExpired, PlanOne []),
     (RecoverDealIDs, PlanOne
        [(''SectorUpdateDealIDs'', OnReturning)])]"

definition snapErrorPlanners :: "(sectorState \<times> planner) list" where
  "snapErrorPlanners =
    [(SnapDealsAddPieceFailed, PlanOne
        [(''SectorRetryWaitDeals'', On SnapDealsWaitDeals),
         (''SectorStartPacking'', Apply),
         (''SectorAddPiece'', Apply),
         (''SectorAbortUpgrade'', On AbortUpgrade)]),
     (SnapDealsDealsExpired, PlanOne
        [(''SectorAbortUpgrade'', On AbortUpgrade)]),
     (SnapDealsRecoverDealIDs, PlanOne
        [(''SectorUpdateDealIDs'', On SubmitReplicaUpdate),
         (''SectorAbortUpgrade'', On AbortUpgrade)]),
     (AbortUpgrade, PlanOneOrIgnore
        [(''SectorRevertUpgradeToProving'', On Proving)]),
     (ReplicaUpdateFailed, PlanOne
        [(''SectorRetrySubmitReplicaUpdateWait'', On ReplicaUpdateWait),
         (''SectorRetrySubmitReplicaUpdate'', On SubmitReplicaUpdate),
         (''SectorRetryReplicaUpdate'', On UpdateReplica),
         (''SectorRetryProveReplicaUpdate'', On ProveReplicaUpdate),
         (''SectorInvalidDealIDs'', On SnapDealsRecoverDealIDs),
         (''SectorDealsExpired'', On SnapDealsDealsExpired),
         (''SectorAbortUpgrade'', On AbortUpgrade)]),
     (ReleaseSectorKeyFailed, PlanOne
        [(''SectorUpdateActive'', On ReleaseSectorKey)]),
     (FinalizeReplicaUpdateFailed, PlanOne
        [(''SectorRetryFinalize'', On FinalizeReplicaUpdate)])]"

definition postSealPlanners :: "(sectorState \<times> planner) list" where
  "postSealPlanners =
    [(Proving, PlanOne
        [(''SectorFaultReported'', On FaultReported),
         (''SectorFaulty'', On Faulty),
         (''SectorMarkForUpdate'', On Available)]),
     (Available, PlanOne
        [(''SectorStartCCUpdate'', On SnapDealsWaitDeals),
         (''SectorAbortUpgrade'', On Proving)]),
     (Terminating, PlanOne
        [(''SectorTerminating'', On TerminateWait),
         (''SectorTerminateFailed'', On TerminateFailed)]),
     (TerminateWait, PlanOne
        [(''SectorTerminated'', On TerminateFinality),
         (''SectorTerminateFailed'', On TerminateFailed)]),
     (TerminateFinality, PlanOne
        [(''SectorTerminateFailed'', On TerminateFailed)]),
     (TerminateFailed, PlanOne []),
     (Removing, PlanOneOrIgnore
        [(''SectorRemoved'', On Removed),
         (''SectorRemoveFailed'', On RemoveFailed)]),
     (RemoveFailed, PlanOne []),
     (Faulty, PlanOne
        [(''SectorFaultReported'', On FaultReported)]),
     (FaultReported, Final),
     (FaultedFinal, Final),
     (Removed, FinalRemoved),
     (FailedUnrecoverable, Final)]"

definition fsmTable :: "(sectorState \<times> planner) list" where
  "fsmTable = sealingPlanners @ snapPlanners @ sealingErrorPlanners @ snapErrorPlanners @ postSealPlanners"

definition fsmPlanners :: "sectorState \<Rightarrow> planner option" where
  "fsmPlanners st = map_of fsmTable st"

text \<open>An error, or whether to take more events, with the new record.\<close>

definition next_action :: "action \<Rightarrow> sectorInfo \<Rightarrow> (fsm_error + bool) \<times> sectorInfo" where
  "next_action act si = (case act of
     On st \<Rightarrow> (Inr False, si\<lparr>si_State := st\<rparr>)
   | OnWithCB st success name \<Rightarrow> (Inr False, (maybeNotifyRemoteDone success name si)\<lparr>si_State := st\<rparr>)
   | Apply \<Rightarrow> (Inr True, si)
   | OnReturning \<Rightarrow>
       (case si_Return si of
          None \<Rightarrow> (Inl ErrReturnNotSet, si)
        | Some st \<Rightarrow> (Inr False, si\<lparr>si_State := st, si_Return := None\<rparr>)))"

text \<open>
  A planner returns the number of events it consumed, an error if there is one, and the new
  record; \<open>i\<close> events have been consumed so far. \<open>None\<close> is a panic.
\<close>

type_synonym plan_result = "(nat \<times> fsm_error option \<times> sectorInfo) option"

fun planOne :: "int \<Rightarrow> (string \<times> action) list \<Rightarrow> nat \<Rightarrow> event list \<Rightarrow> sectorInfo \<Rightarrow> plan_result" where
  "planOne now ts i [] si = Some (i, None, si)"
| "planOne now ts i (e # es) si =
     (if globalMutator e then Some (i + 1, None, fst (applyGlobal e si))
      else case map_of ts (typeOf e) of
        Some act \<Rightarrow>
          (case apply_event now e si of
             None \<Rightarrow> None
           | Some si1 \<Rightarrow>
               (case next_action act si1 of
                  (Inl err, si2) \<Rightarrow> Some (i + 1, Some err, si2)
                | (Inr again, si2) \<Rightarrow>
                    (if \<not> again then Some (i + 1, None, si2) else planOne now ts (i + 1) es si2)))
      | None \<Rightarrow>
          (if Ignorable e then planOne now ts (i + 1) es si
           else Some (i + 1, Some (ErrUnexpectedEvent (typeOf e)), si)))"

definition planOneOrIgnore :: "int \<Rightarrow> (string \<times> action) list \<Rightarrow> event list \<Rightarrow> sectorInfo \<Rightarrow> plan_result" where
  "planOneOrIgnore now ts events si =
     (case planOne now ts 0 events si of
        None \<Rightarrow> None
      | Some (cnt, err, si') \<Rightarrow> Some (cnt, None, si'))"

text \<open>
  The switch of \<open>planCommitting\<close> on one event: an error, or the new record and whether to
  return.
\<close>

definition committing_event :: "int \<Rightarrow> event \<Rightarrow> sectorInfo \<Rightarrow> (fsm_error + sectorInfo \<times> bool) option" where
  "committing_event now e si =
     (if globalMutator e then Some (Inr (applyGlobal e si))
      else case e of
        SectorCommitted p \<Rightarrow> map_option (\<lambda>s. Inr (s\<lparr>si_State := SubmitCommit\<rparr>, False)) (apply_event now e si)
      | SectorProofReady p \<Rightarrow> map_option (\<lambda>s. Inr (s\<lparr>si_State := CommitFinalize\<rparr>, False)) (apply_event now e si)
      | SectorSeedReady v ep \<Rightarrow>
          (if ep = si_SeedEpoch si \<and> v = si_SeedValue si then Some (Inr (si, False))
           else map_option (\<lambda>s. Inr (s\<lparr>si_State := Committing\<rparr>, True)) (apply_event now e si))
      | SectorComputeProofFailed \<Rightarrow> Some (Inr (si\<lparr>si_State := ComputeProofFailed\<rparr>, False))
      | SectorRemoteCommit1Failed \<Rightarrow> Some (Inr (si\<lparr>si_State := RemoteCommitFailed\<rparr>, False))
      | SectorRemoteCommit2Failed \<Rightarrow> Some (Inr (si\<lparr>si_State := RemoteCommitFailed\<rparr>, False))
      | SectorSealPreCommit1Failed \<Rightarrow> Some (Inr (si\<lparr>si_State := SealPreCommit1Failed\<rparr>, False))
      | SectorCommitFailed \<Rightarrow> Some (Inr (si\<lparr>si_State := CommitFailed\<rparr>, False))
      | SectorRetryCommitWait \<Rightarrow> Some (Inr (si\<lparr>si_State := CommitWait\<rparr>, False))
      | _ \<Rightarrow> Some (Inl (ErrUnknownCommitting (typeOf e))))"

fun planCommitting :: "int \<Rightarrow> nat \<Rightarrow> event list \<Rightarrow> sectorInfo \<Rightarrow> plan_result" where
  "planCommitting now i [] si = Some (i, None, si)"
| "planCommitting now i (e # es) si =
     (case committing_event now e si of
        None \<Rightarrow> None
      | Some (Inl err) \<Rightarrow> Some (i, Some err, si)
      | Some (Inr (si', stop)) \<Rightarrow> if stop then Some (i + 1, None, si') else planCommitting now (i + 1) es si')"

definition finalRemoved :: "event list \<Rightarrow> sectorInfo \<Rightarrow> plan_result" where
  "finalRemoved events si = Some (length events, None, si)"

definition final :: "event list \<Rightarrow> sectorInfo \<Rightarrow> plan_result" where
  "final events si =
     (case events of
        e # es \<Rightarrow> if globalMutator e then Some (1, None, fst (applyGlobal e si)) else Some (0, Some ErrFinalState, si)
      | [] \<Rightarrow> Some (0, Some ErrFinalState, si))"

definition run_planner :: "int \<Rightarrow> planner \<Rightarrow> event list \<Rightarrow> sectorInfo \<Rightarrow> plan_result" where
  "run_planner now p events si = (case p of
     PlanOne ts \<Rightarrow> planOne now ts 0 events si
   | PlanOneOrIgnore ts \<Rightarrow> planOneOrIgnore now ts events si
   | PlanCommitting \<Rightarrow> planCommitting now 0 events si
   | Final \<Rightarrow> final events si
   | FinalRemoved \<Rightarrow> finalRemoved events si)"

end
