(* ===== verification/Sealing_Plan.thy ===== *)
theory Sealing_Plan
  imports Sealing_Fsm
begin

text \<open>
  Planning for one sector: the log, the statistics and \<^verbatim>\<open>Sealing.plan\<close> with its wrapper
  \<^verbatim>\<open>Sealing.Plan\<close> (storage/pipeline/fsm.go, stats.go, sector_state.go, types.go), on top of the
  planners of \<^verbatim>\<open>Sealing_Fsm\<close>.
\<close>

section \<open>The log\<close>

text \<open>
  \<open>logAppend\<close>: with more than 8000 entries a marker is written at index 2000, and then
  \<^verbatim>\<open>append(state.Log[:2000], state.Log[6000:]...)\<close> is taken in the same array.
\<close>

definition logMax :: nat where "logMax = 8000"
definition logKeepFirst :: nat where "logKeepFirst = 2000"
definition logKeepFrom :: nat where "logKeepFrom = 6000"

definition truncation :: "int \<Rightarrow> logEntry" where
  "truncation now = \<lparr>le_Timestamp = now, le_Trace = '''',
     le_Message = ''truncating log (above 8000 entries)'', le_Kind = ''truncate''\<rparr>"

definition logAppend :: "int \<Rightarrow> logEntry \<Rightarrow> sectorInfo \<Rightarrow> sectorInfo" where
  "logAppend now l si =
     (let log = (if logMax < length (si_Log si)
                 then (let marked = (si_Log si)[logKeepFirst := truncation now]
                       in take logKeepFirst marked @ drop logKeepFrom marked)
                 else si_Log si)
      in si\<lparr>si_Log := log @ [l]\<rparr>)"

text \<open>
  What planning takes from outside: the clock, the JSON form of an event (\<open>None\<close> is a
  marshalling error), the trace of an error event, the text and type of an error, the
  configuration (\<open>None\<close>: no \<^verbatim>\<open>getConfig\<close>; \<open>Some None\<close>: it fails), whether the current
  seal proof type can be read, and the miner's actor number.
\<close>

record sealing_cfg =
  cfg_FinalizeEarly :: bool
  cfg_MaxSealingSectorsForDeals :: "64 word"
  cfg_MaxWaitDealsSectors :: "64 word"

record plan_env =
  pe_now :: int
  pe_marshal :: "event \<Rightarrow> string option"
  pe_trace :: "event \<Rightarrow> string option"
  pe_errText :: "fsm_error \<Rightarrow> string"
  pe_errKind :: "fsm_error \<Rightarrow> string"
  pe_getConfig :: "sealing_cfg option option"
  pe_sealProof :: bool
  pe_miner :: nat

definition eventLog :: "plan_env \<Rightarrow> event \<Rightarrow> string \<Rightarrow> logEntry" where
  "eventLog env ev e =
     \<lparr>le_Timestamp = pe_now env,
      le_Trace = (case pe_trace env ev of None \<Rightarrow> '''' | Some t \<Rightarrow> t),
      le_Message = (if length e > 8000 then take 8000 e @ ''... truncated'' else e),
      le_Kind = ''event;sealing.'' @ typeOf ev\<rparr>"

fun logEvents :: "plan_env \<Rightarrow> event list \<Rightarrow> sectorInfo \<Rightarrow> sectorInfo" where
  "logEvents env [] si = si"
| "logEvents env (ev # evs) si =
     (case pe_marshal env ev of
        None \<Rightarrow> logEvents env evs si
      | Some e \<Rightarrow>
          (if ev = SectorRestart then logEvents env evs si
           else logEvents env evs (logAppend (pe_now env) (eventLog env ev e) si)))"

section \<open>Statistics\<close>

datatype statSectorState = sstStaging | sstSealing | sstFailed | sstProving

definition toStatState :: "sectorState \<Rightarrow> bool \<Rightarrow> statSectorState" where
  "toStatState st finEarly =
     (if st \<in> {UndefinedSectorState, Empty, WaitDeals, AddPiece, AddPieceFailed, SnapDealsWaitDeals, SnapDealsAddPiece}
      then sstStaging
      else if st \<in> {Packing, GetTicket, PreCommit1, PreCommit2, PreCommitting, PreCommitWait, SubmitPreCommitBatch,
                    PreCommitBatchWait, WaitSeed, Committing, CommitFinalize, FinalizeSector, SnapDealsPacking,
                    UpdateReplica, ProveReplicaUpdate, FinalizeReplicaUpdate, ReceiveSector}
      then sstSealing
      else if st \<in> {SubmitCommit, CommitWait, SubmitCommitAggregate, CommitAggregateWait, WaitMutable,
                    SubmitReplicaUpdate, ReplicaUpdateWait}
      then (if finEarly then sstProving else sstSealing)
      else if st \<in> {Proving, Available, UpdateActivating, ReleaseSectorKey, Removed, Removing, Terminating,
                    TerminateWait, TerminateFinality, TerminateFailed}
      then sstProving
      else sstFailed)"

definition IsUpgradeState :: "sectorState \<Rightarrow> bool" where
  "IsUpgradeState st \<longleftrightarrow>
     st \<in> {SnapDealsWaitDeals, SnapDealsAddPiece, SnapDealsPacking, UpdateReplica, ProveReplicaUpdate,
           SubmitReplicaUpdate, WaitMutable, SnapDealsAddPieceFailed, SnapDealsDealsExpired,
           SnapDealsRecoverDealIDs, AbortUpgrade, ReplicaUpdateFailed, ReleaseSectorKeyFailed,
           FinalizeReplicaUpdateFailed}"

type_synonym sectorID = "nat \<times> nat"

text \<open>\<^verbatim>\<open>totals\<close> is an array indexed by the class of a state.\<close>

record sectorStats =
  ss_bySector :: "(sectorID, sectorState) gomap"
  ss_byState :: "(sectorState, int) gomap"
  ss_totals :: "statSectorState \<Rightarrow> 64 word"

definition curSealingLocked :: "sectorStats \<Rightarrow> 64 word" where
  "curSealingLocked ss = ss_totals ss sstStaging + ss_totals ss sstSealing + ss_totals ss sstFailed"

definition curStagingLocked :: "sectorStats \<Rightarrow> 64 word" where
  "curStagingLocked ss = ss_totals ss sstStaging"

text \<open>\<open>bump m k d\<close>: \<^verbatim>\<open>m[k] += d\<close> on a map of int64 counters, an absent key counting as 0.\<close>

definition bump :: "(sectorState, int) gomap \<Rightarrow> sectorState \<Rightarrow> int \<Rightarrow> (sectorState, int) gomap" where
  "bump m k d = gm_set k (wrap64 ((case gm_get m k of None \<Rightarrow> 0 | Some n \<Rightarrow> n) + d)) m"

definition updateSector :: "sealing_cfg \<Rightarrow> sectorID \<Rightarrow> sectorState \<Rightarrow> sectorStats \<Rightarrow> bool \<times> sectorStats" where
  "updateSector cfg i st ss =
     (let preSealing = curSealingLocked ss;
          preStaging = curStagingLocked ss;
          fe = cfg_FinalizeEarly cfg;
          ss1 = (case gm_get (ss_bySector ss) i of
                   None \<Rightarrow> ss
                 | Some oldst \<Rightarrow>
                     ss\<lparr>ss_totals := (ss_totals ss)(toStatState oldst fe := ss_totals ss (toStatState oldst fe) - 1),
                        ss_byState := bump (ss_byState ss) oldst (- 1)\<rparr>);
          sst = toStatState st fe;
          ss2 = ss1\<lparr>ss_bySector := gm_set i st (ss_bySector ss1),
                    ss_totals := (ss_totals ss1)(sst := ss_totals ss1 sst + 1),
                    ss_byState := bump (ss_byState ss1) st 1\<rparr>;
          sealing = curSealingLocked ss2;
          staging = curStagingLocked ss2;
          ms = cfg_MaxSealingSectorsForDeals cfg;
          mw = cfg_MaxWaitDealsSectors cfg
      in ((0 < ms \<and> ms \<le> preSealing \<and> sealing < ms) \<or> (0 < mw \<and> mw \<le> preStaging \<and> staging < mw), ss2))"

text \<open>
  \<open>onUpdateSector\<close>: the updated statistics and whether input processing is to be triggered
  (the goroutine that \<^verbatim>\<open>updateInput\<close> runs in belongs to the input queue).
\<close>

definition onUpdateSector :: "plan_env \<Rightarrow> sectorInfo \<Rightarrow> sectorStats \<Rightarrow> bool \<times> sectorStats" where
  "onUpdateSector env si ss =
     (case pe_getConfig env of
        None \<Rightarrow> (False, ss)
      | Some None \<Rightarrow> (False, ss)
      | Some (Some cfg) \<Rightarrow>
          (case updateSector cfg (pe_miner env, si_SectorNumber si) (si_State si) ss of
             (shouldUpdateInput, ss') \<Rightarrow> (shouldUpdateInput \<and> pe_sealProof env, ss')))"

section \<open>Planning\<close>

text \<open>The switch of \<open>plan\<close>: the handler of the sector's new state.\<close>

definition handlerOf :: "sectorState \<Rightarrow> fsm_error + string" where
  "handlerOf st = (case st of
     ReceiveSector \<Rightarrow> Inr ''handleReceiveSector''
   | Empty \<Rightarrow> Inr ''handleWaitDeals''
   | WaitDeals \<Rightarrow> Inr ''handleWaitDeals''
   | AddPiece \<Rightarrow> Inr ''handleAddPiece''
   | Packing \<Rightarrow> Inr ''handlePacking''
   | GetTicket \<Rightarrow> Inr ''handleGetTicket''
   | PreCommit1 \<Rightarrow> Inr ''handlePreCommit1''
   | PreCommit2 \<Rightarrow> Inr ''handlePreCommit2''
   | PreCommitting \<Rightarrow> Inr ''handlePreCommitting''
   | SubmitPreCommitBatch \<Rightarrow> Inr ''handleSubmitPreCommitBatch''
   | PreCommitBatchWait \<Rightarrow> Inr ''handlePreCommitWait''
   | PreCommitWait \<Rightarrow> Inr ''handlePreCommitWait''
   | WaitSeed \<Rightarrow> Inr ''handleWaitSeed''
   | Committing \<Rightarrow> Inr ''handleCommitting''
   | SubmitCommit \<Rightarrow> Inr ''handleSubmitCommit''
   | SubmitCommitAggregate \<Rightarrow> Inr ''handleSubmitCommitAggregate''
   | CommitAggregateWait \<Rightarrow> Inr ''handleCommitWait''
   | CommitWait \<Rightarrow> Inr ''handleCommitWait''
   | CommitFinalize \<Rightarrow> Inr ''handleFinalizeSector''
   | FinalizeSector \<Rightarrow> Inr ''handleFinalizeSector''
   | SnapDealsWaitDeals \<Rightarrow> Inr ''handleWaitDeals''
   | SnapDealsAddPiece \<Rightarrow> Inr ''handleAddPiece''
   | SnapDealsPacking \<Rightarrow> Inr ''handlePacking''
   | UpdateReplica \<Rightarrow> Inr ''handleReplicaUpdate''
   | ProveReplicaUpdate \<Rightarrow> Inr ''handleProveReplicaUpdate''
   | SubmitReplicaUpdate \<Rightarrow> Inr ''handleSubmitReplicaUpdate''
   | WaitMutable \<Rightarrow> Inr ''handleWaitMutable''
   | ReplicaUpdateWait \<Rightarrow> Inr ''handleReplicaUpdateWait''
   | FinalizeReplicaUpdate \<Rightarrow> Inr ''handleFinalizeReplicaUpdate''
   | UpdateActivating \<Rightarrow> Inr ''handleUpdateActivating''
   | ReleaseSectorKey \<Rightarrow> Inr ''handleReleaseSectorKey''
   | AddPieceFailed \<Rightarrow> Inr ''handleAddPieceFailed''
   | SealPreCommit1Failed \<Rightarrow> Inr ''handleSealPrecommit1Failed''
   | SealPreCommit2Failed \<Rightarrow> Inr ''handleSealPrecommit2Failed''
   | PreCommitFailed \<Rightarrow> Inr ''handlePreCommitFailed''
   | ComputeProofFailed \<Rightarrow> Inr ''handleComputeProofFailed''
   | RemoteCommitFailed \<Rightarrow> Inr ''handleRemoteCommitFailed''
   | CommitFailed \<Rightarrow> Inr ''handleCommitFailed''
   | CommitFinalizeFailed \<Rightarrow> Inr ''handleFinalizeFailed''
   | FinalizeFailed \<Rightarrow> Inr ''handleFinalizeFailed''
   | PackingFailed \<Rightarrow> Inr ''handleDealsExpired''
   | DealsExpired \<Rightarrow> Inr ''handleDealsExpired''
   | RecoverDealIDs \<Rightarrow> Inr ''HandleRecoverDealIDs''
   | SnapDealsAddPieceFailed \<Rightarrow> Inr ''handleAddPieceFailed''
   | SnapDealsDealsExpired \<Rightarrow> Inr ''handleDealsExpiredSnapDeals''
   | SnapDealsRecoverDealIDs \<Rightarrow> Inr ''handleSnapDealsRecoverDealIDs''
   | ReplicaUpdateFailed \<Rightarrow> Inr ''handleSubmitReplicaUpdateFailed''
   | ReleaseSectorKeyFailed \<Rightarrow> Inr ''handleReleaseSectorKeyFailed''
   | FinalizeReplicaUpdateFailed \<Rightarrow> Inr ''handleFinalizeFailed''
   | AbortUpgrade \<Rightarrow> Inr ''handleAbortUpgrade''
   | Proving \<Rightarrow> Inr ''handleProvingSector''
   | Available \<Rightarrow> Inr ''handleAvailableSector''
   | Terminating \<Rightarrow> Inr ''handleTerminating''
   | TerminateWait \<Rightarrow> Inr ''handleTerminateWait''
   | TerminateFinality \<Rightarrow> Inr ''handleTerminateFinality''
   | TerminateFailed \<Rightarrow> Inr ''handleTerminateFailed''
   | Removing \<Rightarrow> Inr ''handleRemoving''
   | Removed \<Rightarrow> Inl ErrSectorRemoved
   | RemoveFailed \<Rightarrow> Inr ''handleRemoveFailed''
   | Faulty \<Rightarrow> Inr ''handleFaulty''
   | FaultReported \<Rightarrow> Inr ''handleFaultReported''
   | UndefinedSectorState \<Rightarrow> Inl ErrUndefinedState
   | FailedUnrecoverable \<Rightarrow> Inl ErrFailedUnrecoverable
   | _ \<Rightarrow> Inl ErrUnexpectedState)"

text \<open>The result of planning: the handler to start or an error, the number of events consumed,
  the new record, the statistics and whether more input is to be processed.\<close>

record planned =
  pl_next :: "fsm_error + string"
  pl_processed :: nat
  pl_si :: sectorInfo
  pl_stats :: sectorStats
  pl_updateInput :: bool

text \<open>The deprecated state \<open>PackingFailed\<close> is rewritten; \<open>ReleaseSectorKeyFailed\<close> reports 0 events.\<close>

definition plan_next :: "plan_env \<Rightarrow> nat \<Rightarrow> sectorInfo \<Rightarrow> sectorStats \<Rightarrow> planned" where
  "plan_next env processed si ss =
     (case onUpdateSector env si ss of
        (upd, ss') \<Rightarrow>
          \<lparr>pl_next = handlerOf (si_State si),
           pl_processed = (if si_State si = ReleaseSectorKeyFailed then 0 else processed),
           pl_si = (if si_State si = PackingFailed then si\<lparr>si_State := DealsExpired\<rparr> else si),
           pl_stats = ss', pl_updateInput = upd\<rparr>)"

definition planner_for :: "event list \<Rightarrow> sectorState \<Rightarrow> planner option" where
  "planner_for events st =
     (case fsmPlanners st of
        Some p \<Rightarrow> Some p
      | None \<Rightarrow>
          (case events of
             [e] \<Rightarrow> if globalMutator e then Some (PlanOne []) else None
           | _ \<Rightarrow> None))"

definition plan :: "plan_env \<Rightarrow> event list \<Rightarrow> sectorInfo \<Rightarrow> sectorStats \<Rightarrow> planned option" where
  "plan env events si ss =
     (let si0 = logEvents env events si
      in case planner_for events (si_State si0) of
           None \<Rightarrow> Some \<lparr>pl_next = Inl ErrNoPlanner, pl_processed = 0, pl_si = si0, pl_stats = ss, pl_updateInput = False\<rparr>
         | Some p \<Rightarrow>
             (case run_planner (pe_now env) p events si0 of
                None \<Rightarrow> None
              | Some (processed, Some err, si1) \<Rightarrow>
                  Some \<lparr>pl_next = Inl err, pl_processed = processed, pl_si = si1, pl_stats = ss, pl_updateInput = False\<rparr>
              | Some (processed, None, si1) \<Rightarrow> Some (plan_next env processed si1 ss)))"

text \<open>
  \<open>Plan\<close>: the handler to run if there is one, whether the machine terminates, the number of
  events consumed, the record and the statistics. \<open>keep\<close> is the environment variable
  \<^verbatim>\<open>LOTUS_KEEP_REMOVED_FSM_ACTIVE\<close> being 1.
\<close>

record fsm_step =
  fs_handler :: "string option"
  fs_terminated :: bool
  fs_processed :: nat
  fs_si :: sectorInfo
  fs_stats :: sectorStats

definition errorLog :: "plan_env \<Rightarrow> fsm_error \<Rightarrow> logEntry" where
  "errorLog env err =
     \<lparr>le_Timestamp = pe_now env, le_Trace = '''',
      le_Message = ''state machine error: '' @ pe_errText env err, le_Kind = ''error;'' @ pe_errKind env err\<rparr>"

definition Plan :: "plan_env \<Rightarrow> bool \<Rightarrow> event list \<Rightarrow> sectorInfo \<Rightarrow> sectorStats \<Rightarrow> fsm_step option" where
  "Plan env keep events si ss =
     (case plan env events si ss of
        None \<Rightarrow> None
      | Some pl \<Rightarrow>
          (case pl_next pl of
             Inr h \<Rightarrow>
               Some \<lparr>fs_handler = Some h, fs_terminated = False, fs_processed = pl_processed pl,
                     fs_si = pl_si pl, fs_stats = pl_stats pl\<rparr>
           | Inl err \<Rightarrow>
               (if err = ErrSectorRemoved \<and> \<not> keep
                then Some \<lparr>fs_handler = None, fs_terminated = True, fs_processed = pl_processed pl,
                           fs_si = pl_si pl, fs_stats = pl_stats pl\<rparr>
                else Some \<lparr>fs_handler = None, fs_terminated = False, fs_processed = pl_processed pl,
                           fs_si = logAppend (pe_now env) (errorLog env err) (pl_si pl), fs_stats = pl_stats pl\<rparr>)))"

section \<open>The pieces of a sector\<close>

definition pieceInfos :: "sectorInfo \<Rightarrow> pieceInfo list" where
  "pieceInfos si = map sp_Piece (si_Pieces si)"

fun dealIDs_of :: "sectorPiece list \<Rightarrow> nat list" where
  "dealIDs_of [] = []"
| "dealIDs_of (p # ps) = (case sp_DealInfo p of None \<Rightarrow> dealIDs_of ps | Some di \<Rightarrow> di_DealID di # dealIDs_of ps)"

definition dealIDs :: "sectorInfo \<Rightarrow> nat list" where
  "dealIDs si = dealIDs_of (si_Pieces si)"

definition hasDeals :: "sectorInfo \<Rightarrow> bool" where
  "hasDeals si = list_ex (\<lambda>p. sp_DealInfo p \<noteq> None) (si_Pieces si)"

text \<open>\<open>unpadded\<close> is \<^verbatim>\<open>abi.PaddedPieceSize.Unpadded\<close>.\<close>

definition existingPieceSizes :: "(64 word \<Rightarrow> 64 word) \<Rightarrow> sectorInfo \<Rightarrow> 64 word list" where
  "existingPieceSizes unpadded si = map (\<lambda>p. unpadded (pi_Size (sp_Piece p))) (si_Pieces si)"

text \<open>Offset and size of every range to keep; \<open>pos\<close> is the running offset.\<close>

fun keepRanges :: "(64 word \<Rightarrow> 64 word) \<Rightarrow> bool \<Rightarrow> bool \<Rightarrow> 64 word \<Rightarrow> sectorPiece list \<Rightarrow> (64 word \<times> 64 word) list" where
  "keepRanges unpadded invrt alwaysKeep pos [] = []"
| "keepRanges unpadded invrt alwaysKeep pos (p # ps) =
     (let psize = unpadded (pi_Size (sp_Piece p));
          pos' = pos + psize;
          rest = keepRanges unpadded invrt alwaysKeep pos' ps
      in case sp_DealInfo p of
           None \<Rightarrow> rest
         | Some di \<Rightarrow>
             (if (di_KeepUnsealed di \<or> alwaysKeep) = invrt then rest else (pos' - psize, psize) # rest))"

definition keepUnsealedRanges :: "(64 word \<Rightarrow> 64 word) \<Rightarrow> sectorPiece list \<Rightarrow> bool \<Rightarrow> bool \<Rightarrow> (64 word \<times> 64 word) list" where
  "keepUnsealedRanges unpadded pieces invrt alwaysKeep = keepRanges unpadded invrt alwaysKeep 0 pieces"

end
