(* ===== verification/Sealing_Props.thy ===== *)
theory Sealing_Props
  imports Sealing_Plan
begin

text \<open>
  Runs of a sector's state machine and an induction principle for them: the locale
  \<open>planner_invariant\<close> has as laws that an invariant is kept by every event in every rule of the
  table, and concludes that the planners keep it; \<open>sector_invariant\<close> extends it to planning calls
  and runs. The instance here is the commit gate.
\<close>

section \<open>What events and rules change\<close>

lemma applyGlobal_cases:
  assumes "globalMutator e"
  shows "e = SectorRestart \<or> e = SectorFatalError \<or> (\<exists>st. e = SectorForceState st) \<or> e = SectorTerminate \<or> e = SectorRemove"
  using assms by (cases e) (simp_all add: globalMutator_def)

lemma apply_event_frame:
  assumes "apply_event now e si = Some si'" "\<And>s. e \<noteq> SectorReceive s"
  shows "si_State si' = si_State si
    \<and> (si_CCPieces si' = si_CCPieces si \<or> e = SectorStartCCUpdate \<or> e = SectorRevertUpgradeToProving)
    \<and> (si_Return si' = si_Return si \<or> e = SectorInvalidDealIDs (si_Return si'))"
  using assms by (cases e) (auto simp: apply_defs split: if_splits)

lemma apply_event_total:
  assumes "\<And>us. e \<noteq> SectorUpdateDealIDs us"
  shows "\<exists>si'. apply_event now e si = Some si'"
  using assms by (cases e) (auto simp: apply_defs)

lemma maybeNotifyRemoteDone_frame [simp]:
  "si_State (maybeNotifyRemoteDone b n si) = si_State si"
  "si_CCPieces (maybeNotifyRemoteDone b n si) = si_CCPieces si"
  "si_Return (maybeNotifyRemoteDone b n si) = si_Return si"
  by (simp_all add: maybeNotifyRemoteDone_def)

lemma logAppend_frame: "\<exists>l'. logAppend now l si = si\<lparr>si_Log := l'\<rparr>"
  unfolding logAppend_def Let_def by (rule exI) (rule refl)

lemma logEvents_frame: "\<exists>l. logEvents env evs si = si\<lparr>si_Log := l\<rparr>"
proof (induction evs arbitrary: si)
  case Nil
  show ?case by (auto intro: exI [of _ "si_Log si"])
next
  case (Cons ev evs)
  have "\<exists>l2. logEvents env evs (logAppend (pe_now env) l si) = si\<lparr>si_Log := l2\<rparr>" for l
  proof -
    obtain l1 where "logAppend (pe_now env) l si = si\<lparr>si_Log := l1\<rparr>" using logAppend_frame by blast
    then show ?thesis using Cons.IH [of "si\<lparr>si_Log := l1\<rparr>"] by simp
  qed
  then show ?case using Cons.IH [of si] by (simp split: option.split)
qed

lemma logEvents_State [simp]: "si_State (logEvents env evs si) = si_State si"
  using logEvents_frame [of env evs si] by auto

lemma typeOf_SectorReceive: "typeOf e = ''SectorReceive'' \<longleftrightarrow> (\<exists>s. e = SectorReceive s)"
  by (cases e) simp_all

lemma typeOf_SectorProving: "typeOf e = ''SectorProving'' \<longleftrightarrow> e = SectorProving"
  by (cases e) simp_all

lemma typeOf_SectorStartCCUpdate: "typeOf e = ''SectorStartCCUpdate'' \<longleftrightarrow> e = SectorStartCCUpdate"
  by (cases e) simp_all

lemma typeOf_SectorRevertUpgradeToProving:
  "typeOf e = ''SectorRevertUpgradeToProving'' \<longleftrightarrow> e = SectorRevertUpgradeToProving"
  by (cases e) simp_all

section \<open>Invariants of runs\<close>

definition rules_of :: "planner \<Rightarrow> (string \<times> action) list" where
  "rules_of p = (case p of PlanOne ts \<Rightarrow> ts | PlanOneOrIgnore ts \<Rightarrow> ts | _ \<Rightarrow> [])"

definition rule_at :: "sectorState \<Rightarrow> string \<Rightarrow> action \<Rightarrow> bool" where
  "rule_at st t act \<longleftrightarrow> (\<exists>p. fsmPlanners st = Some p \<and> map_of (rules_of p) t = Some act)"

definition all_rules :: "(sectorState \<Rightarrow> string \<Rightarrow> action \<Rightarrow> bool) \<Rightarrow> bool" where
  "all_rules P = list_all (\<lambda>(st, p). list_all (\<lambda>(t, act). P st t act) (rules_of p)) fsmTable"

lemma all_rulesD: "all_rules P \<Longrightarrow> rule_at st t act \<Longrightarrow> P st t act"
  by (fastforce simp: all_rules_def rule_at_def fsmPlanners_def list_all_iff dest: map_of_SomeD)

lemmas table_defs = fsmTable_def sealingPlanners_def snapPlanners_def sealingErrorPlanners_def
  snapErrorPlanners_def postSealPlanners_def

lemmas table_check = all_rules_def rules_of_def table_defs

lemma apply_rules: "all_rules (\<lambda>st t act. act = Apply \<longrightarrow> t \<noteq> ''SectorReceive'')"
  by (simp add: table_check)

text \<open>The states in which \<open>planCommitting\<close> may be within one batch of events.\<close>

definition committing :: "sectorState \<Rightarrow> bool" where
  "committing st \<longleftrightarrow> st \<in> {Committing, SubmitCommit, CommitFinalize, ComputeProofFailed, RemoteCommitFailed,
     SealPreCommit1Failed, CommitFailed, CommitWait}"

lemma committing_event_committing:
  assumes "committing_event now e si = Some (Inr (si', False))" "committing (si_State si)"
  shows "committing (si_State si')"
  using assms
  by (cases e) (auto simp: committing_event_def committing_def globalMutator_def applyGlobal_def apply_defs split: if_splits)

lemma planner_committing: "list_all (\<lambda>(st, p). p = PlanCommitting \<longrightarrow> st = Committing) fsmTable"
  by (simp add: table_defs)

lemma planner_for_committing:
  assumes "planner_for es st = Some PlanCommitting"
  shows "st = Committing"
proof -
  have "(st, PlanCommitting) \<in> set fsmTable"
    using assms map_of_SomeD [of fsmTable st]
    by (auto simp: planner_for_def fsmPlanners_def split: option.splits list.splits if_splits)
  then show ?thesis using planner_committing by (auto simp: list_all_iff)
qed

text \<open>
  A run of the machine of one sector: planning calls in sequence, with the events that were
  handed to them. Clock, configuration and statistics may differ from call to call.
\<close>

inductive runs :: "sectorInfo \<Rightarrow> event list \<Rightarrow> sectorInfo \<Rightarrow> bool" for si0 where
  start: "runs si0 [] si0"
| plan_more: "runs si0 h si \<Longrightarrow> Plan env keep events si ss = Some st \<Longrightarrow> runs si0 (h @ events) (fs_si st)"

locale planner_invariant =
  fixes ok :: "event \<Rightarrow> bool"
    and I :: "event list \<Rightarrow> sectorInfo \<Rightarrow> bool"
  assumes skip: "I h si \<Longrightarrow> I (h @ es) si"
    and global: "I h si \<Longrightarrow> ok e \<Longrightarrow> globalMutator e \<Longrightarrow> I (h @ [e]) (fst (applyGlobal e si))"
    and rule: "I h si \<Longrightarrow> ok e \<Longrightarrow> rule_at (si_State si) (typeOf e) act \<Longrightarrow> apply_event now e si = Some si1 \<Longrightarrow>
      I (h @ [e]) (snd (next_action act si1))"
    and commit: "I h si \<Longrightarrow> ok e \<Longrightarrow> committing (si_State si) \<Longrightarrow>
      committing_event now e si = Some (Inr (si', stop)) \<Longrightarrow> I (h @ [e]) si'"
    and packing: "I h si \<Longrightarrow> si_State si = PackingFailed \<Longrightarrow> I h (si\<lparr>si_State := DealsExpired\<rparr>)"
begin

lemma planOne_keeps:
  assumes "planOne now ts i es si = Some (n, err, si')" "I h si" "list_all ok es"
    and "\<And>t act. map_of ts t = Some act \<Longrightarrow> rule_at (si_State si) t act"
  shows "I (h @ es) si'"
  using assms
proof (induction now ts i es si arbitrary: h rule: planOne.induct)
  case (1 now ts i si)
  then show ?case by simp
next
  case (2 now ts i e es si)
  have ok: "ok e" "list_all ok es" using "2.prems" by simp_all
  have more: "I ((h @ [e]) @ es) s \<Longrightarrow> I (h @ e # es) s" for s by simp
  consider (glob) "globalMutator e"
    | (none) "\<not> globalMutator e" "map_of ts (typeOf e) = None"
    | (act) act where "\<not> globalMutator e" "map_of ts (typeOf e) = Some act"
    by fastforce
  then show ?case
  proof cases
    case glob
    then have "si' = fst (applyGlobal e si)" using "2.prems" by simp
    then show ?thesis using global [OF "2.prems"(2) ok(1) glob] skip more by blast
  next
    case none
    show ?thesis
    proof (cases "Ignorable e")
      case True
      have "planOne now ts (i + 1) es si = Some (n, err, si')" using none True "2.prems" by simp
      then have "I ((h @ [e]) @ es) si'"
        using "2.IH"(1) [OF none True _ skip [OF "2.prems"(2)] ok(2) "2.prems"(4)] by blast
      then show ?thesis by (rule more)
    next
      case False
      then have "si' = si" using none "2.prems" by simp
      then show ?thesis using skip [OF "2.prems"(2), of "e # es"] by simp
    qed
  next
    case act
    then obtain si1 where si1: "apply_event now e si = Some si1"
      using "2.prems"(1) by (auto split: option.splits)
    obtain r si2 where r: "next_action act si1 = (r, si2)" by fastforce
    have at: "rule_at (si_State si) (typeOf e) act" using "2.prems"(4) act(2) by blast
    have step: "I (h @ [e]) si2" using rule [OF "2.prems"(2) ok(1) at si1] r by simp
    show ?thesis
    proof (cases "r = Inr True")
      case False
      then have "si' = si2" using "2.prems"(1) act si1 r by (auto split: sum.splits if_splits)
      then show ?thesis using skip [OF step] more by blast
    next
      case True
      have "act = Apply" "si2 = si1" using True r by (auto simp: next_action_def split: action.splits option.splits)
      then have "si_State si2 = si_State si"
        using all_rulesD [OF apply_rules at] apply_event_frame [OF si1] typeOf_SectorReceive [of e] by auto
      moreover have "planOne now ts (i + 1) es si2 = Some (n, err, si')" using "2.prems"(1) act si1 r True by simp
      ultimately have "I ((h @ [e]) @ es) si'"
        using "2.IH"(2) [OF act si1 r [symmetric], of True "h @ [e]"] True step ok(2) "2.prems"(4) by simp
      then show ?thesis by (rule more)
    qed
  qed
qed

lemma planCommitting_keeps:
  assumes "planCommitting now i es si = Some (n, err, si')" "I h si" "list_all ok es" "committing (si_State si)"
  shows "I (h @ es) si'"
  using assms
proof (induction now i es si arbitrary: h rule: planCommitting.induct)
  case (1 now i si)
  then show ?case by simp
next
  case (2 now i e es si)
  have ok: "ok e" "list_all ok es" using "2.prems" by simp_all
  consider (err) x where "committing_event now e si = Some (Inl x)"
    | (stop) s where "committing_event now e si = Some (Inr (s, True))"
    | (go) s where "committing_event now e si = Some (Inr (s, False))"
    using "2.prems"(1) by (auto split: option.splits sum.splits)
  then show ?case
  proof cases
    case err
    then show ?thesis using "2.prems" skip by auto
  next
    case stop
    then show ?thesis
      using "2.prems"(1) skip [OF commit [OF "2.prems"(2) ok(1) "2.prems"(4) stop], of es] by simp
  next
    case go
    have "I ((h @ [e]) @ es) si'"
      using "2.IH" [OF go refl refl, of "h @ [e]"] "2.prems"(1) go ok(2)
        commit [OF "2.prems"(2) ok(1) "2.prems"(4) go] committing_event_committing [OF go "2.prems"(4)] by simp
    then show ?thesis by simp
  qed
qed

lemma final_keeps:
  assumes "final es si = Some (n, err, si')" "I h si" "list_all ok es"
  shows "I (h @ es) si'"
proof (cases es)
  case Nil
  then show ?thesis using assms by (simp add: final_def)
next
  case (Cons e es')
  have "I ((h @ [e]) @ es') (fst (applyGlobal e si))" if "globalMutator e"
    using skip [OF global [OF assms(2) _ that]] assms(3) Cons by simp
  then show ?thesis using assms(1,2) Cons skip by (auto simp: final_def split: if_splits)
qed

lemma run_planner_keeps:
  assumes "planner_for es (si_State si) = Some p" "run_planner now p es si = Some (n, err, si')" "I h si" "list_all ok es"
  shows "I (h @ es) si'"
proof -
  have at: "map_of (rules_of p) t = Some act \<Longrightarrow> rule_at (si_State si) t act" for t act
    using assms(1)
    by (auto simp: planner_for_def rule_at_def rules_of_def split: option.splits list.splits if_splits)
  show ?thesis
  proof (cases p)
    case (PlanOne ts)
    then show ?thesis using assms(2) planOne_keeps [OF _ assms(3,4)] at by (simp add: run_planner_def rules_of_def)
  next
    case (PlanOneOrIgnore ts)
    then obtain err' where "planOne now ts 0 es si = Some (n, err', si')"
      using assms(2) by (auto simp: run_planner_def planOneOrIgnore_def split: option.splits)
    then show ?thesis using planOne_keeps [OF _ assms(3,4)] at PlanOneOrIgnore by (simp add: rules_of_def)
  next
    case PlanCommitting
    then have "si_State si = Committing" using assms(1) planner_for_committing by blast
    then show ?thesis
      using assms(2) PlanCommitting planCommitting_keeps [OF _ assms(3,4)] by (simp add: run_planner_def committing_def)
  next
    case Final
    then show ?thesis using assms(2) final_keeps [OF _ assms(3,4)] by (simp add: run_planner_def)
  next
    case FinalRemoved
    then show ?thesis using assms(2) skip [OF assms(3)] by (simp add: run_planner_def finalRemoved_def)
  qed
qed

end

text \<open>An invariant that does not depend on the log is kept by planning calls and runs.\<close>

locale sector_invariant = planner_invariant +
  assumes log: "I h si \<Longrightarrow> I h (si\<lparr>si_Log := l\<rparr>)"
begin

lemma plan_keeps:
  assumes "plan env es si ss = Some pl" "I h si" "list_all ok es"
  shows "I (h @ es) (pl_si pl)"
proof -
  obtain l where l: "logEvents env es si = si\<lparr>si_Log := l\<rparr>" using logEvents_frame by blast
  let ?si0 = "si\<lparr>si_Log := l\<rparr>"
  have I0: "I h ?si0" using log [OF assms(2)] .
  show ?thesis
  proof (cases "planner_for es (si_State ?si0)")
    case None
    then show ?thesis using assms(1) l skip [OF I0] by (auto simp: plan_def)
  next
    case (Some p)
    then obtain n err si1 where run: "run_planner (pe_now env) p es ?si0 = Some (n, err, si1)"
      using assms(1) l by (auto simp: plan_def split: option.splits)
    have I1: "I (h @ es) si1" using run_planner_keeps [OF Some run I0 assms(3)] .
    show ?thesis
      using assms(1) l Some run I1 packing [OF I1]
      by (auto simp: plan_def plan_next_def split: option.splits prod.splits if_splits)
  qed
qed

lemma Plan_keeps:
  assumes "Plan env keep es si ss = Some st" "I h si" "list_all ok es"
  shows "I (h @ es) (fs_si st)"
proof -
  obtain pl where pl: "plan env es si ss = Some pl" using assms(1) by (auto simp: Plan_def split: option.splits)
  have I1: "I (h @ es) (pl_si pl)" using plan_keeps [OF pl assms(2,3)] .
  have "fs_si st = pl_si pl \<or> (\<exists>l. fs_si st = logAppend (pe_now env) l (pl_si pl))"
    using assms(1) pl by (auto simp: Plan_def split: sum.splits if_splits)
  then show ?thesis using I1 log [OF I1] logAppend_frame by metis
qed

theorem runs_keep: "runs si0 h si \<Longrightarrow> I [] si0 \<Longrightarrow> list_all ok h \<Longrightarrow> I h si"
  by (induction rule: runs.induct) (auto intro: Plan_keeps)

end

section \<open>The commit gate\<close>

text \<open>
  The states a sector is in once its commitment has landed on the chain: finalizing after the
  commit, proving, upgrading, and the faults.
\<close>

definition onChain :: "sectorState \<Rightarrow> bool" where
  "onChain st \<longleftrightarrow> st \<in> {FinalizeSector, FinalizeFailed, Proving, Available, SnapDealsWaitDeals, SnapDealsAddPiece,
     SnapDealsPacking, UpdateReplica, ProveReplicaUpdate, SubmitReplicaUpdate, WaitMutable, ReplicaUpdateWait,
     FinalizeReplicaUpdate, UpdateActivating, ReleaseSectorKey, SnapDealsAddPieceFailed, SnapDealsDealsExpired,
     SnapDealsRecoverDealIDs, AbortUpgrade, ReplicaUpdateFailed, ReleaseSectorKeyFailed, FinalizeReplicaUpdateFailed,
     Faulty, FaultReported, FaultedFinal}"

text \<open>
  Events of the sealing pipeline itself: no state forced by an operator, no sector imported, and
  the return state of a deal recovery is one of the constants of \<^verbatim>\<open>ReturnState\<close>.
\<close>

definition ReturnStates :: "sectorState list" where
  "ReturnStates = [PreCommit1, PreCommitting, PreCommitFailed, CommitFailed]"

definition pipelineEvent :: "event \<Rightarrow> bool" where
  "pipelineEvent e = (case e of
     SectorForceState _ \<Rightarrow> False
   | SectorReceive _ \<Rightarrow> False
   | SectorInvalidDealIDs ret \<Rightarrow> (case ret of None \<Rightarrow> True | Some st \<Rightarrow> st \<in> set ReturnStates)
   | _ \<Rightarrow> True)"

lemma pipelineEvent_simps [simp]:
  "\<not> pipelineEvent (SectorForceState st)"
  "\<not> pipelineEvent (SectorReceive si)"
  "pipelineEvent (SectorInvalidDealIDs (Some st)) \<longleftrightarrow> st \<in> set ReturnStates"
  by (simp_all add: pipelineEvent_def)

lemma pipelineEvent_not_receive: "pipelineEvent e \<Longrightarrow> e \<noteq> SectorReceive s"
  by auto

fun target :: "action \<Rightarrow> sectorState option" where
  "target (On st) = Some st"
| "target (OnWithCB st success name) = Some st"
| "target Apply = None"
| "target OnReturning = None"

lemma next_action_frame:
  shows "si_CCPieces (snd (next_action act si)) = si_CCPieces si"
    and "si_Return (snd (next_action act si)) = si_Return si \<or> si_Return (snd (next_action act si)) = None"
    and "target act = Some (si_State (snd (next_action act si)))
       \<or> target act = None \<and> si_State (snd (next_action act si)) = si_State si
       \<or> target act = None \<and> si_Return si = Some (si_State (snd (next_action act si)))"
  by (cases act; simp add: next_action_def split: option.split)+

definition commit_gate :: "event list \<Rightarrow> sectorInfo \<Rightarrow> bool" where
  "commit_gate h si \<longleftrightarrow>
     (onChain (si_State si) \<longrightarrow> SectorProving \<in> set h) \<and>
     (\<forall>st. si_Return si = Some st \<longrightarrow> \<not> onChain st)"

lemma onChain_gate:
  "all_rules (\<lambda>st t act. case target act of None \<Rightarrow> True | Some st' \<Rightarrow> onChain st' \<longrightarrow> onChain st \<or> t = ''SectorProving'')"
  by (simp add: table_check onChain_def)

lemma ReturnStates_onChain: "st \<in> set ReturnStates \<Longrightarrow> \<not> onChain st"
  by (auto simp: ReturnStates_def onChain_def)

lemma committing_onChain: "committing st \<Longrightarrow> \<not> onChain st"
  by (auto simp: committing_def onChain_def)

lemma not_onChain [simp]:
  "\<not> onChain SubmitCommit" "\<not> onChain CommitFinalize" "\<not> onChain Committing" "\<not> onChain ComputeProofFailed"
  "\<not> onChain RemoteCommitFailed" "\<not> onChain SealPreCommit1Failed" "\<not> onChain CommitFailed" "\<not> onChain CommitWait"
  "\<not> onChain Terminating" "\<not> onChain Removing" "\<not> onChain DealsExpired"
  by (simp_all add: onChain_def)

lemma committing_not_onChain:
  assumes "committing_event now e si = Some (Inr (si', stop))" "pipelineEvent e" "committing (si_State si)"
  shows "\<not> onChain (si_State si') \<and> si_Return si' = si_Return si"
  using assms(1,2) committing_onChain [OF assms(3)]
  by (cases e) (auto simp: committing_event_def globalMutator_def applyGlobal_def apply_defs split: if_splits)

interpretation gate: sector_invariant pipelineEvent commit_gate
proof
  fix h es si
  assume "commit_gate h si"
  then show "commit_gate (h @ es) si" by (auto simp: commit_gate_def)
next
  fix h si e
  assume "commit_gate h si" "pipelineEvent e" "globalMutator e"
  then show "commit_gate (h @ [e]) (fst (applyGlobal e si))"
    using applyGlobal_cases [of e] by (auto simp: commit_gate_def applyGlobal_def)
next
  fix h si e act now si1
  assume I: "commit_gate h si" and ok: "pipelineEvent e" and at: "rule_at (si_State si) (typeOf e) act"
    and ap: "apply_event now e si = Some si1"
  have f: "si_State si1 = si_State si" "si_Return si1 = si_Return si \<or> e = SectorInvalidDealIDs (si_Return si1)"
    using apply_event_frame [OF ap pipelineEvent_not_receive [OF ok]] by auto
  have ret: "si_Return si1 = Some st \<Longrightarrow> \<not> onChain st" for st
    using f(2) I ok ReturnStates_onChain by (auto simp: commit_gate_def)
  show "commit_gate (h @ [e]) (snd (next_action act si1))"
    using next_action_frame(2,3) [of act si1] all_rulesD [OF onChain_gate at] ret f(1) I typeOf_SectorProving [of e]
    by (auto simp: commit_gate_def split: option.splits)
next
  fix h si e now si' stop
  assume "commit_gate h si" "pipelineEvent e" "committing (si_State si)" "committing_event now e si = Some (Inr (si', stop))"
  then show "commit_gate (h @ [e]) si'" using committing_not_onChain by (auto simp: commit_gate_def)
next
  fix h si
  assume "commit_gate h si" "si_State si = PackingFailed"
  then show "commit_gate h (si\<lparr>si_State := DealsExpired\<rparr>)" by (simp add: commit_gate_def)
next
  fix h si l
  assume "commit_gate h si"
  then show "commit_gate h (si\<lparr>si_Log := l\<rparr>)" by (simp add: commit_gate_def)
qed

section \<open>Concrete sectors\<close>

text \<open>The zero value of \<^verbatim>\<open>SectorInfo\<close>, and a quiet environment.\<close>

definition zeroSector :: sectorInfo where
  "zeroSector =
    \<lparr>si_State = UndefinedSectorState, si_SectorNumber = 0, si_SectorType = 0, si_CreationTime = 0, si_Pieces = [],
     si_TicketValue = [], si_TicketEpoch = 0, si_PreCommit1Out = [], si_PreCommit1Fails = 0, si_CommD = None,
     si_CommR = None, si_Proof = [], si_PreCommitDeposit = 0, si_PreCommitMessage = None, si_PreCommitTipSet = [],
     si_PreCommit2Fails = 0, si_SeedValue = [], si_SeedEpoch = 0, si_CommitMessage = None, si_InvalidProofs = 0,
     si_CCUpdate = False, si_CCPieces = [], si_UpdateSealed = None, si_UpdateUnsealed = None,
     si_ReplicaUpdateProof = None, si_ReplicaUpdateMessage = None, si_FaultReportMsg = None, si_Return = None,
     si_TerminateMessage = None, si_TerminatedAt = 0, si_RemoteDataUnsealed = None, si_RemoteDataSealed = None,
     si_RemoteDataCache = None, si_RemoteCommit1Endpoint = '''', si_RemoteCommit2Endpoint = '''',
     si_RemoteSealingDoneEndpoint = '''', si_RemoteDataFinalized = False, si_Log = [],
     si_remoteDone = []\<rparr>"

definition quietEnv :: plan_env where
  "quietEnv = \<lparr>pe_now = 1, pe_marshal = (\<lambda>e. None), pe_trace = (\<lambda>e. None), pe_errText = (\<lambda>e. ''''),
     pe_errKind = (\<lambda>e. ''''), pe_getConfig = None, pe_sealProof = True, pe_miner = 1000\<rparr>"

definition zeroStats :: sectorStats where
  "zeroStats = \<lparr>ss_bySector = [], ss_byState = [], ss_totals = (\<lambda>c. 0)\<rparr>"

text \<open>Events handed over one by one.\<close>

fun drive :: "event list \<Rightarrow> sectorInfo \<Rightarrow> sectorInfo option" where
  "drive [] si = Some si"
| "drive (e # es) si =
     (case Plan quietEnv False [e] si zeroStats of None \<Rightarrow> None | Some st \<Rightarrow> drive es (fs_si st))"

lemma drive_runs: "runs si0 h si \<Longrightarrow> drive es si = Some si' \<Longrightarrow> runs si0 (h @ es) si'"
proof (induction es arbitrary: h si)
  case Nil
  then show ?case by simp
next
  case (Cons e es)
  then obtain st where st: "Plan quietEnv False [e] si zeroStats = Some st" "drive es (fs_si st) = Some si'"
    by (auto split: option.splits)
  show ?case using Cons.IH [OF runs.plan_more [OF Cons.prems(1) st(1)] st(2)] by simp
qed

end
