(* ===== verification/Sealing_Behaviour.thy ===== *)
theory Sealing_Behaviour
  imports Sealing_Props
begin

text \<open>
  What planning guarantees for a sector: the commit gate, the restoring of an aborted upgrade,
  removal, progress, the log and the statistics.
\<close>

lemma drive_on:
  assumes "fsmPlanners (si_State si) = Some (PlanOne ts)" "map_of ts (typeOf e) = Some act"
    and "\<not> globalMutator e" "apply_event 1 e si = Some si1"
    and "next_action act si1 = (Inr False, si2)"
    and "handlerOf (si_State si2) = Inr nm" "si_State si2 \<noteq> PackingFailed"
  shows "drive (e # es) si = drive es si2"
  using assms
  by (simp add: Plan_def plan_def planner_for_def run_planner_def plan_next_def onUpdateSector_def quietEnv_def Let_def)

lemmas lookup_simps = fsmPlanners_def table_defs append.simps map_of.simps fst_conv snd_conv fun_upd_apply
  sectorState.distinct if_False if_True simp_thms

lemma planners_at:
  "fsmPlanners CommitWait = Some (PlanOne [(''SectorProving'', On FinalizeSector), (''SectorCommitFailed'', On CommitFailed),
     (''SectorRetrySubmitCommit'', On SubmitCommit)])"
  "fsmPlanners FinalizeSector = Some (PlanOne [(''SectorFinalized'', OnWithCB Proving True ''Proving''),
     (''SectorFinalizedAvailable'', OnWithCB Available True ''Available''), (''SectorFinalizeFailed'', On FinalizeFailed)])"
  "fsmPlanners Available = Some (PlanOne [(''SectorStartCCUpdate'', On SnapDealsWaitDeals), (''SectorAbortUpgrade'', On Proving)])"
  "fsmPlanners AbortUpgrade = Some (PlanOneOrIgnore [(''SectorRevertUpgradeToProving'', On Proving)])"
  "fsmPlanners SnapDealsWaitDeals = Some (PlanOne [(''SectorAddPiece'', On SnapDealsAddPiece),
     (''SectorStartPacking'', On SnapDealsPacking), (''SectorAbortUpgrade'', On AbortUpgrade)])"
  "fsmPlanners ReleaseSectorKey = Some (PlanOne [(''SectorKeyReleased'', On Proving),
     (''SectorReleaseKeyFailed'', On ReleaseSectorKeyFailed)])"
  "fsmPlanners ReleaseSectorKeyFailed = Some (PlanOne [(''SectorUpdateActive'', On ReleaseSectorKey)])"
  "fsmPlanners Removed = Some FinalRemoved"
  by (simp_all only: lookup_simps)

lemmas event_eval = globalMutator_def Ignorable_def apply_defs applyGlobal_def

text \<open>
  A sector that starts off the chain is treated as committed (finalizing,
  proving, upgrading, faulty) only after the event \<open>SectorProving\<close>, which follows from a commit
  message that landed, has been handed to its state machine; whatever the sequence of pipeline
  events, their batching, and the errors among them.
\<close>

theorem proving_only_after_commit:
  assumes "runs si0 h si"
    and "\<not> onChain (si_State si0)" "si_Return si0 = None"
    and "list_all pipelineEvent h"
    and "onChain (si_State si)"
  shows "SectorProving \<in> set h"
  using gate.runs_keep [OF assms(1) _ assms(4)] assms(2,3,5) by (simp add: commit_gate_def)


text \<open>An instance: from waiting for the commit message to proving.\<close>

theorem proving_only_after_commit_witness:
  "\<exists>si. runs (zeroSector\<lparr>si_State := CommitWait\<rparr>) [SectorProving, SectorFinalized] si \<and> si_State si = Proving
     \<and> SectorProving \<in> set [SectorProving, SectorFinalized]"
proof -
  let ?s = "zeroSector\<lparr>si_State := CommitWait\<rparr>"
  have "map_option si_State (drive [SectorProving, SectorFinalized] ?s) = Some Proving"
    unfolding zeroSector_def
    by (simp add: drive_on planners_at event_eval next_action_def handlerOf_def maybeNotifyRemoteDone_def
        del: drive.simps(2))
  then obtain si where si: "drive [SectorProving, SectorFinalized] ?s = Some si" "si_State si = Proving" by auto
  have r: "runs ?s [SectorProving, SectorFinalized] si" using drive_runs [OF runs.start si(1)] by simp
  have "SectorProving \<in> set [SectorProving, SectorFinalized]"
    by (rule proving_only_after_commit [OF r])
       (simp_all add: zeroSector_def onChain_def pipelineEvent_def si(2))
  then show ?thesis using r si(2) by blast
qed

section \<open>Aborted upgrades\<close>

text \<open>The states between the start of an upgrade and its end, in which the old pieces are kept.\<close>

definition upgrading :: "sectorState \<Rightarrow> bool" where
  "upgrading st \<longleftrightarrow> st \<in> {SnapDealsWaitDeals, SnapDealsAddPiece, SnapDealsPacking, UpdateReplica, ProveReplicaUpdate,
     SubmitReplicaUpdate, WaitMutable, ReplicaUpdateWait, FinalizeReplicaUpdate, UpdateActivating, ReleaseSectorKey,
     SnapDealsAddPieceFailed, SnapDealsDealsExpired, SnapDealsRecoverDealIDs, AbortUpgrade, ReplicaUpdateFailed,
     ReleaseSectorKeyFailed, FinalizeReplicaUpdateFailed}"

definition upgradeEvent :: "event \<Rightarrow> bool" where
  "upgradeEvent e \<longleftrightarrow> pipelineEvent e \<and> e \<noteq> SectorStartCCUpdate"

definition pieces_kept :: "sectorPiece list \<Rightarrow> event list \<Rightarrow> sectorInfo \<Rightarrow> bool" where
  "pieces_kept ps h si \<longleftrightarrow>
     (upgrading (si_State si) \<longrightarrow> si_CCPieces si = ps) \<and>
     (\<forall>st. si_Return si = Some st \<longrightarrow> \<not> upgrading st)"

lemma upgrading_gate:
  "all_rules (\<lambda>st t act. case target act of
     None \<Rightarrow> t \<noteq> ''SectorRevertUpgradeToProving''
   | Some st' \<Rightarrow> upgrading st' \<longrightarrow> (upgrading st \<or> t = ''SectorStartCCUpdate'') \<and> t \<noteq> ''SectorRevertUpgradeToProving'')"
  by (simp add: table_check upgrading_def)

lemma upgrading_onChain: "upgrading st \<Longrightarrow> onChain st"
  unfolding upgrading_def onChain_def by blast

lemma ReturnStates_upgrading: "st \<in> set ReturnStates \<Longrightarrow> \<not> upgrading st"
  using ReturnStates_onChain upgrading_onChain by blast

interpretation upg: sector_invariant upgradeEvent "pieces_kept ps" for ps
proof
  fix h es si
  assume "pieces_kept ps h si"
  then show "pieces_kept ps (h @ es) si" by (simp add: pieces_kept_def)
next
  fix h si e
  assume "pieces_kept ps h si" "upgradeEvent e" "globalMutator e"
  then show "pieces_kept ps (h @ [e]) (fst (applyGlobal e si))"
    using applyGlobal_cases [of e] upgrading_onChain [of Terminating] upgrading_onChain [of Removing]
    by (auto simp: pieces_kept_def applyGlobal_def upgradeEvent_def)
next
  fix h si e act now si1
  assume I: "pieces_kept ps h si" and ok: "upgradeEvent e" and at: "rule_at (si_State si) (typeOf e) act"
    and ap: "apply_event now e si = Some si1"
  have ok': "pipelineEvent e" "e \<noteq> SectorStartCCUpdate" using ok by (simp_all add: upgradeEvent_def)
  have f: "si_State si1 = si_State si" "si_CCPieces si1 = si_CCPieces si \<or> e = SectorRevertUpgradeToProving"
      "si_Return si1 = si_Return si \<or> e = SectorInvalidDealIDs (si_Return si1)"
    using apply_event_frame [OF ap pipelineEvent_not_receive [OF ok'(1)]] ok'(2) by auto
  have ret: "si_Return si1 = Some st \<Longrightarrow> \<not> upgrading st" for st
    using f(3) I ok'(1) ReturnStates_upgrading by (auto simp: pieces_kept_def)
  show "pieces_kept ps (h @ [e]) (snd (next_action act si1))"
    using next_action_frame [of act si1] all_rulesD [OF upgrading_gate at] ret f(1,2) I ok'(2)
      typeOf_SectorStartCCUpdate [of e] typeOf_SectorRevertUpgradeToProving [of e]
    by (auto simp: pieces_kept_def split: option.splits)
next
  fix h si e now si' stop
  assume I: "pieces_kept ps h si" and ok: "upgradeEvent e" and c: "committing (si_State si)"
    and ce: "committing_event now e si = Some (Inr (si', stop))"
  have "\<not> upgrading (si_State si') \<and> si_Return si' = si_Return si"
    using committing_not_onChain [OF ce _ c] upgrading_onChain [of "si_State si'"] ok by (auto simp: upgradeEvent_def)
  then show "pieces_kept ps (h @ [e]) si'" using I by (simp add: pieces_kept_def)
next
  fix h si
  assume "pieces_kept ps h si" "si_State si = PackingFailed"
  then show "pieces_kept ps h (si\<lparr>si_State := DealsExpired\<rparr>)"
    using upgrading_onChain [of DealsExpired] by (auto simp: pieces_kept_def)
next
  fix h si l
  assume "pieces_kept ps h si"
  then show "pieces_kept ps h (si\<lparr>si_Log := l\<rparr>)" by (simp add: pieces_kept_def)
qed

text \<open>
  Property C5: a sector whose upgrade is started in \<open>Available\<close> and later aborted, after any
  sequence of pipeline events, gets back exactly the pieces it had: reverting leads to
  \<open>Proving\<close> with the old pieces and without any trace of the upgrade.
\<close>

theorem aborted_upgrade_restores:
  assumes "si_State si0 = Available" "si_Return si0 = None"
    and "Plan env keep [SectorStartCCUpdate] si0 ss = Some st0"
    and "runs (fs_si st0) h si" "list_all upgradeEvent h"
    and "si_State si = AbortUpgrade"
  shows "\<exists>st. Plan env' keep' [SectorRevertUpgradeToProving] si ss' = Some st
    \<and> si_State (fs_si st) = Proving \<and> si_Pieces (fs_si st) = si_Pieces si0
    \<and> \<not> si_CCUpdate (fs_si st) \<and> si_CCPieces (fs_si st) = []
    \<and> si_UpdateSealed (fs_si st) = None \<and> si_UpdateUnsealed (fs_si st) = None
    \<and> si_ReplicaUpdateProof (fs_si st) = None \<and> si_ReplicaUpdateMessage (fs_si st) = None"
proof -
  obtain l where l: "logEvents env [SectorStartCCUpdate] si0 = si0\<lparr>si_Log := l\<rparr>" using logEvents_frame by blast
  have "pieces_kept (si_Pieces si0) [] (fs_si st0)"
    using assms(1-3) l
    by (auto simp: Plan_def plan_def plan_next_def planner_for_def planners_at run_planner_def next_action_def
        event_eval handlerOf_def Let_def pieces_kept_def split: prod.splits simp del: logEvents.simps)
  then have "pieces_kept (si_Pieces si0) h si" using upg.runs_keep [OF assms(4) _ assms(5)] by blast
  then have cc: "si_CCPieces si = si_Pieces si0" using assms(6) by (simp add: pieces_kept_def upgrading_def)
  obtain l' where l': "logEvents env' [SectorRevertUpgradeToProving] si = si\<lparr>si_Log := l'\<rparr>" using logEvents_frame by blast
  show ?thesis
    using assms(6) l' cc
    by (simp add: Plan_def plan_def plan_next_def planner_for_def planners_at run_planner_def planOneOrIgnore_def
        next_action_def event_eval handlerOf_def Let_def del: logEvents.simps split: prod.split)
qed

text \<open>Witness of C5: a sector with one piece, upgraded and aborted at once.\<close>

definition availableSector :: sectorInfo where
  "availableSector = zeroSector\<lparr>si_State := Available, si_Pieces := [filler \<lparr>pi_Size = 2048, pi_PieceCID = 1\<rparr>]\<rparr>"

theorem aborted_upgrade_restores_witness:
  "\<exists>st0 si st. Plan quietEnv False [SectorStartCCUpdate] availableSector zeroStats = Some st0
    \<and> si_Pieces (fs_si st0) = [] \<and> runs (fs_si st0) [SectorAbortUpgrade] si
    \<and> Plan quietEnv False [SectorRevertUpgradeToProving] si zeroStats = Some st
    \<and> si_State (fs_si st) = Proving \<and> si_Pieces (fs_si st) = [filler \<lparr>pi_Size = 2048, pi_PieceCID = 1\<rparr>]"
proof -
  have "\<exists>st0. Plan quietEnv False [SectorStartCCUpdate] availableSector zeroStats = Some st0
      \<and> si_Pieces (fs_si st0) = [] \<and> si_State (fs_si st0) = SnapDealsWaitDeals"
    by (simp add: Plan_def plan_def plan_next_def planner_for_def planners_at run_planner_def next_action_def
        event_eval handlerOf_def onUpdateSector_def quietEnv_def availableSector_def zeroSector_def Let_def)
  then obtain st0 where st0: "Plan quietEnv False [SectorStartCCUpdate] availableSector zeroStats = Some st0"
      "si_Pieces (fs_si st0) = []" "si_State (fs_si st0) = SnapDealsWaitDeals" by blast
  have "drive [SectorAbortUpgrade] (fs_si st0) = Some ((fs_si st0)\<lparr>si_State := AbortUpgrade\<rparr>)"
    using st0(3) by (simp add: drive_on planners_at event_eval next_action_def handlerOf_def del: drive.simps(2))
  then have r: "runs (fs_si st0) [SectorAbortUpgrade] ((fs_si st0)\<lparr>si_State := AbortUpgrade\<rparr>)"
    using drive_runs [OF runs.start] by fastforce
  show ?thesis
    using aborted_upgrade_restores [OF _ _ st0(1) r, of quietEnv False zeroStats] st0 r
    by (fastforce simp: availableSector_def zeroSector_def upgradeEvent_def pipelineEvent_def)
qed

section \<open>Removal\<close>

lemma planner_final_removed: "fsmPlanners st = Some FinalRemoved \<Longrightarrow> st = Removed"
proof -
  assume "fsmPlanners st = Some FinalRemoved"
  moreover have "list_all (\<lambda>(st, p). p = FinalRemoved \<longrightarrow> st = Removed) fsmTable" by (simp add: table_defs)
  ultimately show ?thesis by (auto simp: fsmPlanners_def list_all_iff dest: map_of_SomeD)
qed

lemma planner_states: "fsmPlanners st = None \<longleftrightarrow> (\<exists>n. st = OtherState n)"
  by (cases st; simp only: lookup_simps option.distinct sectorState.inject)

lemma run_planner_global:
  assumes "p \<noteq> FinalRemoved" "globalMutator e" "snd (applyGlobal e si)"
  shows "run_planner now p (e # es) si = Some (1, None, fst (applyGlobal e si))"
  using assms
  by (cases p) (auto simp: run_planner_def planOneOrIgnore_def final_def committing_event_def split: prod.split)

lemma plan_global:
  assumes "si_State si \<noteq> Removed" "es = [] \<or> (\<forall>n. si_State si \<noteq> OtherState n)"
    and "globalMutator e" "\<And>s. snd (applyGlobal e s)"
  shows "\<exists>l. plan env (e # es) si ss = Some (plan_next env 1 (fst (applyGlobal e (si\<lparr>si_Log := l\<rparr>))) ss)"
proof -
  obtain l where l: "logEvents env (e # es) si = si\<lparr>si_Log := l\<rparr>" using logEvents_frame by blast
  obtain p where p: "planner_for (e # es) (si_State si) = Some p" "p \<noteq> FinalRemoved"
    using assms(1-3) planner_states [of "si_State si"] planner_final_removed [of "si_State si"]
    by (cases "fsmPlanners (si_State si)") (auto simp: planner_for_def)
  show ?thesis
    using l p run_planner_global [OF p(2) assms(3,4)] by (auto simp: plan_def Let_def simp del: logEvents.simps)
qed

text \<open>
  Property C32: an operator can always remove or terminate a sector. In every state but
  \<open>Removed\<close> (for a state that is not in the table: if the event comes alone) \<open>SectorRemove\<close>
  leads to \<open>Removing\<close> and starts its handler, \<open>SectorTerminate\<close> to \<open>Terminating\<close>; one event is
  consumed, whatever follows it.
\<close>

theorem remove_in_every_state:
  assumes "si_State si \<noteq> Removed" "es = [] \<or> (\<forall>n. si_State si \<noteq> OtherState n)"
  shows "(\<exists>pl. plan env (SectorRemove # es) si ss = Some pl \<and> si_State (pl_si pl) = Removing
      \<and> pl_next pl = Inr ''handleRemoving'' \<and> pl_processed pl = 1)
    \<and> (\<exists>pl. plan env (SectorTerminate # es) si ss = Some pl \<and> si_State (pl_si pl) = Terminating
      \<and> pl_next pl = Inr ''handleTerminating'' \<and> pl_processed pl = 1)"
  using plan_global [OF assms, of SectorRemove env ss] plan_global [OF assms, of SectorTerminate env ss]
  by (auto simp: globalMutator_def applyGlobal_def plan_next_def handlerOf_def split: prod.split)

text \<open>Witness of C32: a state that is not in the table.\<close>

theorem remove_in_every_state_witness:
  "(\<exists>pl. plan quietEnv [SectorRemove] (zeroSector\<lparr>si_State := OtherState ''x''\<rparr>) zeroStats = Some pl
     \<and> si_State (pl_si pl) = Removing)
   \<and> (\<exists>pl. plan quietEnv [SectorTerminate, SectorRestart] (zeroSector\<lparr>si_State := Proving\<rparr>) zeroStats = Some pl
     \<and> si_State (pl_si pl) = Terminating)"
  using remove_in_every_state [of "zeroSector\<lparr>si_State := OtherState ''x''\<rparr>" "[]" quietEnv zeroStats]
    remove_in_every_state [of "zeroSector\<lparr>si_State := Proving\<rparr>" "[SectorRestart]" quietEnv zeroStats]
  by auto

lemma Plan_removed:
  assumes "si_State si = Removed" "Plan env keep es si ss = Some st"
  shows "\<exists>l. fs_si st = si\<lparr>si_Log := l\<rparr>" "fs_handler st = None" "fs_processed st = length es"
proof -
  obtain l where l: "logEvents env es si = si\<lparr>si_Log := l\<rparr>" using logEvents_frame by blast
  have pl: "plan env es si ss = Some (plan_next env (length es) (si\<lparr>si_Log := l\<rparr>) ss)"
    using assms(1) l by (simp add: plan_def planner_for_def planners_at run_planner_def finalRemoved_def Let_def)
  obtain l' where "logAppend (pe_now env) (errorLog env ErrSectorRemoved) (si\<lparr>si_Log := l\<rparr>) = si\<lparr>si_Log := l'\<rparr>"
    using logAppend_frame [of "pe_now env" "errorLog env ErrSectorRemoved" "si\<lparr>si_Log := l\<rparr>"] by auto
  then show "\<exists>l. fs_si st = si\<lparr>si_Log := l\<rparr>" "fs_handler st = None" "fs_processed st = length es"
    using assms pl by (auto simp: Plan_def plan_next_def handlerOf_def split: prod.splits if_splits)
qed

lemma runs_removed:
  assumes "runs si0 h si" "si_State si0 = Removed"
  shows "\<exists>l. si = si0\<lparr>si_Log := l\<rparr>"
  using assms(1)
proof (induction rule: runs.induct)
  case start
  show ?case by (rule exI [of _ "si_Log si0"]) simp
next
  case (plan_more h si env keep events ss st)
  then obtain l where l: "si = si0\<lparr>si_Log := l\<rparr>" by blast
  then have "si_State si = Removed" using assms(2) by simp
  then show ?case using Plan_removed(1) [OF _ plan_more.hyps(2)] l by auto
qed

text \<open>
  Property C33: \<open>Removed\<close> is absorbing: whatever events, global ones included, are handed to the
  machine of a removed sector, they are all consumed, no handler is started, and nothing of
  the record but its log changes.
\<close>

theorem removed_is_absorbing:
  assumes "runs si0 h si" "si_State si0 = Removed"
  shows "(\<exists>l. si = si0\<lparr>si_Log := l\<rparr>)
    \<and> (\<forall>env keep es ss st. Plan env keep es si ss = Some st \<longrightarrow> fs_handler st = None \<and> fs_processed st = length es)"
proof -
  obtain l where l: "si = si0\<lparr>si_Log := l\<rparr>" using runs_removed [OF assms] by blast
  then have "si_State si = Removed" using assms(2) by simp
  then show ?thesis using l Plan_removed(2,3) [of si] by blast
qed

text \<open>Witness of C33: a removed sector is told to be proving.\<close>

theorem removed_is_absorbing_witness:
  "\<exists>si. runs (zeroSector\<lparr>si_State := Removed\<rparr>) [SectorForceState Proving] si \<and> si_State si = Removed"
proof -
  let ?s = "zeroSector\<lparr>si_State := Removed\<rparr>"
  have "\<exists>si. drive [SectorForceState Proving] ?s = Some si"
    by (simp add: Plan_def plan_def plan_next_def planner_for_def planners_at run_planner_def finalRemoved_def
        handlerOf_def onUpdateSector_def quietEnv_def Let_def)
  then obtain si where "runs ?s [SectorForceState Proving] si" using drive_runs [OF runs.start] by fastforce
  then show ?thesis using removed_is_absorbing by fastforce
qed

section \<open>Progress\<close>

lemma planOne_processed:
  "planOne now ts i es si = Some (n, err, si') \<Longrightarrow> n \<le> i + length es \<and> (es \<noteq> [] \<longrightarrow> i < n)"
proof (induction now ts i es si rule: planOne.induct)
  case (1 now ts i si)
  then show ?case by simp
next
  case (2 now ts i e es si)
  have rec: "planOne now ts (i + 1) es s = Some (n, err, si') \<Longrightarrow> n \<le> i + 1 + length es \<and> (es \<noteq> [] \<longrightarrow> i + 1 < n) \<Longrightarrow> ?case" for s
    by (cases es) auto
  show ?case
  proof (cases "globalMutator e")
    case True
    then show ?thesis using "2.prems" by simp
  next
    case glob: False
    show ?thesis
    proof (cases "map_of ts (typeOf e)")
      case None
      then show ?thesis using "2.prems" glob "2.IH"(1) [OF glob None] rec by (auto split: if_splits)
    next
      case (Some act)
      obtain si1 where si1: "apply_event now e si = Some si1" using "2.prems" glob Some by (auto split: option.splits)
      obtain r si2 where r: "next_action act si1 = (r, si2)" by fastforce
      show ?thesis
      proof (cases "r = Inr True")
        case True
        then have p: "planOne now ts (i + 1) es si2 = Some (n, err, si')" using "2.prems" glob Some si1 r by simp
        then show ?thesis using "2.IH"(2) [OF glob Some si1 r [symmetric] True] rec by blast
      next
        case False
        then show ?thesis using "2.prems" glob Some si1 r by (auto split: sum.splits if_splits)
      qed
    qed
  qed
qed

lemma planCommitting_processed:
  "planCommitting now i es si = Some (n, err, si') \<Longrightarrow> i \<le> n \<and> n \<le> i + length es \<and> (es \<noteq> [] \<and> err = None \<longrightarrow> i < n)"
proof (induction now i es si rule: planCommitting.induct)
  case (1 now i si)
  then show ?case by simp
next
  case (2 now i e es si)
  consider (err) x where "committing_event now e si = Some (Inl x)"
    | (stop) s where "committing_event now e si = Some (Inr (s, True))"
    | (go) s where "committing_event now e si = Some (Inr (s, False))"
    using "2.prems" by (auto split: option.splits sum.splits)
  then show ?case
  proof cases
    case go
    then show ?thesis using "2.IH" [OF go refl refl] "2.prems" by (cases es) auto
  qed (use "2.prems" in auto)
qed

lemma run_planner_processed:
  assumes "run_planner now p es si = Some (n, err, si')" "es \<noteq> []"
  shows "n \<le> length es \<and> (n = 0 \<longrightarrow> err \<noteq> None)"
proof (cases p)
  case (PlanOne ts)
  then show ?thesis using assms planOne_processed [of now ts 0 es si n err si'] by (auto simp: run_planner_def)
next
  case (PlanOneOrIgnore ts)
  then obtain err' where "planOne now ts 0 es si = Some (n, err', si')"
    using assms(1) by (auto simp: run_planner_def planOneOrIgnore_def split: option.splits)
  then show ?thesis using planOne_processed assms(2) by fastforce
next
  case PlanCommitting
  then show ?thesis using assms planCommitting_processed [of now 0 es si n err si'] by (auto simp: run_planner_def)
qed (use assms in \<open>auto simp: run_planner_def final_def finalRemoved_def neq_Nil_conv split: if_splits\<close>)

lemma planOne_total:
  "list_all (\<lambda>e. \<forall>us. e \<noteq> SectorUpdateDealIDs us) es \<Longrightarrow> \<exists>r. planOne now ts i es si = Some r"
proof (induction now ts i es si rule: planOne.induct)
  case (1 now ts i si)
  then show ?case by simp
next
  case (2 now ts i e es si)
  obtain si1 where si1: "apply_event now e si = Some si1" using apply_event_total [of e now si] "2.prems" by auto
  show ?case
    using 2 si1 by (auto split: option.split sum.split prod.split)
qed

lemma committing_event_total: "\<exists>r. committing_event now e si = Some r"
  by (cases e) (simp_all add: committing_event_def apply_defs)

lemma planCommitting_total: "\<exists>r. planCommitting now i es si = Some r"
proof (induction es arbitrary: i si)
  case Nil
  then show ?case by simp
next
  case (Cons e es)
  obtain r where "committing_event now e si = Some r" using committing_event_total by blast
  then show ?case using Cons.IH by (simp split: sum.split prod.split)
qed

lemma run_planner_total:
  assumes "list_all (\<lambda>e. \<forall>us. e \<noteq> SectorUpdateDealIDs us) es"
  shows "\<exists>r. run_planner now p es si = Some r"
proof (cases p)
  case (PlanOneOrIgnore ts)
  then show ?thesis using planOne_total [OF assms, of now ts 0 si] by (auto simp: run_planner_def planOneOrIgnore_def)
qed (use planOne_total [OF assms] planCommitting_total in
  \<open>simp_all add: run_planner_def final_def finalRemoved_def split: list.split\<close>)

text \<open>
  Property C31: planning a non-empty batch of events never panics unless deal identifiers are
  updated, never reports more events than it was given, and, where it starts a handler, has
  consumed at least one event, except in the state \<open>ReleaseSectorKeyFailed\<close>.
\<close>

theorem Plan_progress:
  assumes "es \<noteq> []" "list_all (\<lambda>e. \<forall>us. e \<noteq> SectorUpdateDealIDs us) es"
  shows "\<exists>st. Plan env keep es si ss = Some st \<and> fs_processed st \<le> length es
    \<and> (fs_handler st \<noteq> None \<longrightarrow> 0 < fs_processed st \<or> si_State (fs_si st) = ReleaseSectorKeyFailed)"
proof -
  let ?si0 = "logEvents env es si"
  have "\<exists>pl. plan env es si ss = Some pl \<and> pl_processed pl \<le> length es
      \<and> (pl_processed pl = 0 \<longrightarrow> (\<exists>x. pl_next pl = Inl x) \<or> si_State (pl_si pl) = ReleaseSectorKeyFailed)"
  proof (cases "planner_for es (si_State ?si0)")
    case None
    then show ?thesis by (simp add: plan_def Let_def)
  next
    case (Some p)
    obtain n err si' where r: "run_planner (pe_now env) p es ?si0 = Some (n, err, si')"
      using run_planner_total [OF assms(2)] by (metis prod_cases3)
    show ?thesis
      using Some r run_planner_processed [OF r assms(1)]
      by (auto simp: plan_def plan_next_def Let_def split: option.split prod.split)
  qed
  then show ?thesis by (auto simp: Plan_def split: sum.split)
qed

text \<open>Witness of C31: a commit message that landed.\<close>

theorem Plan_progress_witness:
  "\<exists>st. Plan quietEnv False [SectorProving] (zeroSector\<lparr>si_State := CommitWait\<rparr>) zeroStats = Some st
     \<and> fs_processed st \<le> 1"
  using Plan_progress [of "[SectorProving]" quietEnv False "zeroSector\<lparr>si_State := CommitWait\<rparr>" zeroStats] by auto

text \<open>
  Property C37: when releasing the sector key fails, planning moves the sector to
  \<open>ReleaseSectorKeyFailed\<close> and starts its handler but reports no event as consumed; the same
  event, planned again, is an unexpected event there: an error is logged and no handler runs.
\<close>

theorem release_key_failure_not_consumed:
  assumes "si_State si = ReleaseSectorKey"
  shows "\<exists>st. Plan env keep [SectorReleaseKeyFailed] si ss = Some st
    \<and> si_State (fs_si st) = ReleaseSectorKeyFailed
    \<and> fs_handler st = Some ''handleReleaseSectorKeyFailed'' \<and> fs_processed st = 0
    \<and> (\<exists>st'. Plan env' keep' [SectorReleaseKeyFailed] (fs_si st) ss' = Some st'
        \<and> fs_handler st' = None \<and> fs_processed st' = 1)"
proof -
  obtain l where l: "logEvents env [SectorReleaseKeyFailed] si = si\<lparr>si_Log := l\<rparr>" using logEvents_frame by blast
  let ?si1 = "si\<lparr>si_Log := l, si_State := ReleaseSectorKeyFailed\<rparr>"
  obtain l' where l': "logEvents env' [SectorReleaseKeyFailed] ?si1 = ?si1\<lparr>si_Log := l'\<rparr>" using logEvents_frame by blast
  show ?thesis
    using assms l l'
    by (simp add: Plan_def plan_def plan_next_def planner_for_def planners_at run_planner_def next_action_def
        event_eval handlerOf_def Let_def del: logEvents.simps split: prod.split)
qed

text \<open>Witness of C37.\<close>

theorem release_key_failure_not_consumed_witness:
  "\<exists>st. Plan quietEnv False [SectorReleaseKeyFailed] (zeroSector\<lparr>si_State := ReleaseSectorKey\<rparr>) zeroStats = Some st
     \<and> fs_processed st = 0"
  using release_key_failure_not_consumed
    [of "zeroSector\<lparr>si_State := ReleaseSectorKey\<rparr>" quietEnv False zeroStats quietEnv False zeroStats]
  by auto

end
