(* ===== verification/Sealing_Records.thy ===== *)
theory Sealing_Records
  imports Sealing_Behaviour
begin

text \<open>
  The bookkeeping of the sealing pipeline: the bounded log of a sector, the statistics over all
  sectors, and the agreement of the table of planners with the switch over handlers.
\<close>

section \<open>The log\<close>

definition noReceive :: "event \<Rightarrow> bool" where
  "noReceive e = (case e of SectorReceive _ \<Rightarrow> False | _ \<Rightarrow> True)"

lemma apply_event_Log:
  assumes "apply_event now e si = Some si'" "noReceive e"
  shows "si_Log si' = si_Log si"
  using assms by (cases e) (auto simp: apply_defs noReceive_def split: if_splits)

lemma committing_event_Log:
  assumes "committing_event now e si = Some (Inr (si', stop))"
  shows "si_Log si' = si_Log si"
  using assms
  by (cases e) (auto simp: committing_event_def globalMutator_def applyGlobal_def maybeNotifyRemoteDone_def apply_defs split: if_splits)

interpretation logk: planner_invariant noReceive "\<lambda>h si. si_Log si = L" for L
proof
  fix si :: sectorInfo and e
  assume "si_Log si = L" "globalMutator e"
  then show "si_Log (fst (applyGlobal e si)) = L"
    using applyGlobal_cases [of e] by (auto simp: applyGlobal_def maybeNotifyRemoteDone_def)
next
  fix si si1 :: sectorInfo and e act now
  assume "si_Log si = L" "noReceive e" "apply_event now e si = Some si1"
  then have "si_Log si1 = L" using apply_event_Log by simp
  then show "si_Log (snd (next_action act si1)) = L"
    by (cases act) (auto simp: next_action_def maybeNotifyRemoteDone_def split: option.split)
next
  fix si si' :: sectorInfo and e now stop
  assume "si_Log si = L" "committing_event now e si = Some (Inr (si', stop))"
  then show "si_Log si' = L" using committing_event_Log by simp
qed simp_all

lemma logAppend_length: "length (si_Log si) \<le> 8001 \<Longrightarrow> length (si_Log (logAppend now l si)) \<le> 8001"
  by (auto simp: logAppend_def Let_def logMax_def logKeepFirst_def logKeepFrom_def)

lemma logEvents_length: "length (si_Log si) \<le> 8001 \<Longrightarrow> length (si_Log (logEvents env es si)) \<le> 8001"
  by (induction env es si rule: logEvents.induct) (auto simp: logAppend_length split: option.split)

lemma plan_log:
  assumes "plan env es si ss = Some pl" "list_all noReceive es"
  shows "si_Log (pl_si pl) = si_Log (logEvents env es si)"
proof (cases "planner_for es (si_State (logEvents env es si))")
  case None
  then show ?thesis using assms(1) by (auto simp: plan_def Let_def)
next
  case (Some p)
  then obtain n err si1 where run: "run_planner (pe_now env) p es (logEvents env es si) = Some (n, err, si1)"
    using assms(1) by (auto simp: plan_def Let_def split: option.splits)
  have "si_Log si1 = si_Log (logEvents env es si)" using logk.run_planner_keeps [OF Some run refl assms(2)] .
  then show ?thesis
    using assms(1) Some run by (auto simp: plan_def plan_next_def Let_def split: option.splits prod.splits if_splits)
qed

text \<open>
  The log of a sector never grows beyond 8001 entries: planning keeps the bound,
  for every batch of events that does not replace the whole record by an imported one.
\<close>

theorem Plan_log_bounded:
  assumes "Plan env keep es si ss = Some st" "length (si_Log si) \<le> 8001" "list_all noReceive es"
  shows "length (si_Log (fs_si st)) \<le> 8001"
proof -
  obtain pl where pl: "plan env es si ss = Some pl" using assms(1) by (auto simp: Plan_def split: option.splits)
  have "length (si_Log (pl_si pl)) \<le> 8001" using plan_log [OF pl assms(3)] logEvents_length [OF assms(2)] by simp
  then show ?thesis using assms(1) pl logAppend_length by (auto simp: Plan_def split: sum.splits if_splits)
qed

text \<open>An instance: a full log.\<close>

definition fullLogSector :: sectorInfo where
  "fullLogSector = zeroSector\<lparr>si_State := Removed, si_Log := replicate 8001 (truncation 0)\<rparr>"

theorem Plan_log_bounded_witness:
  "\<exists>st. Plan quietEnv True [SectorRestart] fullLogSector zeroStats = Some st \<and> length (si_Log (fs_si st)) \<le> 8001"
proof -
  obtain st where st: "Plan quietEnv True [SectorRestart] fullLogSector zeroStats = Some st"
    by (simp add: Plan_def plan_def plan_next_def planner_for_def planners_at run_planner_def finalRemoved_def
        handlerOf_def onUpdateSector_def quietEnv_def fullLogSector_def Let_def)
  then show ?thesis
    using Plan_log_bounded [OF st] by (simp add: fullLogSector_def noReceive_def)
qed

text \<open>
  The marker that \<open>logAppend\<close> writes when it truncates the log does not survive:
  the entries from 6000 on are copied over it, so the log has no trace of the truncation.
\<close>

theorem truncation_marker_lost:
  assumes "8000 < length (si_Log si)"
  shows "si_Log (logAppend now l si) = take 2000 (si_Log si) @ drop 6000 (si_Log si) @ [l]"
  using assms by (simp add: logAppend_def Let_def logMax_def logKeepFirst_def logKeepFrom_def)

text \<open>An instance.\<close>

theorem truncation_marker_lost_witness:
  "si_Log (logAppend 5 (truncation 1) fullLogSector) = replicate 4001 (truncation 0) @ [truncation 1]"
  using truncation_marker_lost [of fullLogSector 5 "truncation 1"]
  by (simp add: fullLogSector_def replicate_add [symmetric])

section \<open>Statistics\<close>

text \<open>The sectors that the map \<open>m\<close> has in a state of class \<open>c\<close>.\<close>

definition inClass :: "bool \<Rightarrow> (sectorID \<rightharpoonup> sectorState) \<Rightarrow> statSectorState \<Rightarrow> sectorID set" where
  "inClass fe m c = {i. \<exists>st. m i = Some st \<and> toStatState st fe = c}"

definition stats_ok :: "bool \<Rightarrow> sectorStats \<Rightarrow> bool" where
  "stats_ok fe ss \<longleftrightarrow> (\<forall>c. ss_totals ss c = of_nat (card (inClass fe (gm_get (ss_bySector ss)) c)))"

lemma finite_inClass: "finite (dom m) \<Longrightarrow> finite (inClass fe m c)"
  by (rule finite_subset [of _ "dom m"]) (auto simp: inClass_def)

lemma inClass_upd: "inClass fe (m(i \<mapsto> st)) c = (inClass fe m c - {i}) \<union> (if toStatState st fe = c then {i} else {})"
  by (auto simp: inClass_def)

lemma card_inClass_upd:
  assumes "finite (dom m)"
  shows "(of_nat (card (inClass fe (m(i \<mapsto> st)) c)) :: 64 word) =
    of_nat (card (inClass fe m c)) - (if i \<in> inClass fe m c then 1 else 0) + (if toStatState st fe = c then 1 else 0)"
proof -
  have fin: "finite (inClass fe m c)" using finite_inClass [OF assms] .
  have "(of_nat (card (inClass fe m c - {i})) :: 64 word) = of_nat (card (inClass fe m c)) - (if i \<in> inClass fe m c then 1 else 0)"
  proof (cases "i \<in> inClass fe m c")
    case True
    then have "card (inClass fe m c) = Suc (card (inClass fe m c - {i}))" using fin by (metis card_Suc_Diff1)
    then show ?thesis using True by simp
  qed simp
  then show ?thesis using fin by (simp add: inClass_upd insert_absorb)
qed

lemma updateSector_bySector [simp]:
  "gm_get (ss_bySector (snd (updateSector cfg i st ss))) = (gm_get (ss_bySector ss))(i \<mapsto> st)"
  by (auto simp: updateSector_def Let_def split: option.split)

lemma updateSector_totals:
  "ss_totals (snd (updateSector cfg i st ss)) c =
     ss_totals ss c - (case gm_get (ss_bySector ss) i of
                         None \<Rightarrow> 0
                       | Some oldst \<Rightarrow> if toStatState oldst (cfg_FinalizeEarly cfg) = c then 1 else 0)
       + (if toStatState st (cfg_FinalizeEarly cfg) = c then 1 else 0)"
  by (auto simp: updateSector_def Let_def split: option.split)

lemma updateSector_ok:
  assumes "stats_ok (cfg_FinalizeEarly cfg) ss"
  shows "stats_ok (cfg_FinalizeEarly cfg) (snd (updateSector cfg i st ss))"
proof -
  let ?fe = "cfg_FinalizeEarly cfg" and ?m = "gm_get (ss_bySector ss)"
  have fin: "finite (dom ?m)" by (rule finite_dom_map_of)
  have "(case ?m i of None \<Rightarrow> 0 | Some oldst \<Rightarrow> if toStatState oldst ?fe = c then 1 else 0) =
      (if i \<in> inClass ?fe ?m c then 1 else (0 :: 64 word))" for c
    by (auto simp: inClass_def split: option.split)
  then show ?thesis
    using assms unfolding stats_ok_def updateSector_bySector updateSector_totals card_inClass_upd [OF fin] by simp
qed

lemma not_proving: "c \<noteq> sstProving \<longleftrightarrow> c = sstStaging \<or> c = sstSealing \<or> c = sstFailed"
  by (cases c) simp_all

definition updateAll :: "sealing_cfg \<Rightarrow> (sectorID \<times> sectorState) list \<Rightarrow> sectorStats \<Rightarrow> sectorStats" where
  "updateAll cfg us ss = fold (\<lambda>(i, st) s. snd (updateSector cfg i st s)) us ss"

lemma updateAll_ok:
  assumes "stats_ok (cfg_FinalizeEarly cfg) ss"
  shows "stats_ok (cfg_FinalizeEarly cfg) (updateAll cfg us ss)
    \<and> gm_get (ss_bySector (updateAll cfg us ss)) = gm_get (ss_bySector ss) ++ map_of (rev us)"
  using assms
proof (induction us arbitrary: ss)
  case Nil
  then show ?case by (simp add: updateAll_def)
next
  case (Cons u us)
  obtain i st where u: "u = (i, st)" by fastforce
  have step: "updateAll cfg (u # us) ss = updateAll cfg us (snd (updateSector cfg i st ss))"
    using u by (simp add: updateAll_def)
  show ?case
    using Cons.IH [OF updateSector_ok [OF Cons.prems, of i st]] step u by (auto simp: map_add_def fun_eq_iff split: option.split)
qed

text \<open>
  Property C25: after any sequence of state changes under one setting of \<^verbatim>\<open>FinalizeEarly\<close>, the
  totals (64-bit words) are the numbers of sectors whose last state is of each class, and
  \<open>curSealing\<close> is the number of sectors that are not proving; counters never drift.
\<close>

theorem SectorStats_counts:
  "ss_totals (updateAll cfg us zeroStats) c = of_nat (card (inClass (cfg_FinalizeEarly cfg) (map_of (rev us)) c))
   \<and> curSealingLocked (updateAll cfg us zeroStats) =
     of_nat (card {i. \<exists>st. map_of (rev us) i = Some st \<and> toStatState st (cfg_FinalizeEarly cfg) \<noteq> sstProving})"
proof -
  define fe where "fe = cfg_FinalizeEarly cfg"
  define ss where "ss = updateAll cfg us zeroStats"
  have zero: "stats_ok fe zeroStats" by (simp add: stats_ok_def zeroStats_def inClass_def)
  have ok: "stats_ok fe ss" "gm_get (ss_bySector ss) = map_of (rev us)"
    using updateAll_ok [of cfg zeroStats us] zero by (simp_all add: fe_def ss_def zeroStats_def)
  then have tot: "ss_totals ss c = of_nat (card (inClass fe (map_of (rev us)) c))" for c by (simp add: stats_ok_def)
  let ?m = "map_of (rev us)"
  have fin: "finite (inClass fe ?m c)" for c by (rule finite_inClass [OF finite_dom_map_of])
  have "{i. \<exists>st. ?m i = Some st \<and> toStatState st fe \<noteq> sstProving} =
      inClass fe ?m sstStaging \<union> inClass fe ?m sstSealing \<union> inClass fe ?m sstFailed"
    by (auto simp: inClass_def not_proving)
  moreover have "card (inClass fe ?m sstStaging \<union> inClass fe ?m sstSealing \<union> inClass fe ?m sstFailed) =
      card (inClass fe ?m sstStaging) + card (inClass fe ?m sstSealing) + card (inClass fe ?m sstFailed)"
  proof -
    have "inClass fe ?m sstStaging \<inter> inClass fe ?m sstSealing = {}"
      "(inClass fe ?m sstStaging \<union> inClass fe ?m sstSealing) \<inter> inClass fe ?m sstFailed = {}"
      by (auto simp: inClass_def)
    then show ?thesis using fin by (simp add: card_Un_disjoint)
  qed
  ultimately show ?thesis using tot by (simp add: curSealingLocked_def flip: fe_def ss_def)
qed

section \<open>The table and the switch\<close>

text \<open>
  Every named state has a planner, and planning a sector into a named state
  starts a handler or is a deliberate end (\<open>Removed\<close>, undefined, unrecoverable), except for
  \<open>FaultedFinal\<close>, which has a planner but falls through the switch as an unexpected state.
\<close>

theorem planners_and_handlers:
  "(fsmPlanners st = None \<longleftrightarrow> (\<exists>n. st = OtherState n))
   \<and> ((\<exists>h. handlerOf st = Inr h) \<longleftrightarrow>
      st \<in> set ExistSectorStateList - {Removed, FailedUnrecoverable, FaultedFinal})
   \<and> (handlerOf st = Inl ErrUnexpectedState \<longleftrightarrow> st = FaultedFinal \<or> (\<exists>n. st = OtherState n))"
  using planner_states [of st]
  by (cases st) (simp_all add: handlerOf_def ExistSectorStateList_def)

end
