(* ===== verification/Sealing_Env.thy ===== *)
theory Sealing_Env
  imports Sealing_Plan
begin

unbundle bit_operations_syntax

text \<open>
  What the handlers of the sealing pipeline see of the world: the answers of the node's API
  (\<^verbatim>\<open>SealingAPI\<close> of storage/pipeline/sealing.go), the sealer that does the work on disk,
  the batchers, the chain event scheduler, the actors' constants and the configuration. All of it
  is a parameter. A call that can fail is an \<open>option\<close>, \<open>None\<close> being the error; a pointer that
  may be nil is an inner \<open>option\<close>. Calls that one handler repeats and whose answer may change in
  between take the number of the call first. Epochs are \<^verbatim>\<open>int64\<close> values, whose sums and differences wrap around; only the epoch of the
  seed after a precommit is taken to be in range. The theory also has the
  helpers of utils.go, upgrade_queue.go, precommit_policy.go and of the actors' policy package.
\<close>

section \<open>On-chain data\<close>

datatype exitCode = ExitOk | SysErrInsufficientFunds | SysErrOutOfGas | ExitOther int

record tipsetHead =
  th_Key :: bytes
  th_Height :: int

record sectorPreCommitInfo =
  pp_Expiration :: int
  pp_SectorNumber :: nat
  pp_SealProof :: nat
  pp_SealedCID :: cid
  pp_SealRandEpoch :: int
  pp_DealIDs :: "nat list"
  pp_UnsealedCid :: "cid option"

record preCommitOnChain =
  pc_Info :: sectorPreCommitInfo
  pc_PreCommitDeposit :: tokenAmount
  pc_PreCommitEpoch :: int

record sectorOnChain =
  so_SealedCID :: cid
  so_Expiration :: int
  so_InitialPledge :: tokenAmount

record msgLookup =
  ml_ExitCode :: exitCode
  ml_Return :: bytes
  ml_TipSet :: bytes
  ml_Height :: int

record deadlineInfo =
  dl_Index :: "64 word"
  dl_WPoStPeriodDeadlines :: "64 word"
  dl_NextOpen :: int
  dl_WPoStChallengeWindow :: int

record minerInfo =
  mi_Worker :: nat
  mi_WindowPoStProofType :: nat

record allocation =
  al_TermMax :: int
  al_Expiration :: int

text \<open>The key of the empty tipset asks for the state at the current head.\<close>

definition EmptyTSK :: bytes where "EmptyTSK = []"

section \<open>The node, the sealer and the batchers\<close>

text \<open>
  Every call is made for the miner's own address, which is left out. The partitions of a deadline
  are given by their bitfield of active sectors; the deadlines by their number.
\<close>

record chain_api =
  ca_ChainHead :: "nat \<Rightarrow> tipsetHead option"
  ca_StateSectorPreCommitInfo :: "nat \<Rightarrow> bytes \<Rightarrow> preCommitOnChain option option"
  ca_StateSectorGetInfo :: "nat \<Rightarrow> bytes \<Rightarrow> sectorOnChain option option"
  ca_StateMinerSectorAllocated :: "nat \<Rightarrow> bytes \<Rightarrow> bool option"
  ca_StateMarketStorageDeal :: "nat \<Rightarrow> bytes \<Rightarrow> dealProposal option"
  ca_StateComputeDataCID :: "nat \<Rightarrow> nat list \<Rightarrow> bytes \<Rightarrow> cid option"
  ca_StateGetRandomnessFromTickets :: "int \<Rightarrow> bytes \<Rightarrow> bytes \<Rightarrow> bytes option"
  ca_StateGetRandomnessFromBeacon :: "int \<Rightarrow> bytes \<Rightarrow> bytes \<Rightarrow> bytes option"
  ca_StateSearchMsg :: "bytes \<Rightarrow> cid \<Rightarrow> msgLookup option option"
  ca_StateWaitMsg :: "nat \<Rightarrow> cid \<Rightarrow> msgLookup option"
  ca_StateNetworkVersion :: "bytes \<Rightarrow> nat option"
  ca_StateSectorPartition :: "nat \<Rightarrow> bytes \<Rightarrow> (64 word \<times> 64 word) option"
  ca_StateMinerProvingDeadline :: "bytes \<Rightarrow> deadlineInfo option"
  ca_StateMinerDeadlines :: "bytes \<Rightarrow> nat option"
  ca_StateMinerPartitions :: "nat \<Rightarrow> bytes \<Rightarrow> (nat \<Rightarrow> bool option) list option"
  ca_StateMinerInfo :: "bytes \<Rightarrow> minerInfo option"
  ca_StateMinerAvailableBalance :: "bytes \<Rightarrow> tokenAmount option"
  ca_StateMinerPreCommitDepositForPower :: "sectorPreCommitInfo \<Rightarrow> bytes \<Rightarrow> tokenAmount option"
  ca_StateMinerInitialPledgeCollateral :: "sectorPreCommitInfo \<Rightarrow> bytes \<Rightarrow> tokenAmount option"
  ca_StateLookupID :: "nat \<Rightarrow> bytes \<Rightarrow> nat option"
  ca_StateGetAllocationForPendingDeal :: "nat \<Rightarrow> bytes \<Rightarrow> allocation option option"
  ca_ChainGetMessage :: "cid \<Rightarrow> bytes option"
  ca_MpoolPushMessage :: "nat \<Rightarrow> tokenAmount \<Rightarrow> tokenAmount \<Rightarrow> bytes \<Rightarrow> cid option"

text \<open>
  An error of a sealing task: one of the two temporary errors of a worker, another error of a
  worker, or an error that does not come from a worker.
\<close>

datatype workError = ErrTempWorkerRestart | ErrTempAllocateSpace | ErrWorkerOther | ErrNotWorker

text \<open>
  The content of a piece is a reader of zeros or the data of a deal. A sector is named by its
  proof type and number. The two precommit tasks are retried and take the
  number of the attempt. A task without a result is a \<open>bool\<close>: whether it succeeded.
\<close>

datatype pieceData = NullReader "64 word" | DealData nat

record sealer_api =
  sa_AddPiece :: "nat \<Rightarrow> nat \<Rightarrow> 64 word list \<Rightarrow> 64 word \<Rightarrow> pieceData \<Rightarrow> pieceInfo option"
  sa_SealPreCommit1 :: "nat \<Rightarrow> nat \<Rightarrow> nat \<Rightarrow> bytes \<Rightarrow> pieceInfo list \<Rightarrow> workError + bytes"
  sa_SealPreCommit2 :: "nat \<Rightarrow> nat \<Rightarrow> nat \<Rightarrow> bytes \<Rightarrow> workError + cid \<times> cid"
  sa_SealCommit1 :: "nat \<Rightarrow> nat \<Rightarrow> bytes \<Rightarrow> bytes \<Rightarrow> pieceInfo list \<Rightarrow> cid \<Rightarrow> cid \<Rightarrow> bytes option"
  sa_SealCommit2 :: "nat \<Rightarrow> nat \<Rightarrow> bytes \<Rightarrow> bytes option"
  sa_ReleaseUnsealed :: "nat \<Rightarrow> nat \<Rightarrow> (64 word \<times> 64 word) list \<Rightarrow> bool"
  sa_FinalizeSector :: "nat \<Rightarrow> nat \<Rightarrow> bool"
  sa_ReplicaUpdate :: "nat \<Rightarrow> nat \<Rightarrow> pieceInfo list \<Rightarrow> (cid \<times> cid) option"
  sa_ProveReplicaUpdate1 :: "nat \<Rightarrow> nat \<Rightarrow> cid \<Rightarrow> cid \<Rightarrow> cid \<Rightarrow> bytes option"
  sa_ProveReplicaUpdate2 :: "nat \<Rightarrow> nat \<Rightarrow> cid \<Rightarrow> cid \<Rightarrow> cid \<Rightarrow> bytes \<Rightarrow> bytes option option"
  sa_FinalizeReplicaUpdate :: "nat \<Rightarrow> nat \<Rightarrow> bool"
  sa_ReleaseReplicaUpgrade :: "nat \<Rightarrow> nat \<Rightarrow> bool"
  sa_ReleaseSectorKey :: "nat \<Rightarrow> nat \<Rightarrow> bool"
  sa_Remove :: "nat \<Rightarrow> nat \<Rightarrow> bool"
  sa_DownloadSectorData :: "nat \<Rightarrow> nat \<Rightarrow> bool \<Rightarrow> (string, sectorLocation) gomap \<Rightarrow> bool"

record sealVerifyInfo =
  sv_SealProof :: nat
  sv_SectorNumber :: nat
  sv_Randomness :: bytes
  sv_InteractiveRandomness :: bytes
  sv_SealProofBytes :: bytes
  sv_SealedCID :: cid
  sv_UnsealedCID :: cid

record preCommitBatchRes =
  pb_Msg :: "cid option"
  pb_Error :: string

record commitBatchRes =
  cb_FailedSectors :: "(nat, string) gomap"
  cb_Msg :: "cid option"
  cb_Error :: string

record aggregateInput =
  ai_Number :: nat
  ai_Randomness :: bytes
  ai_InteractiveRandomness :: bytes
  ai_SealedCID :: cid
  ai_UnsealedCID :: cid
  ai_Proof :: bytes
  ai_Spt :: nat

record replicaUpdate =
  ru_SectorID :: nat
  ru_Deadline :: "64 word"
  ru_Partition :: "64 word"
  ru_NewSealedSectorCID :: cid
  ru_Deals :: "nat list"
  ru_UpdateProofType :: nat
  ru_ReplicaProof :: "bytes option"

text \<open>
  A request to a remote prover fails when its body cannot be built, fails on the way (creating the
  request, sending it, a status other than 200, reading the answer), or has an answer. A callback
  registered with \<^verbatim>\<open>ChainAt\<close> is refused, waits for its height, or has run.
\<close>

datatype remote = RemoteMarshalError | RemoteError | RemoteBody bytes

datatype chainAt = AtError | AtPending | AtReached

section \<open>Policy and configuration\<close>

text \<open>
  The constants of the actors, as the packages that the code imports have them (the minimal
  expiration comes from three of them: the policy, version 8 and the miner's types); \<open>po_MaxProveCommitDuration\<close> and
  \<open>po_MaxSectorExpirationExtension\<close> are their tables by the version of the actors.
\<close>

record actor_policy =
  po_ChainFinality :: int
  po_EpochsInDay :: int
  po_EpochDurationSeconds :: nat
  po_PreCommitChallengeDelay :: int
  po_MinSectorExpiration :: int
  po_MinSectorExpiration_v8 :: int
  po_MinSectorExpiration_miner :: int
  po_WPoStProvingPeriod :: int
  po_VersionForNetwork :: "nat \<Rightarrow> nat option"
  po_MaxProveCommitDuration :: "nat \<Rightarrow> nat \<Rightarrow> int"
  po_MaxSectorExpirationExtension :: "nat \<Rightarrow> int"
  po_DealMinDuration :: int

definition SealRandomnessLookback :: "actor_policy \<Rightarrow> int" where
  "SealRandomnessLookback po = po_ChainFinality po"

definition MaxPreCommitRandomnessLookback :: "actor_policy \<Rightarrow> int" where
  "MaxPreCommitRandomnessLookback po = po_EpochsInDay po + SealRandomnessLookback po"

definition supportedActors :: "nat list" where
  "supportedActors = [0, 2, 3, 4, 5, 6, 7, 8, 9, 10, 11, 12]"

definition GetMaxProveCommitDuration :: "actor_policy \<Rightarrow> nat \<Rightarrow> nat \<Rightarrow> int option" where
  "GetMaxProveCommitDuration po ver t =
     (if ver \<in> set supportedActors then Some (po_MaxProveCommitDuration po ver t) else None)"

definition GetWinningPoStSectorSetLookback :: "actor_policy \<Rightarrow> nat \<Rightarrow> int" where
  "GetWinningPoStSectorSetLookback po nwVer = (if nwVer \<le> 3 then 10 else po_ChainFinality po)"

definition GetMaxSectorExpirationExtension :: "actor_policy \<Rightarrow> nat \<Rightarrow> int option" where
  "GetMaxSectorExpirationExtension po nv =
     (case po_VersionForNetwork po nv of
        None \<Rightarrow> None
      | Some v \<Rightarrow> if v \<in> set supportedActors then Some (po_MaxSectorExpirationExtension po v) else None)"

text \<open>
  The fields of \<^verbatim>\<open>sealiface.Config\<close> that the handlers and the input queue read, on top of the ones that
  planning reads. Durations are in nanoseconds; the lifetime is the whole seconds of its duration.
\<close>

record sealing_config = sealing_cfg +
  cfg_PreferNewSectorsForDeals :: bool
  cfg_MinUpgradeSectorExpiration :: int
  cfg_MaxUpgradingSectors :: "64 word"
  cfg_MakeNewSectorForDeals :: bool
  cfg_MakeCCSectorsAvailable :: bool
  cfg_WaitDealsDelay :: int
  cfg_CommittedCapacitySectorLifetime :: int
  cfg_StartEpochSealingBuffer :: int
  cfg_AlwaysKeepUnsealedCopy :: bool
  cfg_CollateralFromMinerBalance :: bool
  cfg_AvailableBalanceBuffer :: tokenAmount
  cfg_DisableCollateralFallback :: bool
  cfg_AggregateCommits :: bool
  cfg_UseSyntheticPoRep :: bool

text \<open>
  The environment of a handler. \<open>sv_now\<close> is the clock in nanoseconds, \<open>sv_cancelled\<close> whether
  the handler's context is cancelled while it waits, \<open>sv_fuel\<close> how many rounds of a waiting
  loop are followed. \<open>sv_unpadded\<close> and \<open>sv_padded\<close> are the conversions of piece sizes,
  \<open>sv_SectorSize\<close> and \<open>sv_RegisteredUpdateProof\<close> those of a proof type. \<open>sv_uint64Seconds\<close> is
  \<^verbatim>\<open>uint64(d.Seconds())\<close> of a duration in nanoseconds: the seconds are a floating point number, and
  what becomes of a negative one depends on the implementation of Go.
\<close>

record sealing_env =
  sv_api :: chain_api
  sv_sealer :: sealer_api
  sv_policy :: actor_policy
  sv_config :: "sealing_config option"
  sv_maddr :: nat
  sv_maddrBuf :: "bytes option"
  sv_now :: int
  sv_cancelled :: bool
  sv_fuel :: nat
  sv_provingBuffer :: int
  sv_uint64Seconds :: "int \<Rightarrow> 64 word"
  sv_MaxCommitGasFee :: tokenAmount
  sv_BlockDelaySecs :: int
  sv_unpadded :: "64 word \<Rightarrow> 64 word"
  sv_padded :: "64 word \<Rightarrow> 64 word"
  sv_ZeroPieceCommitment :: "64 word \<Rightarrow> cid"
  sv_SectorSize :: "nat \<Rightarrow> 64 word option"
  sv_RegisteredUpdateProof :: "nat \<Rightarrow> nat option"
  sv_PreferredSealProofType :: "nat \<Rightarrow> nat \<Rightarrow> bool \<Rightarrow> nat option"
  sv_VerifySeal :: "sealVerifyInfo \<Rightarrow> bool option"
  sv_commitParams :: "nat \<Rightarrow> bytes \<Rightarrow> bytes option"
  sv_updateParams :: "replicaUpdate \<Rightarrow> bytes option"
  sv_AddPreCommit :: "sectorInfo \<Rightarrow> tokenAmount \<Rightarrow> sectorPreCommitInfo \<Rightarrow> preCommitBatchRes option"
  sv_AddCommit :: "sectorInfo \<Rightarrow> aggregateInput \<Rightarrow> commitBatchRes option"
  sv_AddTermination :: "nat \<Rightarrow> (cid \<times> bool) option"
  sv_AddressFor :: "minerInfo \<Rightarrow> tokenAmount \<Rightarrow> tokenAmount \<Rightarrow> nat option"
  sv_remoteCommit1 :: "sectorInfo \<Rightarrow> remote"
  sv_remoteCommit2 :: "sectorInfo \<Rightarrow> bytes \<Rightarrow> remote"
  sv_ChainAt :: "nat \<Rightarrow> int \<Rightarrow> chainAt"
  sv_PublishReturn :: "bytes \<Rightarrow> nat \<Rightarrow> (nat list option \<times> (nat \<Rightarrow> (bool \<times> int) option)) option"
  sv_PublishParams :: "bytes \<Rightarrow> dealProposal list option"

definition currentSealProof :: "sealing_env \<Rightarrow> nat option" where
  "currentSealProof env =
     (case ca_StateMinerInfo (sv_api env) EmptyTSK of
        None \<Rightarrow> None
      | Some mi \<Rightarrow>
          (case ca_StateNetworkVersion (sv_api env) EmptyTSK of
             None \<Rightarrow> None
           | Some ver \<Rightarrow>
               (case sv_config env of
                  None \<Rightarrow> None
                | Some c \<Rightarrow> sv_PreferredSealProofType env ver (mi_WindowPoStProofType mi) (cfg_UseSyntheticPoRep c))))"

section \<open>Amounts and sizes\<close>

text \<open>\<open>collateralSendAmount\<close>: what has to be sent on top of the miner's own balance.\<close>

definition collateralSendAmount :: "sealing_env \<Rightarrow> sealing_config \<Rightarrow> tokenAmount \<Rightarrow> tokenAmount option" where
  "collateralSendAmount env cfg collateral =
     (if cfg_CollateralFromMinerBalance cfg
      then (if cfg_DisableCollateralFallback cfg then Some 0
            else case ca_StateMinerAvailableBalance (sv_api env) EmptyTSK of
              None \<Rightarrow> None
            | Some bal \<Rightarrow>
                (let avail = bal - cfg_AvailableBalanceBuffer cfg;
                     avail' = (if avail < 0 then 0 else avail);
                     rest = collateral - avail'
                 in Some (if rest < 0 then 0 else rest)))
      else Some collateral)"

text \<open>\<open>sendMsg\<close>: the message goes to the miner's actor; the result is its cid.\<close>

definition sendMsg :: "sealing_env \<Rightarrow> nat \<Rightarrow> tokenAmount \<Rightarrow> tokenAmount \<Rightarrow> bytes \<Rightarrow> cid option" where
  "sendMsg env frm val maxFee params = ca_MpoolPushMessage (sv_api env) frm val maxFee params"

text \<open>The functions of \<^verbatim>\<open>math/bits\<close> on a 64 bit word.\<close>

definition OnesCount64 :: "64 word \<Rightarrow> nat" where
  "OnesCount64 w = length (filter (bit w) [0..<64])"

definition TrailingZeros64 :: "64 word \<Rightarrow> nat" where
  "TrailingZeros64 w = length (takeWhile (\<lambda>b. \<not> bit w b) [0..<64])"

text \<open>
  The loop that takes a number of bytes apart into powers of two, smallest first; \<open>n\<close> rounds
  are left. It is shared by \<open>fillersFromRem\<close> and \<open>GetRequiredPadding\<close>.
\<close>

fun powers_loop :: "nat \<Rightarrow> 64 word \<Rightarrow> 64 word list" where
  "powers_loop 0 toFill = []"
| "powers_loop (Suc n) toFill =
     (let psize = push_bit (TrailingZeros64 toFill) 1
      in psize # powers_loop n (toFill XOR psize))"

definition fillersFromRem :: "sealing_env \<Rightarrow> 64 word \<Rightarrow> 64 word list" where
  "fillersFromRem env rem =
     (let toFill = rem + rem div 127
      in map (sv_unpadded env) (powers_loop (OnesCount64 toFill) toFill))"

text \<open>The division by a piece of length 0 is a panic, \<open>None\<close>.\<close>

definition GetRequiredPadding :: "64 word \<Rightarrow> 64 word \<Rightarrow> (64 word list \<times> 64 word) option" where
  "GetRequiredPadding oldLength newPieceLength =
     (if newPieceLength = 0 then None
      else (let toFill = (- oldLength) mod newPieceLength;
                padPieces = powers_loop (OnesCount64 toFill) toFill
            in Some (padPieces, sum_list padPieces)))"

section \<open>Sectors on chain\<close>

text \<open>\<open>sectorActive\<close>: the partitions of the deadlines are searched in order; \<open>None\<close> is an API error.\<close>

fun activeIn :: "nat \<Rightarrow> (nat \<Rightarrow> bool option) list \<Rightarrow> bool option" where
  "activeIn sn [] = Some False"
| "activeIn sn (isSet # parts) =
     (case isSet sn of None \<Rightarrow> None | Some True \<Rightarrow> Some True | Some False \<Rightarrow> activeIn sn parts)"

fun activeFrom :: "sealing_env \<Rightarrow> bytes \<Rightarrow> nat \<Rightarrow> nat list \<Rightarrow> bool option" where
  "activeFrom env tsk sn [] = Some False"
| "activeFrom env tsk sn (dl # dls) =
     (case ca_StateMinerPartitions (sv_api env) dl tsk of
        None \<Rightarrow> None
      | Some parts \<Rightarrow>
          (case activeIn sn parts of
             None \<Rightarrow> None
           | Some True \<Rightarrow> Some True
           | Some False \<Rightarrow> activeFrom env tsk sn dls))"

definition sectorActive :: "sealing_env \<Rightarrow> bytes \<Rightarrow> nat \<Rightarrow> bool option" where
  "sectorActive env tsk sn =
     (case ca_StateMinerDeadlines (sv_api env) tsk of
        None \<Rightarrow> None
      | Some n \<Rightarrow> activeFrom env tsk sn [0..<n])"

definition checkTicketExpired :: "actor_policy \<Rightarrow> int \<Rightarrow> int \<Rightarrow> bool" where
  "checkTicketExpired po ticket head \<longleftrightarrow> wrap64 (head - ticket) > MaxPreCommitRandomnessLookback po"

definition checkProveCommitExpired :: "int \<Rightarrow> int \<Rightarrow> int \<Rightarrow> bool" where
  "checkProveCommitExpired preCommitEpoch msd currEpoch \<longleftrightarrow> currEpoch > wrap64 (preCommitEpoch + msd)"

section \<open>The expiration of a sector\<close>

definition getCCSectorLifetime :: "sealing_env \<Rightarrow> nat \<Rightarrow> int option" where
  "getCCSectorLifetime env nv =
     (case sv_config env of
        None \<Rightarrow> None
      | Some c \<Rightarrow>
          (case GetMaxSectorExpirationExtension (sv_policy env) nv of
             None \<Rightarrow> None
           | Some maxCommitment \<Rightarrow>
               (let epochs = wrap64 (uint (sv_uint64Seconds env (cfg_CommittedCapacitySectorLifetime c)
                                            div word_of_nat (po_EpochDurationSeconds (sv_policy env))));
                    ccLifetimeEpochs = (if epochs = 0 then maxCommitment else epochs);
                    minExpiration = po_MinSectorExpiration_v8 (sv_policy env)
                in if ccLifetimeEpochs < minExpiration then Some minExpiration
                   else if ccLifetimeEpochs > maxCommitment then Some maxCommitment
                   else Some (wrap64 (ccLifetimeEpochs - sv_provingBuffer env)))))"

text \<open>The latest end of a deal that has not ended yet, over the pieces of the sector.\<close>

fun lastDealEnd :: "int \<Rightarrow> sectorPiece list \<Rightarrow> int option \<Rightarrow> int option" where
  "lastDealEnd height [] latest = latest"
| "lastDealEnd height (p # ps) latest =
     (case sp_DealInfo p of
        None \<Rightarrow> lastDealEnd height ps latest
      | Some di \<Rightarrow>
          (if di_EndEpoch di < height then lastDealEnd height ps latest
           else lastDealEnd height ps
             (case latest of
                None \<Rightarrow> Some (di_EndEpoch di)
              | Some e \<Rightarrow> if e < di_EndEpoch di then Some (di_EndEpoch di) else Some e)))"

text \<open>\<open>Expiration\<close> of \<^verbatim>\<open>BasicPreCommitPolicy\<close>; the head is the one of call \<open>n\<close>.\<close>

definition Expiration :: "sealing_env \<Rightarrow> nat \<Rightarrow> sectorPiece list \<Rightarrow> int option" where
  "Expiration env n ps =
     (case ca_ChainHead (sv_api env) n of
        None \<Rightarrow> None
      | Some ts \<Rightarrow>
          (let end0 = (case lastDealEnd (th_Height ts) ps None of
                         Some e \<Rightarrow> Some e
                       | None \<Rightarrow>
                           (case ca_StateNetworkVersion (sv_api env) EmptyTSK of
                              None \<Rightarrow> None
                            | Some nv \<Rightarrow> map_option (\<lambda>d. wrap64 (th_Height ts + d)) (getCCSectorLifetime env nv)));
               minExp = wrap64 (th_Height ts + po_MinSectorExpiration (sv_policy env) + po_WPoStProvingPeriod (sv_policy env))
           in map_option (\<lambda>e. if e < minExp then minExp else e) end0))"

end
