(* ===== verification/Sealing_Checks.thy ===== *)
theory Sealing_Checks
  imports Sealing_Env
begin

text \<open>
  The checks of storage/pipeline/checks.go: the pieces against the deals on chain, a sector before
  its precommit, before its commit and after a replica update. A check finds nothing, returns one
  of the error types of that file (\<open>ErrPlain\<close>: an error without a type), or panics.
\<close>

datatype checkErr =
    ErrApi | ErrNoDeals | ErrInvalidDeals | ErrInvalidPiece | ErrExpiredDeals | ErrBadCommD | ErrExpiredTicket
  | ErrBadTicket | ErrPrecommitOnChain | ErrSectorNumberAllocated | ErrBadSeed | ErrInvalidProof | ErrNoPrecommit
  | ErrCommitWaitFailed | ErrBadRU | ErrBadPR | ErrPlain

datatype checkResult = CheckOk | CheckErr checkErr | CheckPanic

text \<open>
  The loop of \<open>checkPieces\<close>: \<open>offset\<close> is the padded size of the pieces before, \<open>deals\<close> the
  number of pieces with a deal. A piece of size 0 is a division by zero.
\<close>

fun checkPieces_loop :: "sealing_env \<Rightarrow> tipsetHead \<Rightarrow> 64 word \<Rightarrow> nat \<Rightarrow> sectorPiece list \<Rightarrow> checkResult \<times> nat" where
  "checkPieces_loop env ts offset deals [] = (CheckOk, deals)"
| "checkPieces_loop env ts offset deals (p # ps) =
     (let piece = sp_Piece p; size = pi_Size piece; offset' = offset + size
      in if size = 0 then (CheckPanic, deals)
         else if offset mod size \<noteq> 0 then (CheckErr ErrInvalidPiece, deals)
         else case sp_DealInfo p of
           None \<Rightarrow>
             (if pi_PieceCID piece \<noteq> sv_ZeroPieceCommitment env (sv_unpadded env size)
              then (CheckErr ErrInvalidPiece, deals)
              else checkPieces_loop env ts offset' deals ps)
         | Some di \<Rightarrow>
             (case ca_StateMarketStorageDeal (sv_api env) (di_DealID di) (th_Key ts) of
                None \<Rightarrow> (CheckErr ErrInvalidDeals, deals + 1)
              | Some deal \<Rightarrow>
                  (if dp_Provider deal \<noteq> sv_maddr env then (CheckErr ErrInvalidDeals, deals + 1)
                   else if dp_PieceCID deal \<noteq> pi_PieceCID piece then (CheckErr ErrInvalidDeals, deals + 1)
                   else if size \<noteq> dp_PieceSize deal then (CheckErr ErrInvalidDeals, deals + 1)
                   else if th_Height ts \<ge> dp_StartEpoch deal then (CheckErr ErrExpiredDeals, deals + 1)
                   else checkPieces_loop env ts offset' (deals + 1) ps)))"

definition checkPieces :: "sealing_env \<Rightarrow> nat \<Rightarrow> sectorPiece list \<Rightarrow> bool \<Rightarrow> checkResult" where
  "checkPieces env n pieces mustHaveDeals =
     (case ca_ChainHead (sv_api env) n of
        None \<Rightarrow> CheckErr ErrApi
      | Some ts \<Rightarrow>
          (case checkPieces_loop env ts 0 0 pieces of
             (CheckOk, dealCount) \<Rightarrow> if mustHaveDeals \<and> dealCount = 0 then CheckErr ErrNoDeals else CheckOk
           | (r, _) \<Rightarrow> r))"

text \<open>
  \<open>checkPrecommit\<close>: the data commitment matches the pieces, the sector is not on chain yet and the
  ticket has not expired. \<open>n\<close> is the number of the call of \<open>ChainHead\<close> that \<open>checkPieces\<close> makes.
\<close>

definition checkPrecommit :: "sealing_env \<Rightarrow> nat \<Rightarrow> sectorInfo \<Rightarrow> bytes \<Rightarrow> int \<Rightarrow> checkResult" where
  "checkPrecommit env n si tsk height =
     (case checkPieces env n (si_Pieces si) False of
        CheckOk \<Rightarrow>
          (let commDres =
             (if hasDeals si
              then (case ca_StateComputeDataCID (sv_api env) (si_SectorType si) (dealIDs si) tsk of
                      None \<Rightarrow> CheckErr ErrApi
                    | Some commD \<Rightarrow> if si_CommD si \<noteq> Some commD then CheckErr ErrBadCommD else CheckOk)
              else CheckOk)
           in case commDres of
                CheckOk \<Rightarrow>
                  (case ca_StateSectorPreCommitInfo (sv_api env) (si_SectorNumber si) tsk of
                     None \<Rightarrow> CheckErr ErrApi
                   | Some (Some pci) \<Rightarrow>
                       (if pp_SealRandEpoch (pc_Info pci) \<noteq> si_TicketEpoch si then CheckErr ErrBadTicket
                        else CheckErr ErrPrecommitOnChain)
                   | Some None \<Rightarrow>
                       (case ca_StateMinerSectorAllocated (sv_api env) (si_SectorNumber si) tsk of
                          None \<Rightarrow> CheckErr ErrPlain
                        | Some alloc \<Rightarrow>
                            (if alloc then CheckErr ErrSectorNumberAllocated
                             else if si_TicketEpoch si < wrap64 (height - MaxPreCommitRandomnessLookback (sv_policy env))
                             then CheckErr ErrExpiredTicket
                             else CheckOk)))
              | r \<Rightarrow> r)
      | r \<Rightarrow> r)"

text \<open>The information that \<open>checkCommit\<close> verifies the seal proof with.\<close>

definition commitVerifyInfo :: "sectorInfo \<Rightarrow> preCommitOnChain \<Rightarrow> bytes \<Rightarrow> cid \<Rightarrow> sealVerifyInfo" where
  "commitVerifyInfo si pci proof commD =
     \<lparr>sv_SealProof = pp_SealProof (pc_Info pci), sv_SectorNumber = si_SectorNumber si,
      sv_Randomness = si_TicketValue si, sv_InteractiveRandomness = si_SeedValue si,
      sv_SealProofBytes = proof, sv_SealedCID = pp_SealedCID (pc_Info pci), sv_UnsealedCID = commD\<rparr>"

text \<open>
  The part of \<open>checkCommit\<close> after the precommit was found: seed, proof, pieces. A nil
  \<open>CommR\<close> or \<open>CommD\<close> is dereferenced, a panic.
\<close>

definition checkCommit_proof :: "sealing_env \<Rightarrow> nat \<Rightarrow> sectorInfo \<Rightarrow> preCommitOnChain \<Rightarrow> bytes \<Rightarrow> bytes \<Rightarrow> checkResult" where
  "checkCommit_proof env n si pci proof tsk =
     (if pc_PreCommitEpoch pci + po_PreCommitChallengeDelay (sv_policy env) \<noteq> si_SeedEpoch si then CheckErr ErrBadSeed
      else case sv_maddrBuf env of
        None \<Rightarrow> CheckErr ErrPlain
      | Some buf \<Rightarrow>
          (case ca_StateGetRandomnessFromBeacon (sv_api env) (si_SeedEpoch si) buf tsk of
             None \<Rightarrow> CheckErr ErrApi
           | Some seed \<Rightarrow>
               (if seed \<noteq> si_SeedValue si then CheckErr ErrBadSeed
                else case (si_CommR si, si_CommD si) of
                  (Some commR, Some commD) \<Rightarrow>
                    (case sv_VerifySeal env (commitVerifyInfo si pci proof commD) of
                       None \<Rightarrow> CheckErr ErrInvalidProof
                     | Some ok \<Rightarrow>
                         (if \<not> ok then CheckErr ErrInvalidProof else checkPieces env n (si_Pieces si) False))
                | _ \<Rightarrow> CheckPanic)))"

definition checkCommit :: "sealing_env \<Rightarrow> nat \<Rightarrow> sectorInfo \<Rightarrow> bytes \<Rightarrow> bytes \<Rightarrow> checkResult" where
  "checkCommit env n si proof tsk =
     (if si_SeedEpoch si = 0 then CheckErr ErrBadSeed
      else case ca_StateSectorPreCommitInfo (sv_api env) (si_SectorNumber si) tsk of
        None \<Rightarrow> CheckErr ErrPlain
      | Some None \<Rightarrow>
          (case ca_StateMinerSectorAllocated (sv_api env) (si_SectorNumber si) tsk of
             None \<Rightarrow> CheckErr ErrPlain
           | Some alloc \<Rightarrow>
               (if alloc then (if si_CommitMessage si \<noteq> None then CheckErr ErrCommitWaitFailed else CheckErr ErrPlain)
                else CheckErr ErrNoPrecommit))
      | Some (Some pci) \<Rightarrow> checkCommit_proof env n si pci proof tsk)"

definition checkReplicaUpdate :: "sealing_env \<Rightarrow> nat \<Rightarrow> sectorInfo \<Rightarrow> bytes \<Rightarrow> checkResult" where
  "checkReplicaUpdate env n si tsk =
     (case checkPieces env n (si_Pieces si) True of
        CheckOk \<Rightarrow>
          (if \<not> si_CCUpdate si then CheckErr ErrPlain
           else case ca_StateComputeDataCID (sv_api env) (si_SectorType si) (dealIDs si) tsk of
             None \<Rightarrow> CheckErr ErrApi
           | Some commD \<Rightarrow>
               (case si_UpdateUnsealed si of
                  None \<Rightarrow> CheckErr ErrBadRU
                | Some unsealed \<Rightarrow>
                    (if commD \<noteq> unsealed then CheckErr ErrBadRU
                     else if si_UpdateSealed si = None then CheckErr ErrBadRU
                     else if si_ReplicaUpdateProof si = None then CheckErr ErrBadPR
                     else CheckOk)))
      | r \<Rightarrow> r)"

end
