(* ===== verification/Sealing_Deals.thy ===== *)
theory Sealing_Deals
  imports Sealing_Checks
begin

text \<open>
  Finding the current identifier of a published deal (storage/pipeline/currentdealinfo.go) and the
  pieces of a sector whose deal has to be looked up again (\<^verbatim>\<open>recoveryPiecesToFix\<close> of
  storage/pipeline/states_failed.go). A deal gets its identifier when the publish message runs, so
  a reorganisation of the chain can change it.
\<close>

text \<open>The result of a Go function that may fail or panic.\<close>

datatype 'a go = GoOk 'a | GoErr | GoPanic

definition CheckDealEquality :: "sealing_env \<Rightarrow> bytes \<Rightarrow> dealProposal \<Rightarrow> dealProposal \<Rightarrow> bool option" where
  "CheckDealEquality env tsk p1 p2 =
     (case ca_StateLookupID (sv_api env) (dp_Client p1) tsk of
        None \<Rightarrow> None
      | Some p1ClientID \<Rightarrow>
          (case ca_StateLookupID (sv_api env) (dp_Client p2) tsk of
             None \<Rightarrow> None
           | Some p2ClientID \<Rightarrow>
               Some (dp_PieceCID p1 = dp_PieceCID p2 \<and>
                     dp_PieceSize p1 = dp_PieceSize p2 \<and>
                     dp_VerifiedDeal p1 = dp_VerifiedDeal p2 \<and>
                     dp_Label p1 = dp_Label p2 \<and>
                     dp_StartEpoch p1 = dp_StartEpoch p2 \<and>
                     dp_EndEpoch p1 = dp_EndEpoch p2 \<and>
                     dp_StoragePricePerEpoch p1 = dp_StoragePricePerEpoch p2 \<and>
                     dp_ProviderCollateral p1 = dp_ProviderCollateral p2 \<and>
                     dp_ClientCollateral p1 = dp_ClientCollateral p2 \<and>
                     dp_Provider p1 = dp_Provider p2 \<and>
                     p1ClientID = p2ClientID)))"

text \<open>The index of the first proposal of the message that equals the given one; \<open>GoErr\<close>: a
  comparison failed; \<open>GoOk None\<close>: there is none.\<close>

fun findDeal :: "sealing_env \<Rightarrow> bytes \<Rightarrow> dealProposal \<Rightarrow> nat \<Rightarrow> dealProposal list \<Rightarrow> nat option go" where
  "findDeal env tsk proposal i [] = GoOk None"
| "findDeal env tsk proposal i (d # ds) =
     (case CheckDealEquality env tsk proposal d of
        None \<Rightarrow> GoErr
      | Some eq \<Rightarrow> if eq then GoOk (Some i) else findDeal env tsk proposal (i + 1) ds)"

text \<open>
  The second half of \<open>dealIDFromPublishDealsMsg\<close>, for a known proposal: its place in the message
  selects the identifier in the message's return value.
\<close>

definition dealIDOfProposal ::
    "sealing_env \<Rightarrow> bytes \<Rightarrow> dealProposal \<Rightarrow> cid \<Rightarrow> nat list \<Rightarrow> (nat \<Rightarrow> (bool \<times> int) option) \<Rightarrow> nat go" where
  "dealIDOfProposal env tsk proposal publishCid ids isDealValid =
     (case ca_ChainGetMessage (sv_api env) publishCid of
        None \<Rightarrow> GoErr
      | Some params \<Rightarrow>
          (case sv_PublishParams env params of
             None \<Rightarrow> GoErr
           | Some deals \<Rightarrow>
               (case findDeal env tsk proposal 0 deals of
                  GoOk (Some dealIdx) \<Rightarrow>
                    (if dealIdx \<ge> length deals then GoErr
                     else case isDealValid dealIdx of
                       None \<Rightarrow> GoErr
                     | Some (valid, outIdx) \<Rightarrow>
                         (if \<not> valid then GoErr
                          else if outIdx \<ge> int (length ids) then GoErr
                          else if outIdx < 0 then GoPanic
                          else GoOk (ids ! nat outIdx)))
                | GoOk None \<Rightarrow> GoErr
                | GoErr \<Rightarrow> GoErr
                | GoPanic \<Rightarrow> GoPanic)))"

text \<open>Without a proposal the message must have published a single deal; with none at all the
  first identifier is read out of an empty slice.\<close>

definition dealIDFromPublishDealsMsg ::
    "sealing_env \<Rightarrow> bytes \<Rightarrow> dealProposal option \<Rightarrow> cid \<Rightarrow> (nat \<times> bytes) go" where
  "dealIDFromPublishDealsMsg env tsk proposal publishCid =
     (case ca_StateSearchMsg (sv_api env) tsk publishCid of
        None \<Rightarrow> GoErr
      | Some None \<Rightarrow> GoErr
      | Some (Some lookup) \<Rightarrow>
          (if ml_ExitCode lookup \<noteq> ExitOk then GoErr
           else case ca_StateNetworkVersion (sv_api env) (ml_TipSet lookup) of
             None \<Rightarrow> GoErr
           | Some nv \<Rightarrow>
               (case sv_PublishReturn env (ml_Return lookup) nv of
                  None \<Rightarrow> GoErr
                | Some (None, _) \<Rightarrow> GoErr
                | Some (Some ids, isDealValid) \<Rightarrow>
                    (case proposal of
                       None \<Rightarrow>
                         (if length ids > 1 then GoErr
                          else case ids of [] \<Rightarrow> GoPanic | d # _ \<Rightarrow> GoOk (d, ml_TipSet lookup))
                     | Some p \<Rightarrow>
                         (case dealIDOfProposal env tsk p publishCid ids isDealValid of
                            GoOk d \<Rightarrow> GoOk (d, ml_TipSet lookup)
                          | GoErr \<Rightarrow> GoErr
                          | GoPanic \<Rightarrow> GoPanic)))))"

record currentDealInfo =
  cd_DealID :: nat
  cd_MarketDeal :: dealProposal
  cd_PublishMsgTipSet :: bytes

definition GetCurrentDealInfo :: "sealing_env \<Rightarrow> bytes \<Rightarrow> dealProposal option \<Rightarrow> cid \<Rightarrow> currentDealInfo go" where
  "GetCurrentDealInfo env tsk proposal publishCid =
     (case dealIDFromPublishDealsMsg env tsk proposal publishCid of
        GoErr \<Rightarrow> GoErr
      | GoPanic \<Rightarrow> GoPanic
      | GoOk (dealID, pubMsgTok) \<Rightarrow>
          (case ca_StateMarketStorageDeal (sv_api env) dealID tsk of
             None \<Rightarrow> GoErr
           | Some marketDeal \<Rightarrow>
               (let res = GoOk \<lparr>cd_DealID = dealID, cd_MarketDeal = marketDeal, cd_PublishMsgTipSet = pubMsgTok\<rparr>
                in case proposal of
                     None \<Rightarrow> res
                   | Some p \<Rightarrow>
                       (case CheckDealEquality env tsk p marketDeal of
                          None \<Rightarrow> GoErr
                        | Some eq \<Rightarrow> if eq then res else GoErr))))"

section \<open>Pieces to fix\<close>

text \<open>The indices of the pieces to fix, in order, and the number of padding pieces.\<close>

fun toFix_loop ::
    "sealing_env \<Rightarrow> tipsetHead \<Rightarrow> nat \<Rightarrow> nat list \<Rightarrow> nat \<Rightarrow> sectorPiece list \<Rightarrow> (nat list \<times> nat) option" where
  "toFix_loop env ts i toFix padding [] = Some (toFix, padding)"
| "toFix_loop env ts i toFix padding (p # ps) =
     (let piece = sp_Piece p; fix = toFix_loop env ts (i + 1) (toFix @ [i]) padding ps
      in case sp_DealInfo p of
           None \<Rightarrow>
             (if pi_PieceCID piece \<noteq> sv_ZeroPieceCommitment env (sv_unpadded env (pi_Size piece)) then None
              else toFix_loop env ts (i + 1) toFix (padding + 1) ps)
         | Some di \<Rightarrow>
             (case ca_StateMarketStorageDeal (sv_api env) (di_DealID di) (th_Key ts) of
                None \<Rightarrow> fix
              | Some deal \<Rightarrow>
                  (if dp_Provider deal \<noteq> sv_maddr env then fix
                   else if dp_PieceCID deal \<noteq> pi_PieceCID piece then fix
                   else if pi_Size piece \<noteq> dp_PieceSize deal then fix
                   else if th_Height ts \<ge> dp_StartEpoch deal then None
                   else toFix_loop env ts (i + 1) toFix padding ps)))"

definition recoveryPiecesToFix :: "sealing_env \<Rightarrow> nat \<Rightarrow> sectorInfo \<Rightarrow> (nat list \<times> nat) option" where
  "recoveryPiecesToFix env n si =
     (case ca_ChainHead (sv_api env) n of
        None \<Rightarrow> None
      | Some ts \<Rightarrow> toFix_loop env ts 0 [] 0 (si_Pieces si))"

text \<open>
  The loop of \<open>handleRecoverDealIDsOrFailWith\<close> over the pieces to fix: the number of failed
  lookups and the new identifiers. \<open>GoErr\<close>: a piece has no publish message, and the handler fails
  at once; \<open>GoPanic\<close>: a nil deal or an index out of range.
\<close>

fun recover_loop ::
    "sealing_env \<Rightarrow> bytes \<Rightarrow> sectorPiece list \<Rightarrow> nat \<Rightarrow> (int, nat) gomap \<Rightarrow> nat list \<Rightarrow> (nat \<times> (int, nat) gomap) go" where
  "recover_loop env tsk pieces failed updates [] = GoOk (failed, updates)"
| "recover_loop env tsk pieces failed updates (i # is) =
     (if i \<ge> length pieces then GoPanic
      else case sp_DealInfo (pieces ! i) of
        None \<Rightarrow> GoPanic
      | Some di \<Rightarrow>
          (case di_PublishCid di of
             None \<Rightarrow> GoErr
           | Some publishCid \<Rightarrow>
               (case GetCurrentDealInfo env tsk (di_DealProposal di) publishCid of
                  GoPanic \<Rightarrow> GoPanic
                | GoErr \<Rightarrow> recover_loop env tsk pieces (failed + 1) updates is
                | GoOk res \<Rightarrow>
                    (if dp_PieceCID (cd_MarketDeal res) \<noteq> pi_PieceCID (sp_Piece (pieces ! i))
                     then recover_loop env tsk pieces (failed + 1) updates is
                     else recover_loop env tsk pieces failed (gm_set (int i) (cd_DealID res) updates) is))))"

end
