(* ===== verification/Sealing_Input.thy ===== *)
theory Sealing_Input
  imports Sealing_Deals
begin

text \<open>
  The deal input of the sealing pipeline (storage/pipeline/input.go, with the parts of sealing.go
  and states_sealing.go it shares state with): pieces wait to be assigned to an open sector, an
  assigned piece is written by the handler of the \<open>AddPiece\<close> states, and a sector starts sealing
  when it is full or has waited long enough. The state is the one that \<^verbatim>\<open>inputLk\<close> guards.
\<close>

section \<open>State\<close>

text \<open>
  The answer to the caller that added a piece: sector, offset and whether it is an error.
  Answering closes a channel, so a second answer panics. Sectors are keyed by their number, the
  miner being fixed. A timer is running, or is done because it expired or was stopped.
\<close>

record pieceAcceptResp =
  ar_sn :: nat
  ar_offset :: "64 word"
  ar_err :: bool

record pendingPiece =
  pn_resp :: "pieceAcceptResp option"
  pn_size :: "64 word"
  pn_deal :: dealInfo
  pn_claimTermEnd :: int
  pn_data :: nat
  pn_assigned :: bool

record openSector =
  os_used :: "64 word"
  os_lastDealEnd :: int
  os_number :: nat
  os_ccUpdate :: bool

datatype timer = TimerRunning | TimerDone

text \<open>
  \<open>in_answers\<close> is the history of the answers given, and \<open>in_updates\<close> counts the goroutines
  started to run \<^verbatim>\<open>updateInput\<close>.
\<close>

record inputState =
  in_openSectors :: "(nat, openSector) gomap"
  in_sectorTimers :: "(nat, timer) gomap"
  in_pendingPieces :: "(cid, pendingPiece) gomap"
  in_assignedPieces :: "(nat, cid list) gomap"
  in_nextDealSector :: "nat option"
  in_available :: "(nat, unit) gomap"
  in_answers :: "(cid \<times> pieceAcceptResp) list"
  in_updates :: nat

text \<open>What a handler does: it returns having sent events, returns an error, panics, or is still
  waiting.\<close>

datatype outcome = Returns "event list" | Fails | Panics | Running

primrec sent :: "outcome \<Rightarrow> event list" where
  "sent (Returns es) = es"
| "sent Fails = []"
| "sent Panics = []"
| "sent Running = []"

text \<open>Calling \<^verbatim>\<open>accepted\<close> of the piece stored under \<open>c\<close>; \<open>None\<close> is the panic.\<close>

definition accepted :: "cid \<Rightarrow> nat \<Rightarrow> 64 word \<Rightarrow> bool \<Rightarrow> pendingPiece \<Rightarrow> inputState \<Rightarrow> (pendingPiece \<times> inputState) option" where
  "accepted c sn off err pp inp =
     (if pn_resp pp \<noteq> None then None
      else let r = \<lparr>ar_sn = sn, ar_offset = off, ar_err = err\<rparr>
           in Some (pp\<lparr>pn_resp := Some r\<rparr>, inp\<lparr>in_answers := in_answers inp @ [(c, r)]\<rparr>))"

text \<open>The same for a piece that stays in the map of pending pieces.\<close>

definition accept_pending :: "cid \<Rightarrow> nat \<Rightarrow> 64 word \<Rightarrow> bool \<Rightarrow> pendingPiece \<Rightarrow> inputState \<Rightarrow> inputState option" where
  "accept_pending c sn off err pp inp =
     (case accepted c sn off err pp inp of
        None \<Rightarrow> None
      | Some (pp', inp') \<Rightarrow> Some (inp'\<lparr>in_pendingPieces := gm_set c pp' (in_pendingPieces inp')\<rparr>))"

section \<open>Closing a sector for deals\<close>

fun cleanup_loop :: "nat \<Rightarrow> cid list \<Rightarrow> inputState \<Rightarrow> inputState option" where
  "cleanup_loop sn [] inp = Some inp"
| "cleanup_loop sn (c # cs) inp =
     (let inp' = inp\<lparr>in_pendingPieces := gm_delete c (in_pendingPieces inp)\<rparr>
      in case gm_get (in_pendingPieces inp) c of
           None \<Rightarrow> cleanup_loop sn cs inp'
         | Some pp \<Rightarrow>
             (case accepted c sn 0 True pp inp' of
                None \<Rightarrow> None
              | Some (_, inp'') \<Rightarrow> cleanup_loop sn cs inp''))"

definition assigned_to :: "inputState \<Rightarrow> nat \<Rightarrow> cid list" where
  "assigned_to inp sn = (case gm_get (in_assignedPieces inp) sn of None \<Rightarrow> [] | Some cs \<Rightarrow> cs)"

definition cleanupAssignedDeals :: "sectorInfo \<Rightarrow> inputState \<Rightarrow> inputState option" where
  "cleanupAssignedDeals si inp =
     (case cleanup_loop (si_SectorNumber si) (assigned_to inp (si_SectorNumber si)) inp of
        None \<Rightarrow> None
      | Some inp' \<Rightarrow>
          Some (inp'\<lparr>in_openSectors := gm_delete (si_SectorNumber si) (in_openSectors inp'),
                     in_assignedPieces := gm_delete (si_SectorNumber si) (in_assignedPieces inp')\<rparr>))"

section \<open>Waiting for deals\<close>

definition getDealPerSectorLimit :: "64 word \<Rightarrow> nat" where
  "getDealPerSectorLimit ssize = (if ssize < push_bit 30 64 then 256 else 512)"

text \<open>
  The epoch by which the sector has to be sealed, as the loop over the pieces leaves it. The error
  of the allocation lookup is ignored; a deal without a proposal is a nil dereference, \<open>None\<close>.
\<close>

fun safeSeal_loop :: "sealing_env \<Rightarrow> int \<Rightarrow> int \<Rightarrow> sectorPiece list \<Rightarrow> int option" where
  "safeSeal_loop env buffer epoch [] = Some epoch"
| "safeSeal_loop env buffer epoch (p # ps) =
     (case sp_DealInfo p of
        None \<Rightarrow> safeSeal_loop env buffer epoch ps
      | Some di \<Rightarrow>
          (case di_DealProposal di of
             None \<Rightarrow> None
           | Some proposal \<Rightarrow>
               (let epoch' = wrap64 (dp_StartEpoch proposal - buffer)
                in case ca_StateGetAllocationForPendingDeal (sv_api env) (di_DealID di) EmptyTSK of
                     Some (Some alloc) \<Rightarrow>
                       (if wrap64 (al_Expiration alloc - buffer) < epoch'
                        then safeSeal_loop env buffer (wrap64 (al_Expiration alloc - buffer)) ps
                        else safeSeal_loop env buffer epoch' ps)
                   | _ \<Rightarrow> safeSeal_loop env buffer epoch' ps)))"

text \<open>
  The last part of \<open>maybeStartSealing\<close>, for a sector that has a creation time: whether sealing
  starts now; otherwise a timer is set.
\<close>

definition startByTime :: "sealing_env \<Rightarrow> sectorInfo \<Rightarrow> inputState \<Rightarrow> bool go \<times> inputState" where
  "startByTime env si inp =
     (case sv_config env of
        None \<Rightarrow> (GoErr, inp)
      | Some cfg \<Rightarrow>
          (case ca_ChainHead (sv_api env) 0 of
             None \<Rightarrow> (GoErr, inp)
           | Some ts \<Rightarrow>
               (case safeSeal_loop env (cfg_StartEpochSealingBuffer cfg) 0 (si_Pieces si) of
                  None \<Rightarrow> (GoPanic, inp)
                | Some dealSafeSealEpoch \<Rightarrow>
                    (let waitTime = si_CreationTime si * 10 ^ 9 + cfg_WaitDealsDelay cfg;
                         dealSafeSealTime =
                           sv_now env + wrap64 ((dealSafeSealEpoch - th_Height ts) * (10 ^ 9 * sv_BlockDelaySecs env));
                         sealTime = (if dealSafeSealTime < waitTime then dealSafeSealTime else waitTime)
                     in if sv_now env > sealTime then (GoOk True, inp)
                        else (GoOk False, inp\<lparr>in_sectorTimers :=
                               gm_set (si_SectorNumber si) TimerRunning (in_sectorTimers inp)\<rparr>)))))"

text \<open>
  \<open>maybeStartSealing\<close>: whether \<open>SectorStartPacking\<close> was sent. A timer of the sector is
  stopped first; one that is done already means that its event is on the way.
\<close>

definition maybeStartSealing :: "sealing_env \<Rightarrow> sectorInfo \<Rightarrow> 64 word \<Rightarrow> inputState \<Rightarrow> bool go \<times> inputState" where
  "maybeStartSealing env si used inp =
     (if gm_get (in_sectorTimers inp) (si_SectorNumber si) = Some TimerDone then (GoOk True, inp)
      else
        (let inp1 = (case gm_get (in_sectorTimers inp) (si_SectorNumber si) of
                       None \<Rightarrow> inp
                     | Some _ \<Rightarrow> inp\<lparr>in_sectorTimers := gm_set (si_SectorNumber si) TimerDone (in_sectorTimers inp)\<rparr>)
         in case sv_SectorSize env (si_SectorType si) of
              None \<Rightarrow> (GoErr, inp1)
            | Some ssize \<Rightarrow>
                (if length (dealIDs si) \<ge> getDealPerSectorLimit ssize then (GoOk True, inp1)
                 else if sv_padded env used = ssize then (GoOk True, inp1)
                 else if si_CreationTime si \<noteq> 0 then startByTime env si inp1
                 else (GoOk False, inp1))))"

text \<open>The used bytes and the latest end of a deal; \<open>None\<close>: a deal without a proposal.\<close>

fun usage_loop :: "sealing_env \<Rightarrow> 64 word \<Rightarrow> int \<Rightarrow> sectorPiece list \<Rightarrow> (64 word \<times> int) option" where
  "usage_loop env used lastEnd [] = Some (used, lastEnd)"
| "usage_loop env used lastEnd (p # ps) =
     (let used' = used + sv_unpadded env (pi_Size (sp_Piece p))
      in case sp_DealInfo p of
           None \<Rightarrow> usage_loop env used' lastEnd ps
         | Some di \<Rightarrow>
             (case di_DealProposal di of
                None \<Rightarrow> None
              | Some proposal \<Rightarrow>
                  usage_loop env used' (if dp_EndEpoch proposal > lastEnd then dp_EndEpoch proposal else lastEnd) ps))"

definition openForDeals :: "sectorInfo \<Rightarrow> 64 word \<Rightarrow> int \<Rightarrow> inputState \<Rightarrow> inputState" where
  "openForDeals si used lastEnd inp =
     (let sn = si_SectorNumber si;
          sector = (case gm_get (in_openSectors inp) sn of
                      None \<Rightarrow> \<lparr>os_used = used, os_lastDealEnd = 0, os_number = sn, os_ccUpdate = si_CCUpdate si\<rparr>
                    | Some o1 \<Rightarrow> o1\<lparr>os_used := used\<rparr>)
      in inp\<lparr>in_openSectors := gm_set sn (sector\<lparr>os_lastDealEnd := lastEnd\<rparr>) (in_openSectors inp),
             in_updates := in_updates inp + 1\<rparr>)"

definition handleWaitDeals :: "sealing_env \<Rightarrow> sectorInfo \<Rightarrow> inputState \<Rightarrow> outcome \<times> inputState" where
  "handleWaitDeals env si inp =
     (case usage_loop env 0 0 (si_Pieces si) of
        None \<Rightarrow> (Panics, inp)
      | Some (used, lastEnd) \<Rightarrow>
          (let inp1 = (if in_nextDealSector inp = Some (si_SectorNumber si) then inp\<lparr>in_nextDealSector := None\<rparr> else inp)
           in if assigned_to inp1 (si_SectorNumber si) \<noteq> [] then (Returns [SectorAddPiece], inp1)
              else case maybeStartSealing env si used inp1 of
                (GoPanic, inp2) \<Rightarrow> (Panics, inp2)
              | (GoErr, inp2) \<Rightarrow>
                  (Fails, inp2\<lparr>in_openSectors := gm_delete (si_SectorNumber si) (in_openSectors inp2)\<rparr>)
              | (GoOk True, inp2) \<Rightarrow>
                  (Returns [SectorStartPacking],
                   inp2\<lparr>in_openSectors := gm_delete (si_SectorNumber si) (in_openSectors inp2)\<rparr>)
              | (GoOk False, inp2) \<Rightarrow> (Returns [], openForDeals si used lastEnd inp2)))"

section \<open>Writing the assigned pieces\<close>

text \<open>
  The progress of \<open>handleAddPiece\<close>: the offset in the sector, the sizes of the pieces written and
  the new pieces.
\<close>

record addProgress =
  ap_offset :: "64 word"
  ap_sizes :: "64 word list"
  ap_new :: "sectorPiece list"

text \<open>The padding pieces in front of a deal; \<open>None\<close> as soon as one cannot be written or has an
  unexpected commitment.\<close>

fun addPads :: "sealing_env \<Rightarrow> sectorInfo \<Rightarrow> 64 word list \<Rightarrow> addProgress \<Rightarrow> addProgress option" where
  "addPads env si [] pr = Some pr"
| "addPads env si (p # ps) pr =
     (let size = sv_unpadded env p
      in case sa_AddPiece (sv_sealer env) (si_SectorType si) (si_SectorNumber si) (ap_sizes pr) size (NullReader size) of
           None \<Rightarrow> None
         | Some ppi \<Rightarrow>
             (if pi_PieceCID ppi \<noteq> sv_ZeroPieceCommitment env size then None
              else addPads env si ps
                (pr\<lparr>ap_sizes := ap_sizes pr @ [size],
                    ap_new := ap_new pr @ [\<lparr>sp_Piece = ppi, sp_DealInfo = None\<rparr>]\<rparr>)))"

text \<open>One assigned piece: go on, stop with \<open>SectorAddPieceFailed\<close>, or panic.\<close>

datatype addStep = AddNext addProgress inputState | AddFailed inputState | AddPanic

definition addDeal :: "sealing_env \<Rightarrow> sectorInfo \<Rightarrow> cid \<Rightarrow> pendingPiece \<Rightarrow> addProgress \<Rightarrow> inputState \<Rightarrow> addStep" where
  "addDeal env si c deal pr inp =
     (let failed = (case accept_pending c (si_SectorNumber si) (ap_offset pr) True deal inp of
                      None \<Rightarrow> AddPanic
                    | Some inp' \<Rightarrow> AddFailed inp')
      in case sa_AddPiece (sv_sealer env) (si_SectorType si) (si_SectorNumber si) (ap_sizes pr) (pn_size deal)
                (DealData (pn_data deal)) of
           None \<Rightarrow> failed
         | Some ppi \<Rightarrow>
             (case di_DealProposal (pn_deal deal) of
                None \<Rightarrow> AddPanic
              | Some proposal \<Rightarrow>
                  (if pi_PieceCID ppi \<noteq> dp_PieceCID proposal then failed
                   else case accept_pending c (si_SectorNumber si) (ap_offset pr) False deal inp of
                     None \<Rightarrow> AddPanic
                   | Some inp' \<Rightarrow>
                       AddNext (pr\<lparr>ap_offset := ap_offset pr + pn_size deal,
                                   ap_sizes := ap_sizes pr @ [pn_size deal],
                                   ap_new := ap_new pr @ [\<lparr>sp_Piece = ppi, sp_DealInfo = Some (pn_deal deal)\<rparr>]\<rparr>) inp')))"

definition addAssigned ::
    "sealing_env \<Rightarrow> sectorInfo \<Rightarrow> 64 word \<Rightarrow> nat \<Rightarrow> cid \<Rightarrow> pendingPiece \<Rightarrow> addProgress \<Rightarrow> inputState \<Rightarrow> addStep" where
  "addAssigned env si ssize i c deal pr inp =
     (let dropped = (case accept_pending c (si_SectorNumber si) (ap_offset pr) True deal inp of
                       None \<Rightarrow> AddPanic
                     | Some inp' \<Rightarrow> AddNext pr inp')
      in if length (dealIDs si) + (i + 1) > getDealPerSectorLimit ssize then dropped
         else case GetRequiredPadding (sv_padded env (ap_offset pr)) (sv_padded env (pn_size deal)) of
           None \<Rightarrow> AddPanic
         | Some (pads, padLength) \<Rightarrow>
             (if sv_padded env (ap_offset pr) + padLength + sv_padded env (pn_size deal) > ssize then dropped
              else
                (let pr1 = pr\<lparr>ap_offset := ap_offset pr + sv_unpadded env padLength\<rparr>
                 in case addPads env si pads pr1 of
                      None \<Rightarrow>
                        (case accept_pending c (si_SectorNumber si) (ap_offset pr1) True deal inp of
                           None \<Rightarrow> AddPanic
                         | Some inp' \<Rightarrow> AddFailed inp')
                    | Some pr2 \<Rightarrow> addDeal env si c deal pr2 inp)))"

fun addPieces_loop ::
    "sealing_env \<Rightarrow> sectorInfo \<Rightarrow> 64 word \<Rightarrow> nat \<Rightarrow> cid list \<Rightarrow> addProgress \<Rightarrow> inputState \<Rightarrow> outcome \<times> inputState" where
  "addPieces_loop env si ssize i [] pr inp = (Returns [SectorPieceAdded (ap_new pr)], inp)"
| "addPieces_loop env si ssize i (c # cs) pr inp =
     (case gm_get (in_pendingPieces inp) c of
        None \<Rightarrow> (Fails, inp)
      | Some deal \<Rightarrow>
          (case addAssigned env si ssize i c deal pr inp of
             AddNext pr' inp' \<Rightarrow> addPieces_loop env si ssize (i + 1) cs pr' inp'
           | AddFailed inp' \<Rightarrow> (Returns [SectorAddPieceFailed], inp')
           | AddPanic \<Rightarrow> (Panics, inp)))"

definition handleAddPiece :: "sealing_env \<Rightarrow> sectorInfo \<Rightarrow> inputState \<Rightarrow> outcome \<times> inputState" where
  "handleAddPiece env si inp =
     (case sv_SectorSize env (si_SectorType si) of
        None \<Rightarrow> (Fails, inp)
      | Some ssize \<Rightarrow>
          (case gm_get (in_assignedPieces inp) (si_SectorNumber si) of
             None \<Rightarrow> (Returns [SectorPieceAdded []], inp)
           | Some pending \<Rightarrow>
               addPieces_loop env si ssize 0 pending
                 \<lparr>ap_offset = sum_list (existingPieceSizes (sv_unpadded env) si),
                  ap_sizes = existingPieceSizes (sv_unpadded env) si, ap_new = []\<rparr>
                 (inp\<lparr>in_assignedPieces := gm_delete (si_SectorNumber si) (in_assignedPieces inp)\<rparr>)))"

definition handleAddPieceFailed :: "sealing_env \<Rightarrow> sectorInfo \<Rightarrow> outcome" where
  "handleAddPieceFailed env si = Returns [SectorRetryWaitDeals]"

end
