(* ===== verification/Sealing_Handlers.thy ===== *)
theory Sealing_Handlers
  imports Sealing_Input
begin

text \<open>
  The handlers of the sealing states (storage/pipeline/states_sealing.go), one definition each: what
  the pipeline does when a sector enters a state, and the events it answers with. The handlers of
  the other groups of states are in \<^verbatim>\<open>Sealing_Recovery\<close>.
\<close>

section \<open>Packing\<close>

text \<open>\<open>padSector\<close>: zero pieces of the given sizes are written; \<open>None\<close> is an error.\<close>

fun padSector :: "sealing_env \<Rightarrow> sectorInfo \<Rightarrow> 64 word list \<Rightarrow> 64 word list \<Rightarrow> pieceInfo list option" where
  "padSector env si existing [] = Some []"
| "padSector env si existing (sz # sizes) =
     (case sa_AddPiece (sv_sealer env) (si_SectorType si) (si_SectorNumber si) existing sz (NullReader sz) of
        None \<Rightarrow> None
      | Some ppi \<Rightarrow>
          (if pi_PieceCID ppi \<noteq> sv_ZeroPieceCommitment env sz then None
           else map_option ((#) ppi) (padSector env si (existing @ [sz]) sizes)))"

definition fillSector :: "sealing_env \<Rightarrow> sectorInfo \<Rightarrow> outcome" where
  "fillSector env si =
     (let sizes = existingPieceSizes (sv_unpadded env) si;
          allocated = sum_list sizes
      in case sv_SectorSize env (si_SectorType si) of
           None \<Rightarrow> Fails
         | Some ssize \<Rightarrow>
             (let ubytes = sv_unpadded env ssize
              in if allocated > ubytes then Fails
                 else case padSector env si sizes (fillersFromRem env (ubytes - allocated)) of
                   None \<Rightarrow> Fails
                 | Some fillerPieces \<Rightarrow> Returns [SectorPacked fillerPieces]))"

definition handlePacking :: "sealing_env \<Rightarrow> sectorInfo \<Rightarrow> inputState \<Rightarrow> outcome \<times> inputState" where
  "handlePacking env si inp =
     (case cleanupAssignedDeals si inp of
        None \<Rightarrow> (Panics, inp)
      | Some inp' \<Rightarrow>
          (if si_State si = SnapDealsPacking \<and> \<not> hasDeals si then (Returns [SectorAbortUpgrade], inp')
           else (fillSector env si, inp')))"

section \<open>The ticket\<close>

text \<open>
  \<open>getTicket\<close>: value, epoch, whether the sector is allocated, and whether there is an error. An
  API error of the first two calls is not an error: the result is an empty ticket of epoch 0.
\<close>

record ticketRes =
  tk_Value :: bytes
  tk_Epoch :: int
  tk_allocated :: bool
  tk_err :: bool

definition ticketErr :: "bool \<Rightarrow> ticketRes" where
  "ticketErr allocated = \<lparr>tk_Value = [], tk_Epoch = 0, tk_allocated = allocated, tk_err = True\<rparr>"

text \<open>The ticket epoch of a precommitted sector, unless its precommit has expired.\<close>

definition committedTicketEpoch :: "sealing_env \<Rightarrow> sectorInfo \<Rightarrow> tipsetHead \<Rightarrow> preCommitOnChain \<Rightarrow> int option" where
  "committedTicketEpoch env si ts pci =
     (case ca_StateNetworkVersion (sv_api env) (th_Key ts) of
        None \<Rightarrow> None
      | Some nv \<Rightarrow>
          (case po_VersionForNetwork (sv_policy env) nv of
             None \<Rightarrow> None
           | Some av \<Rightarrow>
               (case GetMaxProveCommitDuration (sv_policy env) av (si_SectorType si) of
                  None \<Rightarrow> None
                | Some msd \<Rightarrow>
                    (if checkProveCommitExpired (pc_PreCommitEpoch pci) msd (th_Height ts) then None
                     else Some (pp_SealRandEpoch (pc_Info pci))))))"

definition getTicket :: "sealing_env \<Rightarrow> sectorInfo \<Rightarrow> ticketRes" where
  "getTicket env si =
     (let nothing = \<lparr>tk_Value = [], tk_Epoch = 0, tk_allocated = False, tk_err = False\<rparr>
      in case ca_ChainHead (sv_api env) 0 of
           None \<Rightarrow> nothing
         | Some ts \<Rightarrow>
             (case ca_StateMinerSectorAllocated (sv_api env) (si_SectorNumber si) EmptyTSK of
                None \<Rightarrow> nothing
              | Some allocated \<Rightarrow>
                  (case sv_maddrBuf env of
                     None \<Rightarrow> ticketErr allocated
                   | Some buf \<Rightarrow>
                       (case ca_StateSectorPreCommitInfo (sv_api env) (si_SectorNumber si) (th_Key ts) of
                          None \<Rightarrow> ticketErr allocated
                        | Some pci \<Rightarrow>
                            (if pci = None \<and> allocated then ticketErr allocated
                             else case (case pci of
                                          None \<Rightarrow> Some (wrap64 (th_Height ts - SealRandomnessLookback (sv_policy env)))
                                        | Some info \<Rightarrow> committedTicketEpoch env si ts info) of
                               None \<Rightarrow> ticketErr allocated
                             | Some ticketEpoch \<Rightarrow>
                                 (case ca_StateGetRandomnessFromTickets (sv_api env) ticketEpoch buf (th_Key ts) of
                                    None \<Rightarrow> ticketErr allocated
                                  | Some rand \<Rightarrow>
                                      \<lparr>tk_Value = rand, tk_Epoch = ticketEpoch, tk_allocated = allocated, tk_err = False\<rparr>))))))"

definition handleGetTicket :: "sealing_env \<Rightarrow> sectorInfo \<Rightarrow> outcome" where
  "handleGetTicket env si =
     (let t = getTicket env si
      in if tk_err t
         then (if tk_allocated t
               then (if si_CommitMessage si \<noteq> None then Returns [SectorCommitFailed] else Returns [SectorRemove])
               else Returns [SectorSealPreCommit1Failed])
         else Returns [SectorTicket (tk_Value t) (tk_Epoch t)])"

section \<open>Precommit\<close>

text \<open>
  \<open>retrySoftErr\<close>: the task is repeated as long as it fails with a temporary error of a worker
  and the context is not cancelled; \<open>i\<close> attempts were made. \<open>None\<close>: the fuel ran out.
\<close>

fun retrySoftErr :: "bool \<Rightarrow> (nat \<Rightarrow> workError + 'a) \<Rightarrow> nat \<Rightarrow> nat \<Rightarrow> 'a option option" where
  "retrySoftErr cancelled cb 0 i = None"
| "retrySoftErr cancelled cb (Suc fuel) i =
     (case cb i of
        Inr r \<Rightarrow> Some (Some r)
      | Inl err \<Rightarrow>
          (if err \<in> {ErrTempWorkerRestart, ErrTempAllocateSpace}
           then (if cancelled then Some None else retrySoftErr cancelled cb fuel (i + 1))
           else Some None))"

definition runPreCommit1 :: "sealing_env \<Rightarrow> sectorInfo \<Rightarrow> outcome" where
  "runPreCommit1 env si =
     (case retrySoftErr (sv_cancelled env)
             (\<lambda>i. sa_SealPreCommit1 (sv_sealer env) i (si_SectorType si) (si_SectorNumber si) (si_TicketValue si) (pieceInfos si))
             (sv_fuel env) 0 of
        None \<Rightarrow> Running
      | Some None \<Rightarrow> Returns [SectorSealPreCommit1Failed]
      | Some (Some pc1o) \<Rightarrow> Returns [SectorPreCommit1 pc1o])"

text \<open>With an expired ticket, the sector needs a new one unless it is precommitted and can still
  be proven; the API errors on the way stop the handler.\<close>

definition oldTicketPreCommit1 :: "sealing_env \<Rightarrow> sectorInfo \<Rightarrow> tipsetHead \<Rightarrow> outcome" where
  "oldTicketPreCommit1 env si ts =
     (case ca_StateSectorPreCommitInfo (sv_api env) (si_SectorNumber si) (th_Key ts) of
        None \<Rightarrow> Returns []
      | Some None \<Rightarrow> Returns [SectorOldTicket]
      | Some (Some pci) \<Rightarrow>
          (case ca_StateNetworkVersion (sv_api env) (th_Key ts) of
             None \<Rightarrow> Returns []
           | Some nv \<Rightarrow>
               (case po_VersionForNetwork (sv_policy env) nv of
                  None \<Rightarrow> Returns []
                | Some av \<Rightarrow>
                    (case GetMaxProveCommitDuration (sv_policy env) av (si_SectorType si) of
                       None \<Rightarrow> Returns []
                     | Some msd \<Rightarrow>
                         (if checkProveCommitExpired (pc_PreCommitEpoch pci) msd (th_Height ts)
                          then Returns [SectorOldTicket] else runPreCommit1 env si)))))"

definition handlePreCommit1 :: "sealing_env \<Rightarrow> sectorInfo \<Rightarrow> outcome" where
  "handlePreCommit1 env si =
     (case checkPieces env 0 (si_Pieces si) False of
        CheckPanic \<Rightarrow> Panics
      | CheckErr ErrApi \<Rightarrow> Returns []
      | CheckErr ErrInvalidDeals \<Rightarrow> Returns [SectorInvalidDealIDs (Some PreCommit1)]
      | CheckErr ErrExpiredDeals \<Rightarrow> Returns [SectorDealsExpired]
      | CheckErr _ \<Rightarrow> Fails
      | CheckOk \<Rightarrow>
          (case ca_ChainHead (sv_api env) 1 of
             None \<Rightarrow> Returns []
           | Some ts \<Rightarrow>
               (if checkTicketExpired (sv_policy env) (si_TicketEpoch si) (th_Height ts)
                then oldTicketPreCommit1 env si ts else runPreCommit1 env si)))"

definition handlePreCommit2 :: "sealing_env \<Rightarrow> sectorInfo \<Rightarrow> outcome" where
  "handlePreCommit2 env si =
     (case retrySoftErr (sv_cancelled env)
             (\<lambda>i. sa_SealPreCommit2 (sv_sealer env) i (si_SectorType si) (si_SectorNumber si) (si_PreCommit1Out si))
             (sv_fuel env) 0 of
        None \<Rightarrow> Running
      | Some None \<Rightarrow> Returns [SectorSealPreCommit2Failed]
      | Some (Some (unsealed, sealed)) \<Rightarrow>
          (if unsealed = cidUndef then Returns [SectorSealPreCommit1Failed]
           else Returns [SectorPreCommit2 sealed unsealed]))"

text \<open>
  \<open>preCommitInfo\<close>: the parameters and the deposit, an event that was sent instead, nothing, or
  an error.
\<close>

datatype preCommitRes = PCParams sectorPreCommitInfo tokenAmount | PCSent event | PCNothing | PCErr | PCPanic

text \<open>The expiration, moved into the window that the chain accepts, in the arithmetic of \<^verbatim>\<open>int64\<close>.\<close>

definition clampExpiration :: "sealing_env \<Rightarrow> sectorInfo \<Rightarrow> int \<Rightarrow> int \<Rightarrow> int \<Rightarrow> int \<Rightarrow> int" where
  "clampExpiration env si height msd maxExtension expiration =
     (let minExpiration = wrap64 (si_TicketEpoch si + MaxPreCommitRandomnessLookback (sv_policy env) + msd
                                    + po_MinSectorExpiration_miner (sv_policy env));
          expiration1 = (if expiration < minExpiration then minExpiration else expiration);
          maxExpiration = wrap64 (height + po_PreCommitChallengeDelay (sv_policy env) + maxExtension)
      in if expiration1 > maxExpiration then maxExpiration else expiration1)"

definition preCommitParams :: "sealing_env \<Rightarrow> sectorInfo \<Rightarrow> tipsetHead \<Rightarrow> preCommitRes" where
  "preCommitParams env si ts =
     (let failed = PCSent SectorSealPreCommit1Failed
      in case Expiration env 2 (si_Pieces si) of
           None \<Rightarrow> failed
         | Some expiration \<Rightarrow>
             (case ca_StateNetworkVersion (sv_api env) (th_Key ts) of
                None \<Rightarrow> failed
              | Some nv \<Rightarrow>
                  (case po_VersionForNetwork (sv_policy env) nv of
                     None \<Rightarrow> failed
                   | Some av \<Rightarrow>
                       (case GetMaxProveCommitDuration (sv_policy env) av (si_SectorType si) of
                          None \<Rightarrow> failed
                        | Some msd \<Rightarrow>
                            (case GetMaxSectorExpirationExtension (sv_policy env) nv of
                               None \<Rightarrow> failed
                             | Some maxExtension \<Rightarrow>
                                 (case si_CommR si of
                                    None \<Rightarrow> PCPanic
                                  | Some commR \<Rightarrow>
                                      (let params = \<lparr>pp_Expiration = clampExpiration env si (th_Height ts) msd maxExtension expiration,
                                                     pp_SectorNumber = si_SectorNumber si, pp_SealProof = si_SectorType si,
                                                     pp_SealedCID = commR, pp_SealRandEpoch = si_TicketEpoch si,
                                                     pp_DealIDs = dealIDs si,
                                                     pp_UnsealedCid = (if hasDeals si then si_CommD si else None)\<rparr>
                                       in case ca_StateMinerPreCommitDepositForPower (sv_api env) params (th_Key ts) of
                                            None \<Rightarrow> PCErr
                                          | Some collateral \<Rightarrow> PCParams params collateral)))))))"

definition preCommitInfo :: "sealing_env \<Rightarrow> sectorInfo \<Rightarrow> preCommitRes" where
  "preCommitInfo env si =
     (case ca_ChainHead (sv_api env) 0 of
        None \<Rightarrow> PCNothing
      | Some ts \<Rightarrow>
          (case checkPrecommit env 1 si (th_Key ts) (th_Height ts) of
             CheckPanic \<Rightarrow> PCPanic
           | CheckErr e \<Rightarrow>
               (case e of
                  ErrApi \<Rightarrow> PCNothing
                | ErrBadCommD \<Rightarrow> PCSent SectorSealPreCommit1Failed
                | ErrExpiredTicket \<Rightarrow> PCSent SectorSealPreCommit1Failed
                | ErrBadTicket \<Rightarrow> PCSent SectorSealPreCommit1Failed
                | ErrInvalidDeals \<Rightarrow> PCSent (SectorInvalidDealIDs (Some PreCommitting))
                | ErrExpiredDeals \<Rightarrow> PCSent SectorDealsExpired
                | ErrPrecommitOnChain \<Rightarrow> PCSent (SectorPreCommitLanded (th_Key ts))
                | ErrSectorNumberAllocated \<Rightarrow> PCNothing
                | _ \<Rightarrow> PCErr)
           | CheckOk \<Rightarrow> preCommitParams env si ts))"

definition handlePreCommitting :: "sealing_env \<Rightarrow> sectorInfo \<Rightarrow> outcome" where
  "handlePreCommitting env si = Returns [SectorPreCommitBatch]"

definition handleSubmitPreCommitBatch :: "sealing_env \<Rightarrow> sectorInfo \<Rightarrow> outcome" where
  "handleSubmitPreCommitBatch env si =
     (if si_CommD si = None \<or> si_CommR si = None then Returns [SectorSealPreCommit1Failed]
      else case preCommitInfo env si of
        PCPanic \<Rightarrow> Panics
      | PCErr \<Rightarrow> Returns [SectorChainPreCommitFailed]
      | PCNothing \<Rightarrow> Returns []
      | PCSent e \<Rightarrow> Returns [e]
      | PCParams params deposit \<Rightarrow>
          (case sv_AddPreCommit env si deposit params of
             None \<Rightarrow> Returns [SectorChainPreCommitFailed]
           | Some res \<Rightarrow>
               (if pb_Error res \<noteq> '''' then Returns [SectorChainPreCommitFailed]
                else case pb_Msg res of
                  None \<Rightarrow> Returns [SectorChainPreCommitFailed]
                | Some msg \<Rightarrow> Returns [SectorPreCommitBatchSent msg])))"

definition handlePreCommitWait :: "sealing_env \<Rightarrow> sectorInfo \<Rightarrow> outcome" where
  "handlePreCommitWait env si =
     (case si_PreCommitMessage si of
        None \<Rightarrow> Returns [SectorChainPreCommitFailed]
      | Some msg \<Rightarrow>
          (case ca_StateWaitMsg (sv_api env) 0 msg of
             None \<Rightarrow> Returns [SectorChainPreCommitFailed]
           | Some mw \<Rightarrow>
               (case ml_ExitCode mw of
                  ExitOk \<Rightarrow> Returns [SectorPreCommitLanded (ml_TipSet mw)]
                | SysErrInsufficientFunds \<Rightarrow> Returns [SectorRetryPreCommit]
                | SysErrOutOfGas \<Rightarrow> Returns [SectorRetryPreCommit]
                | ExitOther _ \<Rightarrow> Returns [SectorChainPreCommitFailed])))"

section \<open>The seed\<close>

text \<open>The callback that runs once the chain has reached the seed's height.\<close>

definition seedCallback :: "sealing_env \<Rightarrow> int \<Rightarrow> event list" where
  "seedCallback env randHeight =
     (case ca_ChainHead (sv_api env) 1 of
        None \<Rightarrow> []
      | Some ts \<Rightarrow>
          (case sv_maddrBuf env of
             None \<Rightarrow> []
           | Some buf \<Rightarrow>
               (case ca_StateGetRandomnessFromBeacon (sv_api env) randHeight buf (th_Key ts) of
                  None \<Rightarrow> [SectorChainPreCommitFailed]
                | Some rand \<Rightarrow> [SectorSeedReady rand randHeight])))"

definition handleWaitSeed :: "sealing_env \<Rightarrow> sectorInfo \<Rightarrow> outcome" where
  "handleWaitSeed env si =
     (case ca_ChainHead (sv_api env) 0 of
        None \<Rightarrow> Returns []
      | Some ts \<Rightarrow>
          (case ca_StateSectorPreCommitInfo (sv_api env) (si_SectorNumber si) (th_Key ts) of
             None \<Rightarrow> Fails
           | Some None \<Rightarrow> Returns [SectorChainPreCommitFailed]
           | Some (Some pci) \<Rightarrow>
               (let randHeight = pc_PreCommitEpoch pci + po_PreCommitChallengeDelay (sv_policy env)
                in case sv_ChainAt env 0 randHeight of
                     AtError \<Rightarrow> Returns []
                   | AtPending \<Rightarrow> Returns []
                   | AtReached \<Rightarrow> Returns (seedCallback env randHeight))))"

section \<open>Commit\<close>

text \<open>The two phases of the seal proof, each computed locally or by a remote prover: a result, or how
  the handler ends.\<close>

definition commit1 :: "sealing_env \<Rightarrow> sectorInfo \<Rightarrow> cid \<Rightarrow> cid \<Rightarrow> outcome + bytes" where
  "commit1 env si commD commR =
     (if si_RemoteCommit1Endpoint si = ''''
      then (case sa_SealCommit1 (sv_sealer env) (si_SectorType si) (si_SectorNumber si) (si_TicketValue si)
                   (si_SeedValue si) (pieceInfos si) commD commR of
              None \<Rightarrow> Inl (Returns [SectorComputeProofFailed])
            | Some c2in \<Rightarrow> Inr c2in)
      else (case sv_remoteCommit1 env si of
              RemoteMarshalError \<Rightarrow> Inl Fails
            | RemoteError \<Rightarrow> Inl (Returns [SectorRemoteCommit1Failed])
            | RemoteBody c2in \<Rightarrow> Inr c2in))"

definition commit2 :: "sealing_env \<Rightarrow> sectorInfo \<Rightarrow> bytes \<Rightarrow> outcome + bytes" where
  "commit2 env si c2in =
     (if si_RemoteCommit2Endpoint si = ''''
      then (case sa_SealCommit2 (sv_sealer env) (si_SectorType si) (si_SectorNumber si) c2in of
              None \<Rightarrow> Inl (Returns [SectorComputeProofFailed])
            | Some proof \<Rightarrow> Inr proof)
      else (case sv_remoteCommit2 env si c2in of
              RemoteMarshalError \<Rightarrow> Inl Fails
            | RemoteError \<Rightarrow> Inl (Returns [SectorRemoteCommit2Failed])
            | RemoteBody proof \<Rightarrow> Inr proof))"

text \<open>The check of a fresh proof and the event it is sent with.\<close>

definition proofReady :: "sealing_env \<Rightarrow> sealing_config \<Rightarrow> sectorInfo \<Rightarrow> bytes \<Rightarrow> outcome" where
  "proofReady env cfg si porepProof =
     (case ca_ChainHead (sv_api env) 0 of
        None \<Rightarrow> Returns []
      | Some ts \<Rightarrow>
          (case checkCommit env 1 si porepProof (th_Key ts) of
             CheckPanic \<Rightarrow> Panics
           | CheckErr _ \<Rightarrow> Returns [SectorCommitFailed]
           | CheckOk \<Rightarrow>
               (if cfg_FinalizeEarly cfg then Returns [SectorProofReady porepProof]
                else Returns [SectorCommitted porepProof])))"

definition computeCommit :: "sealing_env \<Rightarrow> sectorInfo \<Rightarrow> outcome" where
  "computeCommit env si =
     (case sv_config env of
        None \<Rightarrow> Fails
      | Some cfg \<Rightarrow>
          (case (si_CommD si, si_CommR si) of
             (Some commD, Some commR) \<Rightarrow>
               (case commit1 env si commD commR of
                  Inl r \<Rightarrow> r
                | Inr c2in \<Rightarrow>
                    (case commit2 env si c2in of
                       Inl r \<Rightarrow> r
                     | Inr porepProof \<Rightarrow> proofReady env cfg si porepProof))
           | _ \<Rightarrow> Returns [SectorCommitFailed]))"

text \<open>A sector that has a commit message already goes on waiting for it, if it is on chain.\<close>

definition handleCommitting :: "sealing_env \<Rightarrow> sectorInfo \<Rightarrow> outcome" where
  "handleCommitting env si =
     (case si_CommitMessage si of
        None \<Rightarrow> computeCommit env si
      | Some msg \<Rightarrow>
          (case ca_StateSearchMsg (sv_api env) EmptyTSK msg of
             Some (Some ml) \<Rightarrow> Returns [SectorRetryCommitWait]
           | _ \<Rightarrow> computeCommit env si))"

text \<open>The funds for a message: the collateral left to pay, the sender and the push.\<close>

definition payAndSend :: "sealing_env \<Rightarrow> sealing_config \<Rightarrow> minerInfo \<Rightarrow> tokenAmount \<Rightarrow> bytes \<Rightarrow> (cid option) option" where
  "payAndSend env cfg mi collateral0 enc =
     (let collateral1 = (if collateral0 < 0 then 0 else collateral0)
      in case collateralSendAmount env cfg collateral1 of
           None \<Rightarrow> None
         | Some collateral \<Rightarrow>
             (case sv_AddressFor env mi (collateral + sv_MaxCommitGasFee env) collateral of
                None \<Rightarrow> Some None
              | Some frm \<Rightarrow> Some (sendMsg env frm collateral (sv_MaxCommitGasFee env) enc)))"

definition submitCommitMessage :: "sealing_env \<Rightarrow> sealing_config \<Rightarrow> sectorInfo \<Rightarrow> tipsetHead \<Rightarrow> outcome" where
  "submitCommitMessage env cfg si ts =
     (case sv_commitParams env (si_SectorNumber si) (si_Proof si) of
        None \<Rightarrow> Returns [SectorCommitFailed]
      | Some enc \<Rightarrow>
          (case ca_StateMinerInfo (sv_api env) (th_Key ts) of
             None \<Rightarrow> Returns []
           | Some mi \<Rightarrow>
               (case ca_StateSectorPreCommitInfo (sv_api env) (si_SectorNumber si) (th_Key ts) of
                  None \<Rightarrow> Fails
                | Some None \<Rightarrow> Returns [SectorCommitFailed]
                | Some (Some pci) \<Rightarrow>
                    (case ca_StateMinerInitialPledgeCollateral (sv_api env) (pc_Info pci) (th_Key ts) of
                       None \<Rightarrow> Fails
                     | Some pledge \<Rightarrow>
                         (case payAndSend env cfg mi (pledge - pc_PreCommitDeposit pci) enc of
                            None \<Rightarrow> Fails
                          | Some None \<Rightarrow> Returns [SectorCommitFailed]
                          | Some (Some mcid) \<Rightarrow> Returns [SectorCommitSubmitted mcid])))))"

definition submitCommitSingle :: "sealing_env \<Rightarrow> sealing_config \<Rightarrow> sectorInfo \<Rightarrow> outcome" where
  "submitCommitSingle env cfg si =
     (case ca_ChainHead (sv_api env) 0 of
        None \<Rightarrow> Returns []
      | Some ts \<Rightarrow>
          (case checkCommit env 1 si (si_Proof si) (th_Key ts) of
             CheckPanic \<Rightarrow> Panics
           | CheckErr _ \<Rightarrow> Returns [SectorCommitFailed]
           | CheckOk \<Rightarrow> submitCommitMessage env cfg si ts))"

definition handleSubmitCommit :: "sealing_env \<Rightarrow> sectorInfo \<Rightarrow> outcome" where
  "handleSubmitCommit env si =
     (case sv_config env of
        None \<Rightarrow> Fails
      | Some cfg \<Rightarrow>
          (if cfg_AggregateCommits cfg
           then (case ca_StateNetworkVersion (sv_api env) EmptyTSK of
                   None \<Rightarrow> Fails
                 | Some nv \<Rightarrow>
                     (if nv \<ge> 13 then Returns [SectorSubmitCommitAggregate] else submitCommitSingle env cfg si))
           else submitCommitSingle env cfg si))"

definition aggregateInputOf :: "sectorInfo \<Rightarrow> cid \<Rightarrow> cid \<Rightarrow> aggregateInput" where
  "aggregateInputOf si commD commR =
     \<lparr>ai_Number = si_SectorNumber si, ai_Randomness = si_TicketValue si,
      ai_InteractiveRandomness = si_SeedValue si, ai_SealedCID = commR, ai_UnsealedCID = commD,
      ai_Proof = si_Proof si, ai_Spt = si_SectorType si\<rparr>"

text \<open>After an error of the batch the sector is checked again and goes back to submitting.\<close>

definition retryAfterBatch :: "sealing_env \<Rightarrow> sectorInfo \<Rightarrow> outcome" where
  "retryAfterBatch env si =
     (case ca_ChainHead (sv_api env) 0 of
        None \<Rightarrow> Returns []
      | Some ts \<Rightarrow>
          (case checkCommit env 1 si (si_Proof si) (th_Key ts) of
             CheckPanic \<Rightarrow> Panics
           | CheckErr _ \<Rightarrow> Returns [SectorCommitFailed]
           | CheckOk \<Rightarrow> Returns [SectorRetrySubmitCommit]))"

definition handleSubmitCommitAggregate :: "sealing_env \<Rightarrow> sectorInfo \<Rightarrow> outcome" where
  "handleSubmitCommitAggregate env si =
     (case (si_CommD si, si_CommR si) of
        (Some commD, Some commR) \<Rightarrow>
          (case sv_AddCommit env si (aggregateInputOf si commD commR) of
             None \<Rightarrow> retryAfterBatch env si
           | Some res \<Rightarrow>
               (if cb_Error res \<noteq> '''' then retryAfterBatch env si
                else if gm_get (cb_FailedSectors res) (si_SectorNumber si) \<noteq> None then Returns [SectorCommitFailed]
                else case cb_Msg res of
                  None \<Rightarrow> Returns [SectorCommitFailed]
                | Some msg \<Rightarrow> Returns [SectorCommitAggregateSent msg]))
      | _ \<Rightarrow> Returns [SectorCommitFailed])"

definition handleCommitWait :: "sealing_env \<Rightarrow> sectorInfo \<Rightarrow> outcome" where
  "handleCommitWait env si =
     (case si_CommitMessage si of
        None \<Rightarrow> Returns [SectorCommitFailed]
      | Some msg \<Rightarrow>
          (case ca_StateWaitMsg (sv_api env) 0 msg of
             None \<Rightarrow> Returns [SectorCommitFailed]
           | Some mw \<Rightarrow>
               (case ml_ExitCode mw of
                  SysErrInsufficientFunds \<Rightarrow> Returns [SectorRetrySubmitCommit]
                | SysErrOutOfGas \<Rightarrow> Returns [SectorRetrySubmitCommit]
                | ExitOther _ \<Rightarrow> Returns [SectorCommitFailed]
                | ExitOk \<Rightarrow>
                    (case ca_StateSectorGetInfo (sv_api env) (si_SectorNumber si) (ml_TipSet mw) of
                       None \<Rightarrow> Returns [SectorCommitFailed]
                     | Some None \<Rightarrow> Returns [SectorCommitFailed]
                     | Some (Some _) \<Rightarrow> Returns [SectorProving]))))"

definition handleFinalizeSector :: "sealing_env \<Rightarrow> sectorInfo \<Rightarrow> outcome" where
  "handleFinalizeSector env si =
     (case sv_config env of
        None \<Rightarrow> Fails
      | Some cfg \<Rightarrow>
          (if \<not> sa_ReleaseUnsealed (sv_sealer env) (si_SectorType si) (si_SectorNumber si)
                  (keepUnsealedRanges (sv_unpadded env) (si_Pieces si) False (cfg_AlwaysKeepUnsealedCopy cfg))
           then Returns [SectorFinalizeFailed]
           else if \<not> sa_FinalizeSector (sv_sealer env) (si_SectorType si) (si_SectorNumber si)
           then Returns [SectorFinalizeFailed]
           else if cfg_MakeCCSectorsAvailable cfg \<and> \<not> hasDeals si then Returns [SectorFinalizedAvailable]
           else Returns [SectorFinalized]))"

end
