(* ===== verification/Sealing_Recovery.thy ===== *)
theory Sealing_Recovery
  imports Sealing_Handlers
begin

text \<open>
  The remaining handlers: the failed states (storage/pipeline/states_failed.go), the replica update
  of a committed capacity sector (states_replica_update.go), proving, termination and removal
  (states_proving.go), and \<open>runHandler\<close>, which runs the handler that planning selected by name.
\<close>

section \<open>Cooling down\<close>

text \<open>
  \<open>failedCooldown\<close> waits until a minute after the last log entry; it fails when the context is
  cancelled meanwhile. The last entry is read before the length of the log is looked at.
\<close>

datatype cooldown = CoolOk | CoolErr | CoolPanic

definition MinRetryTime :: int where "MinRetryTime = 60 * 10 ^ 9"

definition failedCooldown :: "sealing_env \<Rightarrow> sectorInfo \<Rightarrow> cooldown" where
  "failedCooldown env si =
     (if si_Log si = [] then CoolPanic
      else (let retryStart = le_Timestamp (last (si_Log si)) * 10 ^ 9 + MinRetryTime
            in if \<not> sv_now env > retryStart \<and> sv_cancelled env then CoolErr else CoolOk))"

definition afterCooldown :: "sealing_env \<Rightarrow> sectorInfo \<Rightarrow> event \<Rightarrow> outcome" where
  "afterCooldown env si e =
     (case failedCooldown env si of CoolPanic \<Rightarrow> Panics | CoolErr \<Rightarrow> Fails | CoolOk \<Rightarrow> Returns [e])"

section \<open>Failed sealing states\<close>

text \<open>The precommit on chain and whether it could be looked up.\<close>

definition checkPreCommitted :: "sealing_env \<Rightarrow> nat \<Rightarrow> sectorInfo \<Rightarrow> preCommitOnChain option \<times> bool" where
  "checkPreCommitted env n si =
     (case ca_ChainHead (sv_api env) n of
        None \<Rightarrow> (None, False)
      | Some ts \<Rightarrow>
          (case ca_StateSectorPreCommitInfo (sv_api env) (si_SectorNumber si) (th_Key ts) of
             None \<Rightarrow> (None, False)
           | Some info \<Rightarrow> (info, True)))"

definition MaxPreCommit1Retries :: "64 word" where "MaxPreCommit1Retries = 3"

definition handleSealPrecommit1Failed :: "sealing_env \<Rightarrow> sectorInfo \<Rightarrow> outcome" where
  "handleSealPrecommit1Failed env si =
     (if si_PreCommit1Fails si > MaxPreCommit1Retries then Returns [SectorRemove]
      else afterCooldown env si SectorRetrySealPreCommit1)"

definition handleSealPrecommit2Failed :: "sealing_env \<Rightarrow> sectorInfo \<Rightarrow> outcome" where
  "handleSealPrecommit2Failed env si =
     afterCooldown env si (if si_PreCommit2Fails si > 3 then SectorRetrySealPreCommit1 else SectorRetrySealPreCommit2)"

text \<open>The end of \<open>handlePreCommitFailed\<close>, once the sector was found in order or already precommitted.\<close>

definition retryPreCommit :: "sealing_env \<Rightarrow> sectorInfo \<Rightarrow> tipsetHead \<Rightarrow> outcome" where
  "retryPreCommit env si ts =
     (case checkPreCommitted env 2 si of
        (Some pci, True) \<Rightarrow>
          (if si_PreCommitMessage si = None then Returns [SectorPreCommitLanded (th_Key ts)]
           else case si_CommR si of
             None \<Rightarrow> Panics
           | Some commR \<Rightarrow>
               (if pp_SealedCID (pc_Info pci) \<noteq> commR then Returns []
                else afterCooldown env si SectorRetryWaitSeed))
      | _ \<Rightarrow> afterCooldown env si SectorRetryPreCommit)"

definition recheckPreCommit :: "sealing_env \<Rightarrow> sectorInfo \<Rightarrow> tipsetHead \<Rightarrow> outcome" where
  "recheckPreCommit env si ts =
     (case checkPrecommit env 1 si (th_Key ts) (th_Height ts) of
        CheckPanic \<Rightarrow> Panics
      | CheckOk \<Rightarrow> retryPreCommit env si ts
      | CheckErr e \<Rightarrow>
          (case e of
             ErrApi \<Rightarrow> Returns []
           | ErrBadCommD \<Rightarrow> Returns [SectorSealPreCommit1Failed]
           | ErrExpiredTicket \<Rightarrow> Returns [SectorSealPreCommit1Failed]
           | ErrBadTicket \<Rightarrow> Returns [SectorSealPreCommit1Failed]
           | ErrInvalidDeals \<Rightarrow> Returns [SectorInvalidDealIDs (Some PreCommitFailed)]
           | ErrExpiredDeals \<Rightarrow> Returns [SectorDealsExpired]
           | ErrNoPrecommit \<Rightarrow> Returns [SectorRetryPreCommit]
           | ErrPrecommitOnChain \<Rightarrow> retryPreCommit env si ts
           | ErrSectorNumberAllocated \<Rightarrow> Returns []
           | _ \<Rightarrow> Fails))"

definition handlePreCommitFailed :: "sealing_env \<Rightarrow> sectorInfo \<Rightarrow> outcome" where
  "handlePreCommitFailed env si =
     (case ca_ChainHead (sv_api env) 0 of
        None \<Rightarrow> Returns []
      | Some ts \<Rightarrow>
          (case si_PreCommitMessage si of
             None \<Rightarrow> recheckPreCommit env si ts
           | Some msg \<Rightarrow>
               (case ca_StateSearchMsg (sv_api env) (th_Key ts) msg of
                  None \<Rightarrow> afterCooldown env si SectorRetryPreCommitWait
                | Some None \<Rightarrow> Returns [SectorRetryPreCommitWait]
                | Some (Some mw) \<Rightarrow>
                    (case ml_ExitCode mw of
                       ExitOk \<Rightarrow> Returns [SectorRetryPreCommitWait]
                     | SysErrOutOfGas \<Rightarrow> Returns [SectorRetryPreCommit]
                     | _ \<Rightarrow> recheckPreCommit env si ts))))"

definition handleComputeProofFailed :: "sealing_env \<Rightarrow> sectorInfo \<Rightarrow> outcome" where
  "handleComputeProofFailed env si =
     afterCooldown env si (if si_InvalidProofs si > 1 then SectorSealPreCommit1Failed else SectorRetryComputeProof)"

definition handleRemoteCommitFailed :: "sealing_env \<Rightarrow> sectorInfo \<Rightarrow> outcome" where
  "handleRemoteCommitFailed env si = afterCooldown env si SectorRetryComputeProof"

definition recheckCommit :: "sealing_env \<Rightarrow> sectorInfo \<Rightarrow> tipsetHead \<Rightarrow> outcome" where
  "recheckCommit env si ts =
     (case checkCommit env 1 si (si_Proof si) (th_Key ts) of
        CheckPanic \<Rightarrow> Panics
      | CheckOk \<Rightarrow> afterCooldown env si SectorRetryComputeProof
      | CheckErr e \<Rightarrow>
          (case e of
             ErrApi \<Rightarrow> Returns []
           | ErrBadSeed \<Rightarrow> Returns [SectorRetryWaitSeed]
           | ErrInvalidProof \<Rightarrow>
               afterCooldown env si (if si_InvalidProofs si > 0 then SectorSealPreCommit1Failed else SectorRetryInvalidProof)
           | ErrPrecommitOnChain \<Rightarrow> Returns [SectorRetryPreCommitWait]
           | ErrNoPrecommit \<Rightarrow> Returns [SectorRetryPreCommit]
           | ErrInvalidDeals \<Rightarrow> Returns [SectorInvalidDealIDs (Some CommitFailed)]
           | ErrExpiredDeals \<Rightarrow> Returns [SectorDealsExpired]
           | ErrCommitWaitFailed \<Rightarrow> afterCooldown env si SectorRetryCommitWait
           | _ \<Rightarrow> Fails))"

definition handleCommitFailed :: "sealing_env \<Rightarrow> sectorInfo \<Rightarrow> outcome" where
  "handleCommitFailed env si =
     (case ca_ChainHead (sv_api env) 0 of
        None \<Rightarrow> Returns []
      | Some ts \<Rightarrow>
          (case si_CommitMessage si of
             None \<Rightarrow> recheckCommit env si ts
           | Some msg \<Rightarrow>
               (case ca_StateSearchMsg (sv_api env) (th_Key ts) msg of
                  None \<Rightarrow> afterCooldown env si SectorRetryCommitWait
                | Some None \<Rightarrow> Returns [SectorRetryCommitWait]
                | Some (Some mw) \<Rightarrow>
                    (case ml_ExitCode mw of
                       ExitOk \<Rightarrow>
                         (case ca_StateSectorGetInfo (sv_api env) (si_SectorNumber si) (ml_TipSet mw) of
                            None \<Rightarrow> afterCooldown env si SectorRetryCommitWait
                          | Some (Some _) \<Rightarrow> Returns [SectorRetryCommitWait]
                          | Some None \<Rightarrow> recheckCommit env si ts)
                     | SysErrOutOfGas \<Rightarrow> Returns [SectorRetrySubmitCommit]
                     | _ \<Rightarrow> recheckCommit env si ts))))"

definition handleFinalizeFailed :: "sealing_env \<Rightarrow> sectorInfo \<Rightarrow> outcome" where
  "handleFinalizeFailed env si = afterCooldown env si SectorRetryFinalize"

definition handleRemoveFailed :: "sealing_env \<Rightarrow> sectorInfo \<Rightarrow> outcome" where
  "handleRemoveFailed env si = afterCooldown env si SectorRemove"

definition handleTerminateFailed :: "sealing_env \<Rightarrow> sectorInfo \<Rightarrow> outcome" where
  "handleTerminateFailed env si =
     (case ca_StateSectorPreCommitInfo (sv_api env) (si_SectorNumber si) EmptyTSK of
        Some (Some _) \<Rightarrow> Returns []
      | _ \<Rightarrow> afterCooldown env si SectorTerminate)"

definition handleDealsExpired :: "sealing_env \<Rightarrow> sectorInfo \<Rightarrow> outcome" where
  "handleDealsExpired env si =
     (case ca_StateSectorGetInfo (sv_api env) (si_SectorNumber si) EmptyTSK of
        None \<Rightarrow> Fails
      | Some (Some _) \<Rightarrow> Fails
      | Some None \<Rightarrow> Returns [SectorRemove])"

section \<open>Deal identifiers\<close>

definition handleRecoverDealIDsOrFailWith :: "sealing_env \<Rightarrow> sectorInfo \<Rightarrow> event \<Rightarrow> outcome" where
  "handleRecoverDealIDsOrFailWith env si failWith =
     (case recoveryPiecesToFix env 0 si of
        None \<Rightarrow> Fails
      | Some (toFix, paddingPieces) \<Rightarrow>
          (case ca_ChainHead (sv_api env) 1 of
             None \<Rightarrow> Fails
           | Some ts \<Rightarrow>
               (case recover_loop env (th_Key ts) (si_Pieces si) 0 [] toFix of
                  GoPanic \<Rightarrow> Panics
                | GoErr \<Rightarrow> Returns [failWith]
                | GoOk (failed, updates) \<Rightarrow>
                    (if failed > 0 then Returns [failWith] else Returns [SectorUpdateDealIDs updates]))))"

definition HandleRecoverDealIDs :: "sealing_env \<Rightarrow> sectorInfo \<Rightarrow> outcome" where
  "HandleRecoverDealIDs env si = handleRecoverDealIDsOrFailWith env si SectorRemove"

definition handleSnapDealsRecoverDealIDs :: "sealing_env \<Rightarrow> sectorInfo \<Rightarrow> outcome" where
  "handleSnapDealsRecoverDealIDs env si = handleRecoverDealIDsOrFailWith env si SectorAbortUpgrade"

section \<open>Replica update\<close>

definition handleErrors :: "checkErr \<Rightarrow> outcome" where
  "handleErrors e = (case e of
     ErrApi \<Rightarrow> Returns []
   | ErrInvalidDeals \<Rightarrow> Returns [SectorInvalidDealIDs None]
   | ErrExpiredDeals \<Rightarrow> Returns [SectorDealsExpired]
   | _ \<Rightarrow> Fails)"

definition handleReplicaUpdate :: "sealing_env \<Rightarrow> sectorInfo \<Rightarrow> outcome" where
  "handleReplicaUpdate env si =
     (if \<not> hasDeals si then Returns [SectorAbortUpgrade]
      else case checkPieces env 0 (si_Pieces si) True of
        CheckPanic \<Rightarrow> Panics
      | CheckErr e \<Rightarrow> handleErrors e
      | CheckOk \<Rightarrow>
          (case sa_ReplicaUpdate (sv_sealer env) (si_SectorType si) (si_SectorNumber si) (pieceInfos si) of
             None \<Rightarrow> Returns [SectorUpdateReplicaFailed]
           | Some (sealed, unsealed) \<Rightarrow> Returns [SectorReplicaUpdate sealed unsealed]))"

definition proveUpdate :: "sealing_env \<Rightarrow> sectorInfo \<Rightarrow> cid \<Rightarrow> cid \<Rightarrow> cid \<Rightarrow> outcome" where
  "proveUpdate env si commR sealed unsealed =
     (case sa_ProveReplicaUpdate1 (sv_sealer env) (si_SectorType si) (si_SectorNumber si) commR sealed unsealed of
        None \<Rightarrow> Returns [SectorProveReplicaUpdateFailed]
      | Some vanillaProofs \<Rightarrow>
          (case checkPieces env 1 (si_Pieces si) True of
             CheckPanic \<Rightarrow> Panics
           | CheckErr e \<Rightarrow> handleErrors e
           | CheckOk \<Rightarrow>
               (case sa_ProveReplicaUpdate2 (sv_sealer env) (si_SectorType si) (si_SectorNumber si) commR sealed unsealed
                       vanillaProofs of
                  None \<Rightarrow> Returns [SectorProveReplicaUpdateFailed]
                | Some proof \<Rightarrow> Returns [SectorProveReplicaUpdate proof])))"

definition handleProveReplicaUpdate :: "sealing_env \<Rightarrow> sectorInfo \<Rightarrow> outcome" where
  "handleProveReplicaUpdate env si =
     (case (si_UpdateSealed si, si_UpdateUnsealed si, si_CommR si) of
        (Some sealed, Some unsealed, Some commR) \<Rightarrow>
          (case ca_ChainHead (sv_api env) 0 of
             None \<Rightarrow> Returns []
           | Some ts \<Rightarrow>
               (case sectorActive env (th_Key ts) (si_SectorNumber si) of
                  None \<Rightarrow> Returns []
                | Some active \<Rightarrow>
                    (if \<not> active then Returns [SectorAbortUpgrade] else proveUpdate env si commR sealed unsealed)))
      | _ \<Rightarrow> Fails)"

text \<open>The deadline of a sector is immutable when it is the current or the next one; \<open>None\<close>: a
  division by zero.\<close>

definition deadlineImmutable :: "64 word \<Rightarrow> deadlineInfo \<Rightarrow> bool option" where
  "deadlineImmutable deadline dl =
     (if deadline = dl_Index dl then Some True
      else if dl_WPoStPeriodDeadlines dl = 0 then None
      else Some ((dl_Index dl + 1) mod dl_WPoStPeriodDeadlines dl = deadline))"

text \<open>The message of a replica update: the pledge is computed for a precommit that was never made.\<close>

definition sendReplicaUpdate :: "sealing_env \<Rightarrow> sealing_config \<Rightarrow> sectorInfo \<Rightarrow> tipsetHead \<Rightarrow> cid \<Rightarrow> bytes \<Rightarrow> outcome" where
  "sendReplicaUpdate env cfg si ts sealed enc =
     (case ca_StateSectorGetInfo (sv_api env) (si_SectorNumber si) (th_Key ts) of
        None \<Rightarrow> Returns []
      | Some None \<Rightarrow> Fails
      | Some (Some onChainInfo) \<Rightarrow>
          (case currentSealProof env of
             None \<Rightarrow> Returns []
           | Some sp \<Rightarrow>
               (let virtualPCI = \<lparr>pp_Expiration = so_Expiration onChainInfo, pp_SectorNumber = si_SectorNumber si,
                                  pp_SealProof = sp, pp_SealedCID = sealed, pp_SealRandEpoch = 0,
                                  pp_DealIDs = dealIDs si, pp_UnsealedCid = None\<rparr>
                in case ca_StateMinerInitialPledgeCollateral (sv_api env) virtualPCI (th_Key ts) of
                     None \<Rightarrow> Fails
                   | Some pledge \<Rightarrow>
                       (case ca_StateMinerInfo (sv_api env) (th_Key ts) of
                          None \<Rightarrow> Returns []
                        | Some mi \<Rightarrow>
                            (case payAndSend env cfg mi (pledge - so_InitialPledge onChainInfo) enc of
                               None \<Rightarrow> Returns []
                             | Some None \<Rightarrow> Returns [SectorSubmitReplicaUpdateFailed]
                             | Some (Some mcid) \<Rightarrow> Returns [SectorReplicaUpdateSubmitted mcid])))))"

definition submitUpdate :: "sealing_env \<Rightarrow> sectorInfo \<Rightarrow> tipsetHead \<Rightarrow> 64 word \<Rightarrow> 64 word \<Rightarrow> outcome" where
  "submitUpdate env si ts deadline part =
     (case sv_RegisteredUpdateProof env (si_SectorType si) of
        None \<Rightarrow> Returns [SectorSubmitReplicaUpdateFailed]
      | Some updateProof \<Rightarrow>
          (case si_UpdateSealed si of
             None \<Rightarrow> Panics
           | Some sealed \<Rightarrow>
               (case sv_updateParams env
                       \<lparr>ru_SectorID = si_SectorNumber si, ru_Deadline = deadline, ru_Partition = part,
                        ru_NewSealedSectorCID = sealed, ru_Deals = dealIDs si, ru_UpdateProofType = updateProof,
                        ru_ReplicaProof = si_ReplicaUpdateProof si\<rparr> of
                  None \<Rightarrow> Returns [SectorSubmitReplicaUpdateFailed]
                | Some enc \<Rightarrow>
                    (case sv_config env of
                       None \<Rightarrow> Fails
                     | Some cfg \<Rightarrow> sendReplicaUpdate env cfg si ts sealed enc))))"

text \<open>The error of \<open>StateMinerProvingDeadline\<close> is only logged, and the nil result dereferenced.\<close>

definition handleSubmitReplicaUpdate :: "sealing_env \<Rightarrow> sectorInfo \<Rightarrow> outcome" where
  "handleSubmitReplicaUpdate env si =
     (case ca_ChainHead (sv_api env) 0 of
        None \<Rightarrow> Returns []
      | Some ts \<Rightarrow>
          (case checkReplicaUpdate env 1 si (th_Key ts) of
             CheckPanic \<Rightarrow> Panics
           | CheckErr _ \<Rightarrow> Returns [SectorSubmitReplicaUpdateFailed]
           | CheckOk \<Rightarrow>
               (case ca_StateSectorPartition (sv_api env) (si_SectorNumber si) (th_Key ts) of
                  None \<Rightarrow> Returns []
                | Some (deadline, part) \<Rightarrow>
                    (case ca_StateMinerProvingDeadline (sv_api env) (th_Key ts) of
                       None \<Rightarrow> Panics
                     | Some dlinfo \<Rightarrow>
                         (case deadlineImmutable deadline dlinfo of
                            None \<Rightarrow> Panics
                          | Some True \<Rightarrow> Returns [SectorDeadlineImmutable]
                          | Some False \<Rightarrow> submitUpdate env si ts deadline part)))))"

text \<open>The loop that waits until the deadline of the sector is mutable; \<open>i\<close> rounds were made.\<close>

definition targetEpoch :: "64 word \<Rightarrow> deadlineInfo \<Rightarrow> int \<Rightarrow> int" where
  "targetEpoch deadline dl height =
     (let dlineEpochsRemaining = wrap64 (dl_NextOpen dl - height)
      in if deadline = dl_Index dl then wrap64 (height + dlineEpochsRemaining)
         else wrap64 (height + dlineEpochsRemaining + dl_WPoStChallengeWindow dl))"

fun waitMutable_loop :: "sealing_env \<Rightarrow> sectorInfo \<Rightarrow> nat \<Rightarrow> nat \<Rightarrow> outcome" where
  "waitMutable_loop env si 0 i = Running"
| "waitMutable_loop env si (Suc fuel) i =
     (case ca_ChainHead (sv_api env) i of
        None \<Rightarrow> Returns []
      | Some ts \<Rightarrow>
          (case ca_StateSectorPartition (sv_api env) (si_SectorNumber si) (th_Key ts) of
             None \<Rightarrow> Returns []
           | Some (deadline, _) \<Rightarrow>
               (case ca_StateMinerProvingDeadline (sv_api env) (th_Key ts) of
                  None \<Rightarrow> Returns []
                | Some dl \<Rightarrow>
                    (if dl_WPoStPeriodDeadlines dl = 0 then Panics
                     else if deadlineImmutable deadline dl = Some True
                     then (case sv_ChainAt env i (targetEpoch deadline dl (th_Height ts)) of
                             AtError \<Rightarrow> Returns []
                           | AtPending \<Rightarrow> if sv_cancelled env then Fails else Running
                           | AtReached \<Rightarrow> waitMutable_loop env si fuel (i + 1))
                     else Returns [SectorDeadlineMutable]))))"

definition handleWaitMutable :: "sealing_env \<Rightarrow> sectorInfo \<Rightarrow> outcome" where
  "handleWaitMutable env si = waitMutable_loop env si (sv_fuel env) 0"

definition handleReplicaUpdateWait :: "sealing_env \<Rightarrow> sectorInfo \<Rightarrow> outcome" where
  "handleReplicaUpdateWait env si =
     (case si_ReplicaUpdateMessage si of
        None \<Rightarrow> Returns [SectorSubmitReplicaUpdateFailed]
      | Some msg \<Rightarrow>
          (case ca_StateWaitMsg (sv_api env) 0 msg of
             None \<Rightarrow> Returns [SectorSubmitReplicaUpdateFailed]
           | Some mw \<Rightarrow>
               (if ml_ExitCode mw \<noteq> ExitOk then Returns [SectorSubmitReplicaUpdateFailed]
                else case ca_StateSectorGetInfo (sv_api env) (si_SectorNumber si) (ml_TipSet mw) of
                  None \<Rightarrow> Returns [SectorSubmitReplicaUpdateFailed]
                | Some None \<Rightarrow> Returns [SectorSubmitReplicaUpdateFailed]
                | Some (Some so) \<Rightarrow>
                    (case si_UpdateSealed si of
                       None \<Rightarrow> Panics
                     | Some sealed \<Rightarrow>
                         (if so_SealedCID so \<noteq> sealed then Returns [SectorAbortUpgrade]
                          else Returns [SectorReplicaUpdateLanded])))))"

definition handleFinalizeReplicaUpdate :: "sealing_env \<Rightarrow> sectorInfo \<Rightarrow> outcome" where
  "handleFinalizeReplicaUpdate env si =
     (case sv_config env of
        None \<Rightarrow> Fails
      | Some cfg \<Rightarrow>
          (if \<not> sa_ReleaseUnsealed (sv_sealer env) (si_SectorType si) (si_SectorNumber si)
                  (keepUnsealedRanges (sv_unpadded env) (si_Pieces si) False (cfg_AlwaysKeepUnsealedCopy cfg))
           then Returns [SectorFinalizeFailed]
           else if \<not> sa_FinalizeReplicaUpdate (sv_sealer env) (si_SectorType si) (si_SectorNumber si)
           then Returns [SectorFinalizeFailed]
           else Returns [SectorFinalized]))"

text \<open>
  The activation of an update is awaited for the lookback of winning PoSt. A failed attempt is
  repeated after a minute; \<open>None\<close> is such a failure, \<open>Some\<close> the events of the callback.
\<close>

definition activating_try :: "sealing_env \<Rightarrow> cid \<Rightarrow> nat \<Rightarrow> event list option" where
  "activating_try env msg i =
     (case ca_StateWaitMsg (sv_api env) i msg of
        None \<Rightarrow> None
      | Some mw \<Rightarrow>
          (case ca_ChainHead (sv_api env) i of
             None \<Rightarrow> None
           | Some ts \<Rightarrow>
               (case ca_StateNetworkVersion (sv_api env) (th_Key ts) of
                  None \<Rightarrow> None
                | Some nv \<Rightarrow>
                    (case sv_ChainAt env i (wrap64 (ml_Height mw + GetWinningPoStSectorSetLookback (sv_policy env) nv)) of
                       AtError \<Rightarrow> None
                     | AtPending \<Rightarrow> Some []
                     | AtReached \<Rightarrow> Some [SectorUpdateActive]))))"

fun activating_loop :: "sealing_env \<Rightarrow> cid \<Rightarrow> nat \<Rightarrow> nat \<Rightarrow> outcome" where
  "activating_loop env msg 0 i = Running"
| "activating_loop env msg (Suc fuel) i =
     (case activating_try env msg i of
        Some es \<Rightarrow> Returns es
      | None \<Rightarrow> activating_loop env msg fuel (i + 1))"

definition handleUpdateActivating :: "sealing_env \<Rightarrow> sectorInfo \<Rightarrow> outcome" where
  "handleUpdateActivating env si =
     (case si_ReplicaUpdateMessage si of
        None \<Rightarrow> Fails
      | Some msg \<Rightarrow> activating_loop env msg (sv_fuel env) 0)"

definition handleReleaseSectorKey :: "sealing_env \<Rightarrow> sectorInfo \<Rightarrow> outcome" where
  "handleReleaseSectorKey env si =
     (if sa_ReleaseSectorKey (sv_sealer env) (si_SectorType si) (si_SectorNumber si)
      then Returns [SectorKeyReleased] else Returns [SectorReleaseKeyFailed])"

text \<open>After a failed update: recheck the update and whether the sector is still active.\<close>

definition recheckUpdate :: "sealing_env \<Rightarrow> sectorInfo \<Rightarrow> outcome" where
  "recheckUpdate env si =
     (case ca_ChainHead (sv_api env) 0 of
        None \<Rightarrow> Returns []
      | Some ts \<Rightarrow>
          (case checkReplicaUpdate env 1 si (th_Key ts) of
             CheckPanic \<Rightarrow> Panics
           | CheckErr e \<Rightarrow>
               (case e of
                  ErrApi \<Rightarrow> Returns []
                | ErrBadRU \<Rightarrow> Returns [SectorRetryReplicaUpdate]
                | ErrBadPR \<Rightarrow> Returns [SectorRetryProveReplicaUpdate]
                | ErrInvalidDeals \<Rightarrow> Returns [SectorInvalidDealIDs None]
                | ErrExpiredDeals \<Rightarrow> Returns [SectorDealsExpired]
                | _ \<Rightarrow> Fails)
           | CheckOk \<Rightarrow>
               (case sectorActive env (th_Key ts) (si_SectorNumber si) of
                  None \<Rightarrow> Returns []
                | Some active \<Rightarrow>
                    (if \<not> active then Returns [SectorAbortUpgrade] else Returns [SectorRetrySubmitReplicaUpdate]))))"

definition handleSubmitReplicaUpdateFailed :: "sealing_env \<Rightarrow> sectorInfo \<Rightarrow> outcome" where
  "handleSubmitReplicaUpdateFailed env si =
     (case failedCooldown env si of
        CoolPanic \<Rightarrow> Panics
      | CoolErr \<Rightarrow> Fails
      | CoolOk \<Rightarrow>
          (case si_ReplicaUpdateMessage si of
             None \<Rightarrow> recheckUpdate env si
           | Some msg \<Rightarrow>
               (case ca_StateSearchMsg (sv_api env) EmptyTSK msg of
                  None \<Rightarrow> Returns [SectorRetrySubmitReplicaUpdateWait]
                | Some None \<Rightarrow> Returns [SectorRetrySubmitReplicaUpdateWait]
                | Some (Some mw) \<Rightarrow>
                    (case ml_ExitCode mw of
                       ExitOk \<Rightarrow> Returns [SectorRetrySubmitReplicaUpdateWait]
                     | SysErrOutOfGas \<Rightarrow> Returns [SectorRetrySubmitReplicaUpdate]
                     | _ \<Rightarrow> recheckUpdate env si))))"

definition handleReleaseSectorKeyFailed :: "sealing_env \<Rightarrow> sectorInfo \<Rightarrow> outcome" where
  "handleReleaseSectorKeyFailed env si = afterCooldown env si SectorUpdateActive"

definition handleDealsExpiredSnapDeals :: "sealing_env \<Rightarrow> sectorInfo \<Rightarrow> outcome" where
  "handleDealsExpiredSnapDeals env si = (if \<not> si_CCUpdate si then Fails else Returns [SectorAbortUpgrade])"

text \<open>Errors of releasing the unsealed file and of finalizing are only logged.\<close>

definition handleAbortUpgrade :: "sealing_env \<Rightarrow> sectorInfo \<Rightarrow> inputState \<Rightarrow> outcome \<times> inputState" where
  "handleAbortUpgrade env si inp =
     (if \<not> si_CCUpdate si then (Fails, inp)
      else case cleanupAssignedDeals si inp of
        None \<Rightarrow> (Panics, inp)
      | Some inp' \<Rightarrow>
          (if \<not> sa_ReleaseReplicaUpgrade (sv_sealer env) (si_SectorType si) (si_SectorNumber si) then (Fails, inp')
           else (Returns [SectorRevertUpgradeToProving], inp')))"

section \<open>Proving, termination and removal\<close>

definition handleFaulty :: "sealing_env \<Rightarrow> sectorInfo \<Rightarrow> outcome" where
  "handleFaulty env si = Returns []"

definition handleFaultReported :: "sealing_env \<Rightarrow> sectorInfo \<Rightarrow> outcome" where
  "handleFaultReported env si =
     (case si_FaultReportMsg si of
        None \<Rightarrow> Fails
      | Some msg \<Rightarrow>
          (case ca_StateWaitMsg (sv_api env) 0 msg of
             None \<Rightarrow> Fails
           | Some mw \<Rightarrow> if ml_ExitCode mw \<noteq> ExitOk then Fails else Returns [SectorFaultedFinal]))"

definition handleTerminating :: "sealing_env \<Rightarrow> sectorInfo \<Rightarrow> outcome" where
  "handleTerminating env si =
     (case ca_StateSectorGetInfo (sv_api env) (si_SectorNumber si) EmptyTSK of
        None \<Rightarrow> Returns [SectorTerminateFailed]
      | Some None \<Rightarrow>
          (case ca_StateSectorPreCommitInfo (sv_api env) (si_SectorNumber si) EmptyTSK of
             None \<Rightarrow> Returns [SectorTerminateFailed]
           | Some (Some _) \<Rightarrow> Returns [SectorTerminateFailed]
           | Some None \<Rightarrow> Returns [SectorRemove])
      | Some (Some _) \<Rightarrow>
          (case sv_AddTermination env (si_SectorNumber si) of
             None \<Rightarrow> Returns [SectorTerminateFailed]
           | Some (termCid, terminated) \<Rightarrow>
               (if terminated then Returns [SectorTerminating None] else Returns [SectorTerminating (Some termCid)])))"

definition handleTerminateWait :: "sealing_env \<Rightarrow> sectorInfo \<Rightarrow> outcome" where
  "handleTerminateWait env si =
     (case si_TerminateMessage si of
        None \<Rightarrow>
          (case ca_ChainHead (sv_api env) 0 of
             None \<Rightarrow> Returns [SectorTerminateFailed]
           | Some ts \<Rightarrow> Returns [SectorTerminated (th_Height ts)])
      | Some msg \<Rightarrow>
          (case ca_StateWaitMsg (sv_api env) 0 msg of
             None \<Rightarrow> Returns [SectorTerminateFailed]
           | Some mw \<Rightarrow>
               (if ml_ExitCode mw \<noteq> ExitOk then Returns [SectorTerminateFailed]
                else Returns [SectorTerminated (ml_Height mw)])))"

text \<open>The time to sleep before the next look at the chain, in nanoseconds, as the code computes it.\<close>

definition toWait :: "sealing_env \<Rightarrow> sectorInfo \<Rightarrow> int \<Rightarrow> nat \<Rightarrow> int" where
  "toWait env si height nv =
     wrap64 ((height - si_TerminatedAt si + GetWinningPoStSectorSetLookback (sv_policy env) nv) * sv_BlockDelaySecs env * 10 ^ 9)"

fun terminateFinality_loop :: "sealing_env \<Rightarrow> sectorInfo \<Rightarrow> nat \<Rightarrow> nat \<Rightarrow> outcome" where
  "terminateFinality_loop env si 0 i = Running"
| "terminateFinality_loop env si (Suc fuel) i =
     (case ca_ChainHead (sv_api env) i of
        None \<Rightarrow> Returns [SectorTerminateFailed]
      | Some ts \<Rightarrow>
          (case ca_StateNetworkVersion (sv_api env) (th_Key ts) of
             None \<Rightarrow> Returns [SectorTerminateFailed]
           | Some nv \<Rightarrow>
               (if th_Height ts \<ge> wrap64 (si_TerminatedAt si + GetWinningPoStSectorSetLookback (sv_policy env) nv)
                then Returns [SectorRemove]
                else if sv_cancelled env \<and> toWait env si (th_Height ts) nv > 0 then Fails
                else terminateFinality_loop env si fuel (i + 1))))"

definition handleTerminateFinality :: "sealing_env \<Rightarrow> sectorInfo \<Rightarrow> outcome" where
  "handleTerminateFinality env si = terminateFinality_loop env si (sv_fuel env) 0"

definition handleRemoving :: "sealing_env \<Rightarrow> sectorInfo \<Rightarrow> outcome" where
  "handleRemoving env si =
     (if sa_Remove (sv_sealer env) (si_SectorType si) (si_SectorNumber si)
      then Returns [SectorRemoved] else Returns [SectorRemoveFailed])"

definition handleProvingSector :: "sealing_env \<Rightarrow> sectorInfo \<Rightarrow> inputState \<Rightarrow> outcome \<times> inputState" where
  "handleProvingSector env si inp =
     (let inp' = inp\<lparr>in_available := gm_delete (si_SectorNumber si) (in_available inp)\<rparr>
      in case cleanupAssignedDeals si inp' of
           None \<Rightarrow> (Panics, inp')
         | Some inp'' \<Rightarrow> (Returns [], inp''))"

definition handleAvailableSector :: "sealing_env \<Rightarrow> sectorInfo \<Rightarrow> inputState \<Rightarrow> outcome \<times> inputState" where
  "handleAvailableSector env si inp =
     (Returns [], inp\<lparr>in_available := gm_set (si_SectorNumber si) () (in_available inp)\<rparr>)"

section \<open>Receiving a sector\<close>

text \<open>The files of the sector that are not local yet, by file type.\<close>

definition toFetch :: "sectorInfo \<Rightarrow> (string, sectorLocation) gomap" where
  "toFetch si =
     List.map_filter (\<lambda>(ft, data). case data of None \<Rightarrow> None | Some loc \<Rightarrow> if sl_Local loc then None else Some (ft, loc))
       [(''unsealed'', si_RemoteDataUnsealed si), (''sealed'', si_RemoteDataSealed si), (''cache'', si_RemoteDataCache si)]"

definition handleReceiveSector :: "sealing_env \<Rightarrow> sectorInfo \<Rightarrow> outcome" where
  "handleReceiveSector env si =
     (if toFetch si \<noteq> [] \<and>
         \<not> sa_DownloadSectorData (sv_sealer env) (si_SectorType si) (si_SectorNumber si) (si_RemoteDataFinalized si) (toFetch si)
      then Fails else Returns [SectorReceived])"

section \<open>Running a handler\<close>

text \<open>The handlers that do not touch the deal input, by name.\<close>

definition plainHandlers :: "(string \<times> (sealing_env \<Rightarrow> sectorInfo \<Rightarrow> outcome)) list" where
  "plainHandlers =
    [(''handleReceiveSector'', handleReceiveSector),
     (''handleGetTicket'', handleGetTicket),
     (''handlePreCommit1'', handlePreCommit1),
     (''handlePreCommit2'', handlePreCommit2),
     (''handlePreCommitting'', handlePreCommitting),
     (''handleSubmitPreCommitBatch'', handleSubmitPreCommitBatch),
     (''handlePreCommitWait'', handlePreCommitWait),
     (''handleWaitSeed'', handleWaitSeed),
     (''handleCommitting'', handleCommitting),
     (''handleSubmitCommit'', handleSubmitCommit),
     (''handleSubmitCommitAggregate'', handleSubmitCommitAggregate),
     (''handleCommitWait'', handleCommitWait),
     (''handleFinalizeSector'', handleFinalizeSector),
     (''handleReplicaUpdate'', handleReplicaUpdate),
     (''handleProveReplicaUpdate'', handleProveReplicaUpdate),
     (''handleSubmitReplicaUpdate'', handleSubmitReplicaUpdate),
     (''handleWaitMutable'', handleWaitMutable),
     (''handleReplicaUpdateWait'', handleReplicaUpdateWait),
     (''handleFinalizeReplicaUpdate'', handleFinalizeReplicaUpdate),
     (''handleUpdateActivating'', handleUpdateActivating),
     (''handleReleaseSectorKey'', handleReleaseSectorKey),
     (''handleAddPieceFailed'', handleAddPieceFailed),
     (''handleSealPrecommit1Failed'', handleSealPrecommit1Failed),
     (''handleSealPrecommit2Failed'', handleSealPrecommit2Failed),
     (''handlePreCommitFailed'', handlePreCommitFailed),
     (''handleComputeProofFailed'', handleComputeProofFailed),
     (''handleRemoteCommitFailed'', handleRemoteCommitFailed),
     (''handleCommitFailed'', handleCommitFailed),
     (''handleFinalizeFailed'', handleFinalizeFailed),
     (''handleDealsExpired'', handleDealsExpired),
     (''HandleRecoverDealIDs'', HandleRecoverDealIDs),
     (''handleDealsExpiredSnapDeals'', handleDealsExpiredSnapDeals),
     (''handleSnapDealsRecoverDealIDs'', handleSnapDealsRecoverDealIDs),
     (''handleSubmitReplicaUpdateFailed'', handleSubmitReplicaUpdateFailed),
     (''handleReleaseSectorKeyFailed'', handleReleaseSectorKeyFailed),
     (''handleTerminating'', handleTerminating),
     (''handleTerminateWait'', handleTerminateWait),
     (''handleTerminateFinality'', handleTerminateFinality),
     (''handleTerminateFailed'', handleTerminateFailed),
     (''handleRemoving'', handleRemoving),
     (''handleRemoveFailed'', handleRemoveFailed),
     (''handleFaulty'', handleFaulty),
     (''handleFaultReported'', handleFaultReported)]"

text \<open>The handlers that work on the deal input.\<close>

definition inputHandlers :: "(string \<times> (sealing_env \<Rightarrow> sectorInfo \<Rightarrow> inputState \<Rightarrow> outcome \<times> inputState)) list" where
  "inputHandlers =
    [(''handleWaitDeals'', handleWaitDeals),
     (''handleAddPiece'', handleAddPiece),
     (''handlePacking'', handlePacking),
     (''handleAbortUpgrade'', handleAbortUpgrade),
     (''handleProvingSector'', handleProvingSector),
     (''handleAvailableSector'', handleAvailableSector)]"

definition runHandler :: "sealing_env \<Rightarrow> string \<Rightarrow> sectorInfo \<Rightarrow> inputState \<Rightarrow> outcome \<times> inputState" where
  "runHandler env h si inp =
     (case map_of inputHandlers h of
        Some f \<Rightarrow> f env si inp
      | None \<Rightarrow>
          (case map_of plainHandlers h of
             Some f \<Rightarrow> (f env si, inp)
           | None \<Rightarrow> (Fails, inp)))"

end
