(* ===== verification/Sealing_Emits.thy ===== *)
theory Sealing_Emits
  imports Sealing_Recovery Sealing_Props
begin

text \<open>
  The events that each handler of the sealing pipeline can answer with, by the name of the handler.
\<close>

section \<open>The events of the handlers\<close>

definition emits :: "outcome \<Rightarrow> string list \<Rightarrow> bool" where
  "emits r ts = list_all (\<lambda>e. typeOf e \<in> set ts \<and> pipelineEvent e) (sent r)"

lemma emits_simps [simp]:
  "emits (Returns []) ts"
  "emits (Returns (e # es)) ts \<longleftrightarrow> typeOf e \<in> set ts \<and> pipelineEvent e \<and> emits (Returns es) ts"
  "emits Fails ts"
  "emits Panics ts"
  "emits Running ts"
  by (simp_all add: emits_def)

lemmas emit_eval = pipelineEvent_def ReturnStates_def

lemma emits_mono: "emits r ts \<Longrightarrow> set ts \<subseteq> set ts' \<Longrightarrow> emits r ts'"
  by (auto simp: emits_def list_all_iff)

lemmas handler_splits = option.split checkResult.split checkErr.split exitCode.split sum.split prod.split
  chainAt.split remote.split cooldown.split go.split preCommitRes.split if_split bool.split

text \<open>What each handler can send, by the types of the events, in the order of \<open>plainHandlers\<close> and
  \<open>inputHandlers\<close>.\<close>

definition plainEvents :: "(string \<times> string list) list" where
  "plainEvents =
    [(''handleReceiveSector'', [''SectorReceived'']),
     (''handleGetTicket'', [''SectorTicket'', ''SectorCommitFailed'', ''SectorRemove'', ''SectorSealPreCommit1Failed'']),
     (''handlePreCommit1'', [''SectorPreCommit1'', ''SectorSealPreCommit1Failed'', ''SectorDealsExpired'',
        ''SectorInvalidDealIDs'', ''SectorOldTicket'']),
     (''handlePreCommit2'', [''SectorPreCommit2'', ''SectorSealPreCommit2Failed'', ''SectorSealPreCommit1Failed'']),
     (''handlePreCommitting'', [''SectorPreCommitBatch'']),
     (''handleSubmitPreCommitBatch'', [''SectorPreCommitBatchSent'', ''SectorSealPreCommit1Failed'', ''SectorChainPreCommitFailed'',
        ''SectorPreCommitLanded'', ''SectorDealsExpired'', ''SectorInvalidDealIDs'']),
     (''handlePreCommitWait'', [''SectorChainPreCommitFailed'', ''SectorPreCommitLanded'', ''SectorRetryPreCommit'']),
     (''handleWaitSeed'', [''SectorSeedReady'', ''SectorChainPreCommitFailed'']),
     (''handleCommitting'', [''SectorCommitted'', ''SectorProofReady'', ''SectorComputeProofFailed'',
        ''SectorRemoteCommit1Failed'', ''SectorRemoteCommit2Failed'', ''SectorCommitFailed'',
        ''SectorRetryCommitWait'']),
     (''handleSubmitCommit'', [''SectorCommitSubmitted'', ''SectorSubmitCommitAggregate'', ''SectorCommitFailed'']),
     (''handleSubmitCommitAggregate'', [''SectorCommitAggregateSent'', ''SectorCommitFailed'', ''SectorRetrySubmitCommit'']),
     (''handleCommitWait'', [''SectorProving'', ''SectorCommitFailed'', ''SectorRetrySubmitCommit'']),
     (''handleFinalizeSector'', [''SectorFinalized'', ''SectorFinalizedAvailable'', ''SectorFinalizeFailed'']),
     (''handleReplicaUpdate'', [''SectorReplicaUpdate'', ''SectorUpdateReplicaFailed'', ''SectorDealsExpired'',
        ''SectorInvalidDealIDs'', ''SectorAbortUpgrade'']),
     (''handleProveReplicaUpdate'', [''SectorProveReplicaUpdate'', ''SectorProveReplicaUpdateFailed'', ''SectorDealsExpired'',
        ''SectorInvalidDealIDs'', ''SectorAbortUpgrade'']),
     (''handleSubmitReplicaUpdate'', [''SectorReplicaUpdateSubmitted'', ''SectorSubmitReplicaUpdateFailed'',
        ''SectorDeadlineImmutable'']),
     (''handleWaitMutable'', [''SectorDeadlineMutable'']),
     (''handleReplicaUpdateWait'', [''SectorReplicaUpdateLanded'', ''SectorSubmitReplicaUpdateFailed'', ''SectorAbortUpgrade'']),
     (''handleFinalizeReplicaUpdate'', [''SectorFinalized'', ''SectorFinalizeFailed'']),
     (''handleUpdateActivating'', [''SectorUpdateActive'']),
     (''handleReleaseSectorKey'', [''SectorKeyReleased'', ''SectorReleaseKeyFailed'']),
     (''handleAddPieceFailed'', [''SectorRetryWaitDeals'']),
     (''handleSealPrecommit1Failed'', [''SectorRemove'', ''SectorRetrySealPreCommit1'']),
     (''handleSealPrecommit2Failed'', [''SectorRetrySealPreCommit1'', ''SectorRetrySealPreCommit2'']),
     (''handlePreCommitFailed'', [''SectorRetryPreCommit'', ''SectorRetryPreCommitWait'', ''SectorRetryWaitSeed'',
        ''SectorSealPreCommit1Failed'', ''SectorPreCommitLanded'', ''SectorDealsExpired'',
        ''SectorInvalidDealIDs'']),
     (''handleComputeProofFailed'', [''SectorRetryComputeProof'', ''SectorSealPreCommit1Failed'']),
     (''handleRemoteCommitFailed'', [''SectorRetryComputeProof'']),
     (''handleCommitFailed'', [''SectorSealPreCommit1Failed'', ''SectorRetryWaitSeed'', ''SectorRetryComputeProof'',
        ''SectorRetryInvalidProof'', ''SectorRetryPreCommitWait'', ''SectorRetryPreCommit'',
        ''SectorRetryCommitWait'', ''SectorRetrySubmitCommit'', ''SectorDealsExpired'',
        ''SectorInvalidDealIDs'']),
     (''handleFinalizeFailed'', [''SectorRetryFinalize'']),
     (''handleDealsExpired'', [''SectorRemove'']),
     (''HandleRecoverDealIDs'', [''SectorUpdateDealIDs'', ''SectorRemove'']),
     (''handleDealsExpiredSnapDeals'', [''SectorAbortUpgrade'']),
     (''handleSnapDealsRecoverDealIDs'', [''SectorUpdateDealIDs'', ''SectorAbortUpgrade'']),
     (''handleSubmitReplicaUpdateFailed'', [''SectorRetrySubmitReplicaUpdateWait'', ''SectorRetrySubmitReplicaUpdate'',
        ''SectorRetryReplicaUpdate'', ''SectorRetryProveReplicaUpdate'', ''SectorInvalidDealIDs'',
        ''SectorDealsExpired'', ''SectorAbortUpgrade'']),
     (''handleReleaseSectorKeyFailed'', [''SectorUpdateActive'']),
     (''handleTerminating'', [''SectorTerminating'', ''SectorTerminateFailed'', ''SectorRemove'']),
     (''handleTerminateWait'', [''SectorTerminated'', ''SectorTerminateFailed'']),
     (''handleTerminateFinality'', [''SectorTerminateFailed'', ''SectorRemove'']),
     (''handleTerminateFailed'', [''SectorTerminate'']),
     (''handleRemoving'', [''SectorRemoved'', ''SectorRemoveFailed'']),
     (''handleRemoveFailed'', [''SectorRemove'']),
     (''handleFaulty'', []),
     (''handleFaultReported'', [''SectorFaultedFinal''])]"

definition inputEvents :: "(string \<times> string list) list" where
  "inputEvents =
    [(''handleWaitDeals'', [''SectorAddPiece'', ''SectorStartPacking'']),
     (''handleAddPiece'', [''SectorPieceAdded'', ''SectorAddPieceFailed'']),
     (''handlePacking'', [''SectorPacked'']),
     (''handleAbortUpgrade'', [''SectorRevertUpgradeToProving'']),
     (''handleProvingSector'', []),
     (''handleAvailableSector'', [])]"

lemma emits_precommit:
  "emits (handleGetTicket env si) [''SectorTicket'', ''SectorCommitFailed'', ''SectorRemove'', ''SectorSealPreCommit1Failed'']"
  "emits (handlePreCommit1 env si) [''SectorPreCommit1'', ''SectorSealPreCommit1Failed'', ''SectorDealsExpired'',
        ''SectorInvalidDealIDs'', ''SectorOldTicket'']"
  "emits (handlePreCommit2 env si) [''SectorPreCommit2'', ''SectorSealPreCommit2Failed'', ''SectorSealPreCommit1Failed'']"
  "emits (handlePreCommitting env si) [''SectorPreCommitBatch'']"
  by (simp_all add: emit_eval handleGetTicket_def handlePreCommit1_def oldTicketPreCommit1_def runPreCommit1_def handlePreCommit2_def handlePreCommitting_def Let_def  split: handler_splits)

lemma preCommitParams_sent: "preCommitParams env si ts = PCSent e \<Longrightarrow> e = SectorSealPreCommit1Failed"
  unfolding preCommitParams_def Let_def by (auto split: option.splits)

lemma preCommitInfo_sent:
  assumes "preCommitInfo env si = PCSent e"
  shows "typeOf e \<in> {''SectorSealPreCommit1Failed'', ''SectorPreCommitLanded'', ''SectorDealsExpired'', ''SectorInvalidDealIDs''}
    \<and> pipelineEvent e"
  using assms
  by (auto simp: emit_eval preCommitInfo_def dest!: preCommitParams_sent split: option.splits checkResult.splits checkErr.splits)

lemma emits_submit_precommit:
  "emits (handleSubmitPreCommitBatch env si) [''SectorPreCommitBatchSent'', ''SectorSealPreCommit1Failed'', ''SectorChainPreCommitFailed'',
        ''SectorPreCommitLanded'', ''SectorDealsExpired'', ''SectorInvalidDealIDs'']"
  "emits (handlePreCommitWait env si) [''SectorChainPreCommitFailed'', ''SectorPreCommitLanded'', ''SectorRetryPreCommit'']"
  "emits (handleWaitSeed env si) [''SectorSeedReady'', ''SectorChainPreCommitFailed'']"
  using preCommitInfo_sent [of env si]
  by (auto simp: emit_eval handleSubmitPreCommitBatch_def handlePreCommitWait_def handleWaitSeed_def seedCallback_def Let_def  split: handler_splits)

lemma emits_commit1:
  "commit1 env si commD commR = Inl r \<Longrightarrow> emits r [''SectorComputeProofFailed'', ''SectorRemoteCommit1Failed'']"
  by (auto simp: emit_eval commit1_def split: option.splits remote.splits if_splits)

lemma emits_commit2:
  "commit2 env si c2in = Inl r \<Longrightarrow> emits r [''SectorComputeProofFailed'', ''SectorRemoteCommit2Failed'']"
  by (auto simp: emit_eval commit2_def split: option.splits remote.splits if_splits)

lemma emits_proofReady:
  "emits (proofReady env cfg si p) [''SectorCommitFailed'', ''SectorCommitted'', ''SectorProofReady'']"
  by (simp add: emit_eval proofReady_def split: option.split checkResult.split)

lemma emits_computeCommit:
  "emits (computeCommit env si) [''SectorCommitted'', ''SectorProofReady'', ''SectorComputeProofFailed'',
     ''SectorRemoteCommit1Failed'', ''SectorRemoteCommit2Failed'', ''SectorCommitFailed'', ''SectorRetryCommitWait'']"
  unfolding computeCommit_def
  by (simp add: emit_eval split: option.split sum.split)
    (auto intro: emits_mono [OF emits_proofReady] dest!: emits_commit1 emits_commit2 elim!: emits_mono)

lemma emits_submitCommitMessage:
  "emits (submitCommitMessage env cfg si ts) [''SectorCommitSubmitted'', ''SectorCommitFailed'']"
  by (simp add: emit_eval submitCommitMessage_def split: option.split)

lemma emits_committing:
  "emits (handleCommitting env si) [''SectorCommitted'', ''SectorProofReady'', ''SectorComputeProofFailed'',
        ''SectorRemoteCommit1Failed'', ''SectorRemoteCommit2Failed'', ''SectorCommitFailed'',
        ''SectorRetryCommitWait'']"
  using emits_computeCommit [of env si] by (simp add: emit_eval handleCommitting_def split: option.split)

lemma emits_submit_commit:
  "emits (handleSubmitCommit env si) [''SectorCommitSubmitted'', ''SectorSubmitCommitAggregate'', ''SectorCommitFailed'']"
  unfolding handleSubmitCommit_def submitCommitSingle_def
  by (simp add: emit_eval split: option.split checkResult.split) (auto intro: emits_mono [OF emits_submitCommitMessage])

lemma emits_commit_wait:
  "emits (handleSubmitCommitAggregate env si) [''SectorCommitAggregateSent'', ''SectorCommitFailed'', ''SectorRetrySubmitCommit'']"
  "emits (handleCommitWait env si) [''SectorProving'', ''SectorCommitFailed'', ''SectorRetrySubmitCommit'']"
  "emits (handleFinalizeSector env si) [''SectorFinalized'', ''SectorFinalizedAvailable'', ''SectorFinalizeFailed'']"
  by (simp_all add: emit_eval handleSubmitCommitAggregate_def retryAfterBatch_def handleCommitWait_def handleFinalizeSector_def  split: handler_splits)

lemma emits_afterCooldown [simp]: "typeOf e \<in> set ts \<Longrightarrow> pipelineEvent e \<Longrightarrow> emits (afterCooldown env si e) ts"
  by (simp add: emit_eval afterCooldown_def split: cooldown.split)

lemma emits_retryPreCommit: "emits (retryPreCommit env si ts) [''SectorRetryPreCommit'', ''SectorRetryPreCommitWait'', ''SectorRetryWaitSeed'',
        ''SectorSealPreCommit1Failed'', ''SectorPreCommitLanded'', ''SectorDealsExpired'',
        ''SectorInvalidDealIDs'']"
  by (simp add: emit_eval retryPreCommit_def split: prod.split option.split bool.split checkResult.split checkErr.split)

lemma emits_recheckPreCommit: "emits (recheckPreCommit env si ts) [''SectorRetryPreCommit'', ''SectorRetryPreCommitWait'', ''SectorRetryWaitSeed'',
        ''SectorSealPreCommit1Failed'', ''SectorPreCommitLanded'', ''SectorDealsExpired'',
        ''SectorInvalidDealIDs'']"
  by (simp add: emit_eval recheckPreCommit_def emits_retryPreCommit split: prod.split option.split bool.split checkResult.split checkErr.split)

lemma emits_recheckCommit: "emits (recheckCommit env si ts) [''SectorSealPreCommit1Failed'', ''SectorRetryWaitSeed'', ''SectorRetryComputeProof'',
        ''SectorRetryInvalidProof'', ''SectorRetryPreCommitWait'', ''SectorRetryPreCommit'',
        ''SectorRetryCommitWait'', ''SectorRetrySubmitCommit'', ''SectorDealsExpired'',
        ''SectorInvalidDealIDs'']"
  by (simp add: emit_eval recheckCommit_def split: prod.split option.split bool.split checkResult.split checkErr.split)

lemma emits_failed:
  "emits (handleSealPrecommit1Failed env si) [''SectorRemove'', ''SectorRetrySealPreCommit1'']"
  "emits (handleSealPrecommit2Failed env si) [''SectorRetrySealPreCommit1'', ''SectorRetrySealPreCommit2'']"
  "emits (handlePreCommitFailed env si) [''SectorRetryPreCommit'', ''SectorRetryPreCommitWait'', ''SectorRetryWaitSeed'',
        ''SectorSealPreCommit1Failed'', ''SectorPreCommitLanded'', ''SectorDealsExpired'',
        ''SectorInvalidDealIDs'']"
  "emits (handleComputeProofFailed env si) [''SectorRetryComputeProof'', ''SectorSealPreCommit1Failed'']"
  "emits (handleRemoteCommitFailed env si) [''SectorRetryComputeProof'']"
  "emits (handleCommitFailed env si) [''SectorSealPreCommit1Failed'', ''SectorRetryWaitSeed'', ''SectorRetryComputeProof'',
        ''SectorRetryInvalidProof'', ''SectorRetryPreCommitWait'', ''SectorRetryPreCommit'',
        ''SectorRetryCommitWait'', ''SectorRetrySubmitCommit'', ''SectorDealsExpired'',
        ''SectorInvalidDealIDs'']"
  "emits (handleFinalizeFailed env si) [''SectorRetryFinalize'']"
  "emits (handleRemoveFailed env si) [''SectorRemove'']"
  "emits (handleTerminateFailed env si) [''SectorTerminate'']"
  "emits (handleDealsExpired env si) [''SectorRemove'']"
  by (simp_all add: emit_eval handleSealPrecommit1Failed_def handleSealPrecommit2Failed_def handlePreCommitFailed_def handleComputeProofFailed_def handleRemoteCommitFailed_def handleCommitFailed_def handleFinalizeFailed_def handleRemoveFailed_def handleTerminateFailed_def handleDealsExpired_def emits_recheckPreCommit emits_recheckCommit split: option.split exitCode.split)

lemma emits_recover:
  "emits (HandleRecoverDealIDs env si) [''SectorUpdateDealIDs'', ''SectorRemove'']"
  "emits (handleSnapDealsRecoverDealIDs env si) [''SectorUpdateDealIDs'', ''SectorAbortUpgrade'']"
  by (simp_all add: emit_eval HandleRecoverDealIDs_def handleSnapDealsRecoverDealIDs_def handleRecoverDealIDsOrFailWith_def  split: handler_splits)

lemma emits_handleErrors: "emits (handleErrors e) [''SectorInvalidDealIDs'', ''SectorDealsExpired'']"
  by (simp add: emit_eval handleErrors_def split: checkErr.split)

lemma emits_proveUpdate:
  "emits (proveUpdate env si commR sealed unsealed) [''SectorProveReplicaUpdate'', ''SectorProveReplicaUpdateFailed'',
     ''SectorDealsExpired'', ''SectorInvalidDealIDs'', ''SectorAbortUpgrade'']"
  unfolding proveUpdate_def
  by (simp add: emit_eval split: option.split checkResult.split) (auto intro: emits_mono [OF emits_handleErrors])

lemma emits_sendReplicaUpdate:
  "emits (sendReplicaUpdate env cfg si ts sealed enc) [''SectorReplicaUpdateSubmitted'', ''SectorSubmitReplicaUpdateFailed'',
     ''SectorDeadlineImmutable'']"
  by (simp add: emit_eval sendReplicaUpdate_def Let_def split: option.split)

lemma emits_submitUpdate:
  "emits (submitUpdate env si ts deadline part) [''SectorReplicaUpdateSubmitted'', ''SectorSubmitReplicaUpdateFailed'',
     ''SectorDeadlineImmutable'']"
  by (simp add: emit_eval submitUpdate_def emits_sendReplicaUpdate split: option.split)

lemma emits_handleReplicaUpdate:
  "emits (handleReplicaUpdate env si) [''SectorReplicaUpdate'', ''SectorUpdateReplicaFailed'', ''SectorDealsExpired'',
     ''SectorInvalidDealIDs'', ''SectorAbortUpgrade'']"
  unfolding handleReplicaUpdate_def
  by (simp add: emit_eval split: option.split checkResult.split prod.split) (auto intro: emits_mono [OF emits_handleErrors])

lemma emits_recheckUpdate: "emits (recheckUpdate env si) [''SectorRetrySubmitReplicaUpdateWait'', ''SectorRetrySubmitReplicaUpdate'',
        ''SectorRetryReplicaUpdate'', ''SectorRetryProveReplicaUpdate'', ''SectorInvalidDealIDs'',
        ''SectorDealsExpired'', ''SectorAbortUpgrade'']"
  by (simp add: emit_eval recheckUpdate_def split: prod.split option.split bool.split checkResult.split checkErr.split)

lemma emits_update:
  "emits (handleProveReplicaUpdate env si) [''SectorProveReplicaUpdate'', ''SectorProveReplicaUpdateFailed'', ''SectorDealsExpired'',
        ''SectorInvalidDealIDs'', ''SectorAbortUpgrade'']"
  "emits (handleSubmitReplicaUpdate env si) [''SectorReplicaUpdateSubmitted'', ''SectorSubmitReplicaUpdateFailed'',
        ''SectorDeadlineImmutable'']"
  "emits (handleReplicaUpdateWait env si) [''SectorReplicaUpdateLanded'', ''SectorSubmitReplicaUpdateFailed'', ''SectorAbortUpgrade'']"
  "emits (handleFinalizeReplicaUpdate env si) [''SectorFinalized'', ''SectorFinalizeFailed'']"
  "emits (handleReleaseSectorKey env si) [''SectorKeyReleased'', ''SectorReleaseKeyFailed'']"
  "emits (handleSubmitReplicaUpdateFailed env si) [''SectorRetrySubmitReplicaUpdateWait'', ''SectorRetrySubmitReplicaUpdate'',
        ''SectorRetryReplicaUpdate'', ''SectorRetryProveReplicaUpdate'', ''SectorInvalidDealIDs'',
        ''SectorDealsExpired'', ''SectorAbortUpgrade'']"
  "emits (handleReleaseSectorKeyFailed env si) [''SectorUpdateActive'']"
  "emits (handleDealsExpiredSnapDeals env si) [''SectorAbortUpgrade'']"
  by (simp_all add: emit_eval handleProveReplicaUpdate_def handleSubmitReplicaUpdate_def handleReplicaUpdateWait_def handleFinalizeReplicaUpdate_def handleReleaseSectorKey_def handleSubmitReplicaUpdateFailed_def handleReleaseSectorKeyFailed_def handleDealsExpiredSnapDeals_def emits_proveUpdate emits_submitUpdate emits_recheckUpdate split: option.split exitCode.split checkResult.split cooldown.split prod.split bool.split)

lemma emits_proving:
  "emits (handleFaulty env si) []"
  "emits (handleFaultReported env si) [''SectorFaultedFinal'']"
  "emits (handleTerminating env si) [''SectorTerminating'', ''SectorTerminateFailed'', ''SectorRemove'']"
  "emits (handleTerminateWait env si) [''SectorTerminated'', ''SectorTerminateFailed'']"
  "emits (handleRemoving env si) [''SectorRemoved'', ''SectorRemoveFailed'']"
  "emits (handleReceiveSector env si) [''SectorReceived'']"
  "emits (handleAddPieceFailed env si) [''SectorRetryWaitDeals'']"
  by (simp_all add: emit_eval handleFaulty_def handleFaultReported_def handleTerminating_def handleTerminateWait_def handleRemoving_def handleReceiveSector_def handleAddPieceFailed_def  split: handler_splits)

lemma emits_loops:
  "emits (handleWaitMutable env si) [''SectorDeadlineMutable'']"
  "emits (handleUpdateActivating env si) [''SectorUpdateActive'']"
  "emits (handleTerminateFinality env si) [''SectorTerminateFailed'', ''SectorRemove'']"
proof -
  have "emits (waitMutable_loop env si fuel i) [''SectorDeadlineMutable'']" for fuel i
    by (induction fuel arbitrary: i) (simp_all add: emit_eval split: handler_splits)
  then show "emits (handleWaitMutable env si) [''SectorDeadlineMutable'']" by (simp add: emit_eval handleWaitMutable_def)
  have "emits (activating_loop env msg fuel i) [''SectorUpdateActive'']" for msg fuel i
    by (induction fuel arbitrary: i) (simp_all add: emit_eval activating_try_def split: handler_splits)
  then show "emits (handleUpdateActivating env si) [''SectorUpdateActive'']"
    by (simp add: emit_eval handleUpdateActivating_def split: option.split)
  have "emits (terminateFinality_loop env si fuel i) [''SectorTerminateFailed'', ''SectorRemove'']" for fuel i
    by (induction fuel arbitrary: i) (simp_all add: emit_eval split: handler_splits)
  then show "emits (handleTerminateFinality env si) [''SectorTerminateFailed'', ''SectorRemove'']"
    by (simp add: emit_eval handleTerminateFinality_def)
qed

lemma emits_addPieces_loop:
  "emits (fst (addPieces_loop env si ssize i cs pr inp)) [''SectorPieceAdded'', ''SectorAddPieceFailed'']"
  by (induction cs arbitrary: i pr inp) (simp_all add: emit_eval split: option.split addStep.split)

lemma emits_fillSector: "emits (fillSector env si) [''SectorPacked'']"
  by (simp add: emit_eval fillSector_def Let_def split: option.split)

lemma emits_input:
  "emits (fst (handleWaitDeals env si inp)) [''SectorAddPiece'', ''SectorStartPacking'']"
  "emits (fst (handleAddPiece env si inp)) [''SectorPieceAdded'', ''SectorAddPieceFailed'']"
  "si_State si \<noteq> SnapDealsPacking \<Longrightarrow> emits (fst (handlePacking env si inp)) [''SectorPacked'']"
  "emits (fst (handlePacking env si inp)) [''SectorPacked'', ''SectorAbortUpgrade'']"
  "emits (fst (handleAbortUpgrade env si inp)) [''SectorRevertUpgradeToProving'']"
  "emits (fst (handleProvingSector env si inp)) []"
  "emits (fst (handleAvailableSector env si inp)) []"
  using emits_mono [OF emits_fillSector [of env si], of "[''SectorPacked'', ''SectorAbortUpgrade'']"]
  by (simp_all add: emit_eval handleWaitDeals_def handleAddPiece_def emits_addPieces_loop handlePacking_def emits_fillSector
        handleAbortUpgrade_def handleProvingSector_def handleAvailableSector_def Let_def
        split: option.split prod.split go.split bool.split)

lemmas emits_all = emits_precommit emits_submit_precommit emits_committing emits_submit_commit emits_commit_wait
  emits_failed emits_recover emits_handleReplicaUpdate emits_update emits_proving emits_loops

lemma plain_emit: "list_all2 (\<lambda>(n, f) (n', ts). n = n' \<and> (\<forall>env si. emits (f env si) ts)) plainHandlers plainEvents"
  by (simp only: plainHandlers_def plainEvents_def list_all2_Cons list_all2_Nil prod.case emits_all simp_thms)

lemma input_emit:
  "list_all2 (\<lambda>(n, f) (n', ts). n = n' \<and>
     (\<forall>env si inp. si_State si \<noteq> SnapDealsPacking \<longrightarrow> emits (fst (f env si inp)) ts)) inputHandlers inputEvents"
  by (simp only: inputHandlers_def inputEvents_def list_all2_Cons list_all2_Nil prod.case emits_input simp_thms) (blast intro: emits_input)

definition eventsOf :: "string \<Rightarrow> string list" where
  "eventsOf h =
     (case map_of inputEvents h of
        Some ts \<Rightarrow> ts
      | None \<Rightarrow> (case map_of plainEvents h of Some ts \<Rightarrow> ts | None \<Rightarrow> []))"

lemma map_of_list_all2:
  assumes "list_all2 (\<lambda>(n, f) (n', t). n = n' \<and> R f t) xs ys"
  shows "rel_option R (map_of xs n) (map_of ys n)"
  using assms by (induction rule: list_all2_induct) auto

lemma handler_emits:
  assumes "si_State si \<noteq> SnapDealsPacking"
  shows "emits (fst (runHandler env h si inp)) (eventsOf h)"
  using assms map_of_list_all2 [OF plain_emit, of h] map_of_list_all2 [OF input_emit, of h]
  by (auto simp: runHandler_def eventsOf_def option_rel_Some1 split: option.splits dest: sym)

end
