(* ===== verification/Sealing_Safety.thy ===== *)
theory Sealing_Safety
  imports Sealing_Emits Sealing_Behaviour
begin

text \<open>
  What a sector's record and the chain have in common. The handlers of the pipeline are closed with
  the planners into runs; what a handler checked before it answered carries over to the states that
  its answer leads to.
\<close>

section \<open>Who sends what\<close>

lemma eventsOf_mem:
  assumes "t \<in> set (eventsOf h)"
  shows "\<exists>ts. (h, ts) \<in> set (inputEvents @ plainEvents) \<and> t \<in> set ts"
  using assms map_of_SomeD [of inputEvents h] map_of_SomeD [of plainEvents h]
  by (cases "map_of inputEvents h"; cases "map_of plainEvents h") (auto simp: eventsOf_def)

lemma proving_by: "list_all (\<lambda>(n, ts). ''SectorProving'' \<in> set ts \<longrightarrow> n = ''handleCommitWait'') (inputEvents @ plainEvents)"
  by (simp add: inputEvents_def plainEvents_def)

lemma committed_by: "list_all (\<lambda>(n, ts). ''SectorCommitted'' \<in> set ts \<longrightarrow> n = ''handleCommitting'') (inputEvents @ plainEvents)"
  by (simp add: inputEvents_def plainEvents_def)

lemma proof_ready_by: "list_all (\<lambda>(n, ts). ''SectorProofReady'' \<in> set ts \<longrightarrow> n = ''handleCommitting'') (inputEvents @ plainEvents)"
  by (simp add: inputEvents_def plainEvents_def)

lemma submitted_by:
  "list_all (\<lambda>(n, ts). ''SectorCommitSubmitted'' \<in> set ts \<longrightarrow> n = ''handleSubmitCommit'') (inputEvents @ plainEvents)"
  by (simp add: inputEvents_def plainEvents_def)

lemma sender:
  assumes "list_all (\<lambda>(n, ts). t \<in> set ts \<longrightarrow> n = h0) (inputEvents @ plainEvents)" "t \<in> set (eventsOf h)"
  shows "h = h0"
  using eventsOf_mem [OF assms(2)] assms(1) by (auto simp: list_all_iff)

lemma run_plain: "runHandler env ''handleCommitWait'' si inp = (handleCommitWait env si, inp)"
  "runHandler env ''handleCommitting'' si inp = (handleCommitting env si, inp)"
  "runHandler env ''handleSubmitCommit'' si inp = (handleSubmitCommit env si, inp)"
  by (simp_all add: runHandler_def inputHandlers_def plainHandlers_def)

text \<open>Packing aside, where the handler looks at the state, an event sent is one of the handler's.\<close>

lemma sent_event:
  assumes "handlerOf (si_State si) = Inr h" "e \<in> set (sent (fst (runHandler env h si inp)))"
  shows "pipelineEvent e \<and> (typeOf e \<in> set (eventsOf h) \<or> typeOf e \<in> {''SectorPacked'', ''SectorAbortUpgrade''})"
proof (cases "si_State si = SnapDealsPacking")
  case True
  then have "h = ''handlePacking''" using assms(1) by (simp add: handlerOf_def)
  then have "e \<in> set (sent (fst (handlePacking env si inp)))"
    using assms(2) by (simp add: runHandler_def inputHandlers_def)
  then show ?thesis using emits_input(4) [of env si inp] by (auto simp: emits_def list_all_iff)
next
  case False
  then show ?thesis using handler_emits [of si env h inp] assms(2) by (auto simp: emits_def list_all_iff)
qed

section \<open>Commitments on chain\<close>

text \<open>The commit message of the sector landed and succeeded, and the sector is in the miner's state.\<close>

definition commit_landed :: "sealing_env \<Rightarrow> sectorInfo \<Rightarrow> bool" where
  "commit_landed env si \<longleftrightarrow>
     (\<exists>msg mw so. si_CommitMessage si = Some msg \<and> ca_StateWaitMsg (sv_api env) 0 msg = Some mw \<and>
        ml_ExitCode mw = ExitOk \<and> ca_StateSectorGetInfo (sv_api env) (si_SectorNumber si) (ml_TipSet mw) = Some (Some so))"

lemma handleCommitWait_proving:
  "SectorProving \<in> set (sent (handleCommitWait env si)) \<longleftrightarrow> commit_landed env si"
  by (auto simp: handleCommitWait_def commit_landed_def split: option.splits exitCode.splits)

lemma proving_sent:
  assumes "handlerOf (si_State si) = Inr h" "SectorProving \<in> set (sent (fst (runHandler env h si inp)))"
  shows "commit_landed env si"
proof -
  have "h = ''handleCommitWait''"
    using sent_event [OF assms] sender [OF proving_by] by auto
  then show ?thesis using assms(2) handleCommitWait_proving by (simp add: run_plain)
qed

section \<open>Closed runs\<close>

text \<open>
  Events that are not sent by handlers: a restart, the operator's requests, the deal input and the
  start of a packing timer.
\<close>

definition outside :: "event \<Rightarrow> bool" where
  "outside e \<longleftrightarrow> e \<in> {SectorRestart, SectorRemove, SectorTerminate, SectorAddPiece, SectorStartPacking,
     SectorMarkForUpdate, SectorStartCCUpdate, SectorAbortUpgrade}"

text \<open>
  A closed run of one sector: handlers are run on the sector as it is at some moment, with any
  answers of the world, and planning calls take any batch of events that came from outside or from a
  handler that was run before. The history lists the runs of handlers.
\<close>

inductive pipeline :: "sectorInfo \<Rightarrow> (sealing_env \<times> sectorInfo \<times> event list) list \<Rightarrow> sectorInfo \<Rightarrow> bool" for si0 where
  start: "pipeline si0 [] si0"
| handler: "pipeline si0 h si \<Longrightarrow> handlerOf (si_State si) = Inr nm \<Longrightarrow>
     pipeline si0 (h @ [(env, si, sent (fst (runHandler env nm si inp)))]) si"
| planning: "pipeline si0 h si \<Longrightarrow> list_all (\<lambda>e. outside e \<or> (\<exists>(env, s, es) \<in> set h. e \<in> set es)) events \<Longrightarrow>
     Plan penv keep events si ss = Some st \<Longrightarrow> pipeline si0 h (fs_si st)"

lemma pipeline_runs:
  assumes "pipeline si0 h si"
  shows "\<exists>evs. runs si0 evs si \<and> list_all (\<lambda>e. outside e \<or> (\<exists>(env, s, es) \<in> set h. e \<in> set es)) evs"
  using assms
proof induction
  case start
  show ?case by (auto intro: exI [of _ "[]"] runs.start)
next
  case (handler h si nm env inp)
  then show ?case by (fastforce simp: list_all_iff)
next
  case (planning h si events penv keep ss st)
  then obtain evs where "runs si0 evs si" "list_all (\<lambda>e. outside e \<or> (\<exists>(env, s, es) \<in> set h. e \<in> set es)) evs" by blast
  then show ?case using planning.hyps(2,3) by (auto intro!: exI [of _ "evs @ events"] runs.plan_more)
qed

lemma pipeline_sent:
  assumes "pipeline si0 h si" "(env, s, es) \<in> set h" "e \<in> set es"
  shows "\<exists>nm inp. handlerOf (si_State s) = Inr nm \<and> es = sent (fst (runHandler env nm s inp))"
  using assms by induction auto

lemma pipeline_events:
  assumes "pipeline si0 h si" "outside e \<or> (\<exists>(env, s, es) \<in> set h. e \<in> set es)"
  shows "pipelineEvent e"
  using assms pipeline_sent [OF assms(1)] sent_event by (fastforce simp: outside_def pipelineEvent_def)

text \<open>The number of a sector stays the same once it has been started.\<close>

definition started :: "event \<Rightarrow> bool" where
  "started e \<longleftrightarrow> typeOf e \<notin> {''SectorStart'', ''SectorStartCC'', ''SectorReceive''}"

lemma apply_event_SectorNumber:
  "apply_event now e si = Some si' \<Longrightarrow> started e \<Longrightarrow> si_SectorNumber si' = si_SectorNumber si"
  by (cases e) (auto simp: apply_defs started_def split: if_splits)

lemma committing_SectorNumber:
  "committing_event now e si = Some (Inr (si', stop)) \<Longrightarrow> started e \<Longrightarrow> si_SectorNumber si' = si_SectorNumber si"
  by (cases e)
     (auto simp: committing_event_def globalMutator_def applyGlobal_def maybeNotifyRemoteDone_def apply_defs started_def
       split: if_splits)

interpretation num: sector_invariant started "\<lambda>h si. si_SectorNumber si = n" for n
proof
  fix h :: "event list" and si :: sectorInfo and e
  assume "si_SectorNumber si = n" "globalMutator e"
  then show "si_SectorNumber (fst (applyGlobal e si)) = n"
    using applyGlobal_cases [of e] by (auto simp: applyGlobal_def maybeNotifyRemoteDone_def)
next
  fix h :: "event list" and si :: sectorInfo and e act now si1
  assume "si_SectorNumber si = n" "started e" "apply_event now e si = Some si1"
  then show "si_SectorNumber (snd (next_action act si1)) = n"
    using apply_event_SectorNumber by (auto simp: next_action_def maybeNotifyRemoteDone_def split: action.split option.split)
next
  fix h :: "event list" and si :: sectorInfo and e now and si' :: sectorInfo and stop
  assume "si_SectorNumber si = n" "started e" "committing_event now e si = Some (Inr (si', stop))"
  then show "si_SectorNumber si' = n" using committing_SectorNumber by simp
qed simp_all

lemma started_by:
  "list_all (\<lambda>(n, ts). list_all (\<lambda>t. t \<notin> {''SectorStart'', ''SectorStartCC'', ''SectorReceive''}) ts) (inputEvents @ plainEvents)"
  by (simp add: inputEvents_def plainEvents_def)

lemma pipeline_started:
  assumes "pipeline si0 h si" "outside e \<or> (\<exists>(env, s, es) \<in> set h. e \<in> set es)"
  shows "started e"
proof (cases "outside e")
  case True
  then show ?thesis by (auto simp: outside_def started_def)
next
  case False
  then obtain env s es where h: "(env, s, es) \<in> set h" "e \<in> set es" using assms(2) by blast
  then obtain nm inp where nm: "handlerOf (si_State s) = Inr nm" "es = sent (fst (runHandler env nm s inp))"
    using pipeline_sent [OF assms(1)] by blast
  show ?thesis
    using sent_event [OF nm(1), of e env inp] h(2) nm(2) eventsOf_mem [of "typeOf e" nm] started_by
    by (auto simp: started_def list_all_iff)
qed

lemma pipeline_number:
  assumes "pipeline si0 h si"
  shows "si_SectorNumber si = si_SectorNumber si0 \<and> (\<forall>(env, s, es) \<in> set h. si_SectorNumber s = si_SectorNumber si0)"
  using assms
proof induction
  case (planning h si events penv keep ss st)
  have "list_all started events"
    using planning.hyps(1,2) pipeline_started by (auto simp: list_all_iff)
  then show ?case using num.Plan_keeps [OF planning.hyps(3)] planning.IH by auto
qed auto

text \<open>
  Property C4: a sector that starts off the chain is treated as committed only if a handler
  saw its commit message land: the message succeeded and the sector of that number was in the
  miner's state on chain. This holds for every run of planners and handlers together, whatever
  the node, the sealer and the operator do, and in whatever order and batches the events arrive.
\<close>

theorem on_chain_states_are_backed:
  assumes "pipeline si0 h si" "\<not> onChain (si_State si0)" "si_Return si0 = None" "onChain (si_State si)"
  shows "\<exists>(env, s, es) \<in> set h. si_SectorNumber s = si_SectorNumber si \<and> commit_landed env s"
proof -
  obtain evs where r: "runs si0 evs si"
      and from_h: "list_all (\<lambda>e. outside e \<or> (\<exists>(env, s, es) \<in> set h. e \<in> set es)) evs"
    using pipeline_runs [OF assms(1)] by blast
  have "list_all pipelineEvent evs"
    using from_h pipeline_events [OF assms(1)] by (auto simp: list_all_iff)
  then have "SectorProving \<in> set evs"
    using gate.runs_keep [OF r] assms(2-4) by (simp add: commit_gate_def)
  then obtain env s es where h: "(env, s, es) \<in> set h" "SectorProving \<in> set es"
    using from_h by (auto simp: list_all_iff outside_def)
  then obtain nm inp where "handlerOf (si_State s) = Inr nm" "es = sent (fst (runHandler env nm s inp))"
    using pipeline_sent [OF assms(1)] by blast
  then have "commit_landed env s" using proving_sent h(2) by blast
  then show ?thesis using h(1) pipeline_number [OF assms(1)] by fastforce
qed

section \<open>A concrete world\<close>

text \<open>
  A node, a sealer and a configuration in which everything works: the precommit landed at epoch
  850, its seed is \<open>[7]\<close> at epoch 1000, and the only valid proof is \<open>[42]\<close>.
\<close>

definition fineInfo :: sectorPreCommitInfo where
  "fineInfo = \<lparr>pp_Expiration = 600000, pp_SectorNumber = 3, pp_SealProof = 8, pp_SealedCID = 21, pp_SealRandEpoch = 100,
     pp_DealIDs = [], pp_UnsealedCid = None\<rparr>"

definition fineApi :: chain_api where
  "fineApi =
    \<lparr>ca_ChainHead = (\<lambda>n. Some \<lparr>th_Key = [1], th_Height = 1100\<rparr>),
     ca_StateSectorPreCommitInfo = (\<lambda>sn tsk. Some (Some \<lparr>pc_Info = fineInfo, pc_PreCommitDeposit = 5, pc_PreCommitEpoch = 850\<rparr>)),
     ca_StateSectorGetInfo = (\<lambda>sn tsk. Some (Some \<lparr>so_SealedCID = 21, so_Expiration = 600000, so_InitialPledge = 10\<rparr>)),
     ca_StateMinerSectorAllocated = (\<lambda>sn tsk. Some True),
     ca_StateMarketStorageDeal = (\<lambda>d tsk. None),
     ca_StateComputeDataCID = (\<lambda>t ds tsk. Some 20),
     ca_StateGetRandomnessFromTickets = (\<lambda>ep buf tsk. Some [9]),
     ca_StateGetRandomnessFromBeacon = (\<lambda>ep buf tsk. Some [7]),
     ca_StateSearchMsg = (\<lambda>tsk c. Some None),
     ca_StateWaitMsg = (\<lambda>n c. Some \<lparr>ml_ExitCode = ExitOk, ml_Return = [], ml_TipSet = [1], ml_Height = 1050\<rparr>),
     ca_StateNetworkVersion = (\<lambda>tsk. Some 20),
     ca_StateSectorPartition = (\<lambda>sn tsk. Some (4, 0)),
     ca_StateMinerProvingDeadline = (\<lambda>tsk. Some \<lparr>dl_Index = 10, dl_WPoStPeriodDeadlines = 48, dl_NextOpen = 1160,
       dl_WPoStChallengeWindow = 60\<rparr>),
     ca_StateMinerDeadlines = (\<lambda>tsk. Some 1),
     ca_StateMinerPartitions = (\<lambda>dl tsk. Some [\<lambda>sn. Some True]),
     ca_StateMinerInfo = (\<lambda>tsk. Some \<lparr>mi_Worker = 100, mi_WindowPoStProofType = 8\<rparr>),
     ca_StateMinerAvailableBalance = (\<lambda>tsk. Some 1000),
     ca_StateMinerPreCommitDepositForPower = (\<lambda>info tsk. Some 5),
     ca_StateMinerInitialPledgeCollateral = (\<lambda>info tsk. Some 12),
     ca_StateLookupID = (\<lambda>a tsk. Some a),
     ca_StateGetAllocationForPendingDeal = (\<lambda>d tsk. Some None),
     ca_ChainGetMessage = (\<lambda>c. None),
     ca_MpoolPushMessage = (\<lambda>frm val fee params. Some 77)\<rparr>"

definition fineSealer :: sealer_api where
  "fineSealer =
    \<lparr>sa_AddPiece = (\<lambda>t sn sizes sz content. Some \<lparr>pi_Size = sz + sz div 127, pi_PieceCID = 1000 + unat sz\<rparr>),
     sa_SealPreCommit1 = (\<lambda>i t sn ticket ps. Inr [1, 2]),
     sa_SealPreCommit2 = (\<lambda>i t sn out. Inr (20, 21)),
     sa_SealCommit1 = (\<lambda>t sn ticket seed ps d r. Some [41]),
     sa_SealCommit2 = (\<lambda>t sn c1. Some [42]),
     sa_ReleaseUnsealed = (\<lambda>t sn rs. True),
     sa_FinalizeSector = (\<lambda>t sn. True),
     sa_ReplicaUpdate = (\<lambda>t sn ps. Some (31, 30)),
     sa_ProveReplicaUpdate1 = (\<lambda>t sn r s d. Some [51]),
     sa_ProveReplicaUpdate2 = (\<lambda>t sn r s d v. Some (Some [52])),
     sa_FinalizeReplicaUpdate = (\<lambda>t sn. True),
     sa_ReleaseReplicaUpgrade = (\<lambda>t sn. True),
     sa_ReleaseSectorKey = (\<lambda>t sn. True),
     sa_Remove = (\<lambda>t sn. True),
     sa_DownloadSectorData = (\<lambda>t sn fin fs. True)\<rparr>"

definition finePolicy :: actor_policy where
  "finePolicy =
    \<lparr>po_ChainFinality = 900, po_EpochsInDay = 2880, po_EpochDurationSeconds = 30, po_PreCommitChallengeDelay = 150,
     po_MinSectorExpiration = 518400, po_MinSectorExpiration_v8 = 518400, po_MinSectorExpiration_miner = 518400,
     po_WPoStProvingPeriod = 2880, po_VersionForNetwork = (\<lambda>nv. Some 12),
     po_MaxProveCommitDuration = (\<lambda>v t. 86400), po_MaxSectorExpirationExtension = (\<lambda>v. 1576800),
     po_DealMinDuration = 518400\<rparr>"

definition fineConfig :: sealing_config where
  "fineConfig =
    \<lparr>cfg_FinalizeEarly = False, cfg_MaxSealingSectorsForDeals = 0, cfg_MaxWaitDealsSectors = 0,
     cfg_PreferNewSectorsForDeals = False, cfg_MinUpgradeSectorExpiration = 0, cfg_MaxUpgradingSectors = 0,
     cfg_MakeNewSectorForDeals = True, cfg_MakeCCSectorsAvailable = False, cfg_WaitDealsDelay = 0,
     cfg_CommittedCapacitySectorLifetime = 0, cfg_StartEpochSealingBuffer = 480, cfg_AlwaysKeepUnsealedCopy = True,
     cfg_CollateralFromMinerBalance = False, cfg_AvailableBalanceBuffer = 0, cfg_DisableCollateralFallback = False,
     cfg_AggregateCommits = False, cfg_UseSyntheticPoRep = False\<rparr>"

definition fineEnv :: sealing_env where
  "fineEnv =
    \<lparr>sv_api = fineApi, sv_sealer = fineSealer, sv_policy = finePolicy, sv_config = Some fineConfig, sv_maddr = 1000,
     sv_maddrBuf = Some [0], sv_now = 0, sv_cancelled = False, sv_fuel = 3, sv_provingBuffer = 0,
     sv_uint64Seconds = (\<lambda>d. word_of_int (d div 1000000000)), sv_MaxCommitGasFee = 1,
     sv_BlockDelaySecs = 30, sv_unpadded = (\<lambda>p. p - p div 128), sv_padded = (\<lambda>u. u + u div 127),
     sv_ZeroPieceCommitment = (\<lambda>sz. 1000 + unat sz), sv_SectorSize = (\<lambda>t. Some 2048),
     sv_RegisteredUpdateProof = (\<lambda>t. Some 3), sv_PreferredSealProofType = (\<lambda>v p s. Some 8),
     sv_VerifySeal = (\<lambda>info. Some (sv_SealProofBytes info = [42])),
     sv_commitParams = (\<lambda>sn p. Some [1]), sv_updateParams = (\<lambda>u. Some [2]),
     sv_AddPreCommit = (\<lambda>si dep info. Some \<lparr>pb_Msg = Some 70, pb_Error = ''''\<rparr>),
     sv_AddCommit = (\<lambda>si ai. Some \<lparr>cb_FailedSectors = [], cb_Msg = Some 71, cb_Error = ''''\<rparr>),
     sv_AddTermination = (\<lambda>sn. Some (72, False)), sv_AddressFor = (\<lambda>mi good mn. Some 100),
     sv_remoteCommit1 = (\<lambda>si. RemoteError), sv_remoteCommit2 = (\<lambda>si c1. RemoteError),
     sv_ChainAt = (\<lambda>n h. AtReached), sv_PublishReturn = (\<lambda>r nv. None), sv_PublishParams = (\<lambda>p. None)\<rparr>"

definition emptyInput :: inputState where
  "emptyInput = \<lparr>in_openSectors = [], in_sectorTimers = [], in_pendingPieces = [], in_assignedPieces = [],
     in_nextDealSector = None, in_available = [], in_answers = [], in_updates = 0\<rparr>"

lemmas fine_defs = fineEnv_def fineApi_def fineSealer_def finePolicy_def fineConfig_def fineInfo_def

text \<open>Witness of C4: the commit message lands and the sector is finalized.\<close>

theorem on_chain_states_are_backed_witness:
  "\<exists>si. pipeline (zeroSector\<lparr>si_State := CommitWait, si_CommitMessage := Some 77\<rparr>)
       [(fineEnv, zeroSector\<lparr>si_State := CommitWait, si_CommitMessage := Some 77\<rparr>, [SectorProving])] si
     \<and> si_State si = FinalizeSector
     \<and> commit_landed fineEnv (zeroSector\<lparr>si_State := CommitWait, si_CommitMessage := Some 77\<rparr>)"
proof -
  let ?s = "zeroSector\<lparr>si_State := CommitWait, si_CommitMessage := Some 77\<rparr>"
  have hd: "handlerOf (si_State ?s) = Inr ''handleCommitWait''" by (simp add: handlerOf_def)
  have sent: "sent (fst (runHandler fineEnv ''handleCommitWait'' ?s emptyInput)) = [SectorProving]"
    by (simp add: run_plain handleCommitWait_def fine_defs)
  have "map_option si_State (drive [SectorProving] ?s) = Some FinalizeSector"
    unfolding zeroSector_def
    by (simp add: drive_on planners_at event_eval next_action_def handlerOf_def del: drive.simps(2))
  then obtain st where st: "Plan quietEnv False [SectorProving] ?s zeroStats = Some st" "si_State (fs_si st) = FinalizeSector"
    by (auto split: option.splits)
  have p: "pipeline ?s [(fineEnv, ?s, [SectorProving])] (fs_si st)"
    using pipeline.planning [OF pipeline.handler [OF pipeline.start hd, of fineEnv emptyInput] _ st(1)] sent by simp
  have "\<exists>(env, s, es) \<in> set [(fineEnv, ?s, [SectorProving])]. si_SectorNumber s = si_SectorNumber (fs_si st) \<and> commit_landed env s"
    by (rule on_chain_states_are_backed [OF p]) (simp_all add: zeroSector_def onChain_def st(2))
  then show ?thesis using p st(2) by auto
qed

end
