(* ===== verification/Sealing_Loop.thy ===== *)
theory Sealing_Loop
  imports Sealing_Safety
begin

text \<open>
  Handlers and planners together. The events a handler can answer with are collected by the name of
  the handler; the planner of every state that starts the handler has a rule for each of them, with
  two exceptions. The safety of the pipeline rests on what the handlers checked before they answer.
\<close>

section \<open>Planners accept the events of the handlers\<close>

text \<open>The types of events that the planner of a state takes.\<close>

definition acceptedTypes :: "sectorState \<Rightarrow> string list" where
  "acceptedTypes st =
     [''SectorRestart'', ''SectorFatalError'', ''SectorForceState'', ''SectorTerminate'', ''SectorRemove''] @
     (case fsmPlanners st of
        Some (PlanOne ts) \<Rightarrow> map fst ts
      | Some (PlanOneOrIgnore ts) \<Rightarrow> map fst ts
      | Some PlanCommitting \<Rightarrow>
          [''SectorCommitted'', ''SectorProofReady'', ''SectorSeedReady'', ''SectorComputeProofFailed'',
           ''SectorRemoteCommit1Failed'', ''SectorRemoteCommit2Failed'', ''SectorSealPreCommit1Failed'',
           ''SectorCommitFailed'', ''SectorRetryCommitWait'']
      | _ \<Rightarrow> [])"

text \<open>The two pairs of a state and an event of its handler that the planner has no rule for.\<close>

definition unplanned :: "(sectorState \<times> string) list" where
  "unplanned = [(GetTicket, ''SectorSealPreCommit1Failed''), (FaultReported, ''SectorFaultedFinal'')]"

lemma handlers_accepted:
  "list_all (\<lambda>st. case handlerOf st of
       Inl _ \<Rightarrow> True
     | Inr h \<Rightarrow> list_all (\<lambda>t. t \<in> set (acceptedTypes st) \<or> (st, t) \<in> set unplanned) (eventsOf h))
     ExistSectorStateList"
  by (simp only: ExistSectorStateList_def list.pred_inject handlerOf_def sectorState.case sum.case eventsOf_def
        inputEvents_def plainEvents_def acceptedTypes_def unplanned_def lookup_simps planner.case option.case if_True if_False
        list.map append.simps list.set insert_iff sectorState.distinct sectorState.inject simp_thms prod.inject list.inject char.inject)
     simp

lemma handlerOf_exists: "handlerOf st = Inr h \<Longrightarrow> st \<in> set ExistSectorStateList"
  by (cases st) (simp_all add: handlerOf_def ExistSectorStateList_def)

lemma accepted_SnapDealsPacking: "{''SectorPacked'', ''SectorAbortUpgrade''} \<subseteq> set (acceptedTypes SnapDealsPacking)"
  by (simp only: acceptedTypes_def lookup_simps option.case planner.case list.map list.set append.simps insert_iff
      insert_subset) simp

lemma handler_event_accepted:
  assumes "handlerOf (si_State si) = Inr h" "e \<in> set (sent (fst (runHandler env h si inp)))"
    and "(si_State si, typeOf e) \<notin> set unplanned"
  shows "typeOf e \<in> set (acceptedTypes (si_State si))"
proof (cases "si_State si = SnapDealsPacking")
  case True
  then have "h = ''handlePacking''" using assms(1) by (simp add: handlerOf_def)
  then have "e \<in> set (sent (fst (handlePacking env si inp)))"
    using assms(2) by (simp add: runHandler_def inputHandlers_def)
  then have "typeOf e \<in> {''SectorPacked'', ''SectorAbortUpgrade''}"
    using emits_input(4) [of env si inp] by (auto simp: emits_def list_all_iff)
  then show ?thesis using accepted_SnapDealsPacking True by auto
next
  case False
  then have "typeOf e \<in> set (eventsOf h)"
    using handler_emits [of si env h inp] assms(2) by (auto simp: emits_def list_all_iff)
  then show ?thesis
    using handlers_accepted [unfolded list_all_iff, THEN bspec, OF handlerOf_exists [OF assms(1)]] assms(1,3) by auto
qed

text \<open>The errors by which a planner refuses an event.\<close>

definition refused :: "fsm_error \<Rightarrow> bool" where
  "refused err = (case err of
     ErrUnexpectedEvent _ \<Rightarrow> True | ErrUnknownCommitting _ \<Rightarrow> True | ErrFinalState \<Rightarrow> True | ErrNoPlanner \<Rightarrow> True
   | _ \<Rightarrow> False)"

lemma globalMutator_type:
  "globalMutator e \<longleftrightarrow>
     typeOf e \<in> {''SectorRestart'', ''SectorFatalError'', ''SectorForceState'', ''SectorTerminate'', ''SectorRemove''}"
  by (cases e) (simp_all add: globalMutator_def)

lemma committing_accepts:
  assumes "committing_event now e si = Some (Inl err)"
  shows "\<not> globalMutator e \<and> typeOf e \<notin> {''SectorCommitted'', ''SectorProofReady'', ''SectorSeedReady'',
     ''SectorComputeProofFailed'', ''SectorRemoteCommit1Failed'', ''SectorRemoteCommit2Failed'',
     ''SectorSealPreCommit1Failed'', ''SectorCommitFailed'', ''SectorRetryCommitWait''}"
  using assms by (cases e) (auto simp: committing_event_def globalMutator_def split: if_splits)

lemma next_action_not_refused: "next_action act si = (Inl err, si') \<Longrightarrow> \<not> refused err"
  by (auto simp: next_action_def refused_def split: action.splits option.splits)

lemma planOne_not_refused:
  assumes "planOne now ts 0 [e] si = Some (n, Some err, si')" "globalMutator e \<or> typeOf e \<in> fst ` set ts"
  shows "\<not> refused err"
proof (cases "globalMutator e")
  case True
  then show ?thesis using assms by simp
next
  case False
  then obtain act where "map_of ts (typeOf e) = Some act"
    using assms(2) by (metis map_of_eq_None_iff not_None_eq)
  then show ?thesis
    using assms(1) False
    by (auto dest: next_action_not_refused split: option.splits prod.splits sum.splits if_splits)
qed

lemma run_planner_not_refused:
  assumes "fsmPlanners st = Some p" "typeOf e \<in> set (acceptedTypes st)"
    and "run_planner now p [e] si = Some (n, Some err, si')"
  shows "\<not> refused err"
proof (cases p)
  case (PlanOne ts)
  then show ?thesis
    using assms planOne_not_refused [of now ts e si n err si']
    by (auto simp: run_planner_def acceptedTypes_def globalMutator_type)
next
  case (PlanOneOrIgnore ts)
  then show ?thesis using assms(3) by (auto simp: run_planner_def planOneOrIgnore_def split: option.splits prod.splits)
next
  case PlanCommitting
  then show ?thesis
    using assms committing_accepts [of now e si]
    by (auto simp: run_planner_def acceptedTypes_def globalMutator_type split: option.splits sum.splits prod.splits if_splits)
next
  case Final
  then show ?thesis using assms by (auto simp: run_planner_def final_def acceptedTypes_def globalMutator_type split: if_splits)
next
  case FinalRemoved
  then show ?thesis using assms by (auto simp: run_planner_def finalRemoved_def)
qed

lemma plan_not_refused:
  assumes "typeOf e \<in> set (acceptedTypes (si_State si))" "fsmPlanners (si_State si) \<noteq> None"
    and "plan penv [e] si ss = Some pl" "pl_next pl = Inl err"
  shows "\<not> refused err"
proof -
  obtain p where p: "fsmPlanners (si_State si) = Some p" using assms(2) by blast
  have later: "\<not> refused err" if "handlerOf st = Inl err" for st
    using that by (cases st) (auto simp: handlerOf_def refused_def)
  have next_: "pl_next (plan_next penv n si1 ss) = handlerOf (si_State si1)" for n si1
    by (simp add: plan_next_def split: prod.split)
  show ?thesis
    using assms(3,4)
    by (auto simp: plan_def planner_for_def p next_ Let_def simp del: logEvents.simps dest!: run_planner_not_refused [OF p assms(1)] later
        split: option.splits)
qed

text \<open>
  Property C7: whatever event a handler answers with is taken by the planner of the state
  that started the handler, so a sector never gets stuck between the two: planning that event in
  that state is not refused. The two exceptions are the failure to get a ticket in \<open>GetTicket\<close> and
  the end of a reported fault in \<open>FaultReported\<close>.
\<close>

theorem handlers_match_planners:
  assumes "handlerOf (si_State si) = Inr h" "e \<in> set (sent (fst (runHandler env h si inp)))"
    and "(si_State si, typeOf e) \<notin> set unplanned"
    and "si_State si' = si_State si" "plan penv [e] si' ss = Some pl"
  shows "case pl_next pl of Inl err \<Rightarrow> \<not> refused err | Inr _ \<Rightarrow> True"
proof (cases "pl_next pl")
  case (Inl err)
  have "typeOf e \<in> set (acceptedTypes (si_State si'))" using handler_event_accepted [OF assms(1,2,3)] assms(4) by simp
  moreover have "fsmPlanners (si_State si') \<noteq> None"
    using assms(1,4) by (auto simp: planner_states handlerOf_def)
  ultimately show ?thesis using plan_not_refused [OF _ _ assms(5) Inl] Inl by simp
qed simp

text \<open>Witness of C7: the commit message of a sector has landed, and its handler says so.\<close>

theorem handlers_match_planners_witness:
  "\<exists>pl. plan quietEnv [SectorProving] (zeroSector\<lparr>si_State := CommitWait, si_CommitMessage := Some 77\<rparr>) zeroStats = Some pl
     \<and> (case pl_next pl of Inl err \<Rightarrow> \<not> refused err | Inr _ \<Rightarrow> True)"
proof -
  let ?s = "zeroSector\<lparr>si_State := CommitWait, si_CommitMessage := Some 77\<rparr>"
  have h: "handlerOf (si_State ?s) = Inr ''handleCommitWait''" by (simp add: handlerOf_def)
  have e: "SectorProving \<in> set (sent (fst (runHandler fineEnv ''handleCommitWait'' ?s emptyInput)))"
    by (simp add: run_plain handleCommitWait_def fine_defs)
  have "drive [SectorProving] ?s \<noteq> None"
    unfolding zeroSector_def
    by (simp add: drive_on planners_at event_eval next_action_def handlerOf_def del: drive.simps(2))
  then obtain pl where pl: "plan quietEnv [SectorProving] ?s zeroStats = Some pl"
    by (auto simp: Plan_def split: option.splits)
  have "(si_State ?s, typeOf SectorProving) \<notin> set unplanned" by (simp add: unplanned_def)
  from handlers_match_planners [OF h e this refl pl] pl show ?thesis by blast
qed

end
