(* ===== verification/Sealing_Outcomes.thy ===== *)
theory Sealing_Outcomes
  imports Sealing_Safety
begin

text \<open>
  What the single handlers guarantee when they answer: a proof is verified before it is stored or
  submitted, the expiration of a precommit is one the chain accepts, recovered deal identifiers can
  be applied, the filler pieces fill the sector.
\<close>

section \<open>Seal proofs\<close>

text \<open>
  A seal proof checked against the chain at a tipset: the sector is precommitted there, its seed is
  the beacon's randomness at the epoch that follows from the precommit, and the proof verifies for
  the ticket and seed of the sector and the replica that was precommitted.
\<close>

definition seal_verified :: "sealing_env \<Rightarrow> sectorInfo \<Rightarrow> bytes \<Rightarrow> bytes \<Rightarrow> bool" where
  "seal_verified env si proof tsk \<longleftrightarrow>
     (\<exists>pci buf commD.
        ca_StateSectorPreCommitInfo (sv_api env) (si_SectorNumber si) tsk = Some (Some pci) \<and>
        si_SeedEpoch si = pc_PreCommitEpoch pci + po_PreCommitChallengeDelay (sv_policy env) \<and>
        sv_maddrBuf env = Some buf \<and>
        ca_StateGetRandomnessFromBeacon (sv_api env) (si_SeedEpoch si) buf tsk = Some (si_SeedValue si) \<and>
        si_CommD si = Some commD \<and>
        sv_VerifySeal env (commitVerifyInfo si pci proof commD) = Some True)"

lemma checkCommit_verified: "checkCommit env n si proof tsk = CheckOk \<Longrightarrow> seal_verified env si proof tsk"
  unfolding checkCommit_def checkCommit_proof_def seal_verified_def
  by (auto split: option.splits if_splits)

lemma proofReady_verified:
  assumes "e \<in> set (sent (proofReady env cfg si p))" "e = SectorCommitted q \<or> e = SectorProofReady q"
  shows "q = p \<and> (\<exists>ts. ca_ChainHead (sv_api env) 0 = Some ts \<and> seal_verified env si p (th_Key ts))"
  using assms by (auto simp: proofReady_def dest: checkCommit_verified split: option.splits checkResult.splits if_splits)

lemma commit_phase_events:
  "commit1 env si d r = Inl out \<Longrightarrow> SectorCommitted q \<notin> set (sent out) \<and> SectorProofReady q \<notin> set (sent out)"
  "commit2 env si c = Inl out \<Longrightarrow> SectorCommitted q \<notin> set (sent out) \<and> SectorProofReady q \<notin> set (sent out)"
  by (auto simp: commit1_def commit2_def split: option.splits remote.splits if_splits)

lemma handleCommitting_verified:
  assumes "e \<in> set (sent (handleCommitting env si))" "e = SectorCommitted q \<or> e = SectorProofReady q"
  shows "\<exists>ts. ca_ChainHead (sv_api env) 0 = Some ts \<and> seal_verified env si q (th_Key ts)"
proof -
  have "e \<in> set (sent (computeCommit env si))"
    using assms by (auto simp: handleCommitting_def split: option.splits)
  then show ?thesis
    using assms(2) commit_phase_events
    by (auto simp: computeCommit_def dest!: proofReady_verified split: option.splits sum.splits)
qed

lemma handleSubmitCommit_verified:
  assumes "SectorCommitSubmitted m \<in> set (sent (handleSubmitCommit env si))"
  shows "\<exists>ts. ca_ChainHead (sv_api env) 0 = Some ts \<and> seal_verified env si (si_Proof si) (th_Key ts)"
  using assms
  by (auto simp: handleSubmitCommit_def submitCommitSingle_def dest: checkCommit_verified
      split: option.splits checkResult.splits if_splits)

text \<open>The proof that an event stores in the sector or announces to have submitted.\<close>

definition proofOf :: "event \<Rightarrow> sectorInfo \<Rightarrow> bytes option" where
  "proofOf e si = (case e of
     SectorCommitted p \<Rightarrow> Some p | SectorProofReady p \<Rightarrow> Some p | SectorCommitSubmitted m \<Rightarrow> Some (si_Proof si)
   | _ \<Rightarrow> None)"

lemma proofOf_types:
  "proofOf e si = Some p \<Longrightarrow> (\<exists>q. e = SectorCommitted q \<and> p = q) \<or> (\<exists>q. e = SectorProofReady q \<and> p = q)
     \<or> (\<exists>m. e = SectorCommitSubmitted m \<and> p = si_Proof si)"
  by (cases e) (simp_all add: proofOf_def)

text \<open>
  Property C6: no unverified seal proof gets into the sector or onto the chain on its own:
  whatever handler runs in whatever state, an event that stores a proof in the sector, or tells
  that the sector's proof was submitted in a message of its own, is sent only after that proof was
  verified against the precommit, ticket and seed on chain at the current head.
\<close>

theorem proofs_are_verified:
  assumes "handlerOf (si_State si) = Inr h" "e \<in> set (sent (fst (runHandler env h si inp)))" "proofOf e si = Some p"
  shows "\<exists>ts. ca_ChainHead (sv_api env) 0 = Some ts \<and> seal_verified env si p (th_Key ts)"
proof -
  note ev = sent_event [OF assms(1,2)]
  consider (store) "e = SectorCommitted p \<or> e = SectorProofReady p" | (submit) m where "e = SectorCommitSubmitted m" "p = si_Proof si"
    using proofOf_types [OF assms(3)] by blast
  then show ?thesis
  proof cases
    case store
    then have "h = ''handleCommitting''"
      using ev sender [OF committed_by] sender [OF proof_ready_by] by auto
    then show ?thesis using handleCommitting_verified [OF _ store] assms(2) by (simp add: run_plain)
  next
    case submit
    then have "h = ''handleSubmitCommit''" using ev sender [OF submitted_by] by auto
    then show ?thesis using handleSubmitCommit_verified [of m env si] assms(2) submit by (simp add: run_plain)
  qed
qed

text \<open>Witness of C6: computing the proof of a precommitted sector.\<close>

definition committingSector :: sectorInfo where
  "committingSector = zeroSector\<lparr>si_State := Committing, si_SectorNumber := 3, si_SectorType := 8, si_TicketValue := [9],
     si_TicketEpoch := 100, si_SeedValue := [7], si_SeedEpoch := 1000, si_CommD := Some 20, si_CommR := Some 21\<rparr>"

theorem proofs_are_verified_witness:
  "SectorCommitted [42] \<in> set (sent (fst (runHandler fineEnv ''handleCommitting'' committingSector emptyInput)))
   \<and> (\<exists>ts. ca_ChainHead (sv_api fineEnv) 0 = Some ts \<and> seal_verified fineEnv committingSector [42] (th_Key ts))"
proof -
  have h: "handlerOf (si_State committingSector) = Inr ''handleCommitting''"
    by (simp add: committingSector_def handlerOf_def)
  have e: "SectorCommitted [42] \<in> set (sent (fst (runHandler fineEnv ''handleCommitting'' committingSector emptyInput)))"
    by (simp add: run_plain handleCommitting_def computeCommit_def commit1_def commit2_def proofReady_def checkCommit_def
        checkCommit_proof_def commitVerifyInfo_def checkPieces_def committingSector_def zeroSector_def fine_defs)
  show ?thesis using proofs_are_verified [OF h e] e by (simp add: proofOf_def)
qed

section \<open>The expiration of a precommit\<close>

text \<open>
  The epochs and durations that go into a precommit's expiration are in a range in which their
  sums do not wrap around.
\<close>

abbreviation inRange :: "int \<Rightarrow> bool" where
  "inRange e \<equiv> 0 \<le> e \<and> e < 2 ^ 60"

definition epochsInRange :: "sealing_env \<Rightarrow> sectorInfo \<Rightarrow> tipsetHead \<Rightarrow> bool" where
  "epochsInRange env si ts \<longleftrightarrow>
     inRange (th_Height ts) \<and> inRange (si_TicketEpoch si) \<and> inRange (MaxPreCommitRandomnessLookback (sv_policy env))
   \<and> inRange (po_PreCommitChallengeDelay (sv_policy env)) \<and> inRange (po_MinSectorExpiration_miner (sv_policy env))
   \<and> (\<forall>av t msd. GetMaxProveCommitDuration (sv_policy env) av t = Some msd \<longrightarrow> inRange msd)
   \<and> (\<forall>nv ext. GetMaxSectorExpirationExtension (sv_policy env) nv = Some ext \<longrightarrow> inRange ext)"

lemma wrap64_range: "- (2 ^ 62) \<le> x \<Longrightarrow> x \<le> 2 ^ 62 \<Longrightarrow> wrap64 x = x"
  by (rule wrap64_id) (simp add: is_int64_def)

lemma checkPrecommit_fresh:
  "checkPrecommit env n si tsk height = CheckOk \<Longrightarrow>
     wrap64 (height - MaxPreCommitRandomnessLookback (sv_policy env)) \<le> si_TicketEpoch si \<and>
     ca_StateSectorPreCommitInfo (sv_api env) (si_SectorNumber si) tsk = Some None"
  by (auto simp: checkPrecommit_def Let_def split: checkResult.splits option.splits if_splits)

lemma clampExpiration_eq:
  assumes "epochsInRange env si ts" "inRange msd" "inRange ext"
  shows "clampExpiration env si (th_Height ts) msd ext e =
    min (max e (si_TicketEpoch si + MaxPreCommitRandomnessLookback (sv_policy env) + msd + po_MinSectorExpiration_miner (sv_policy env)))
        (th_Height ts + po_PreCommitChallengeDelay (sv_policy env) + ext)"
proof -
  have "wrap64 (si_TicketEpoch si + MaxPreCommitRandomnessLookback (sv_policy env) + msd + po_MinSectorExpiration_miner (sv_policy env))
      = si_TicketEpoch si + MaxPreCommitRandomnessLookback (sv_policy env) + msd + po_MinSectorExpiration_miner (sv_policy env)"
    "wrap64 (th_Height ts + po_PreCommitChallengeDelay (sv_policy env) + ext) = th_Height ts + po_PreCommitChallengeDelay (sv_policy env) + ext"
    by (rule wrap64_range; use assms in \<open>simp add: epochsInRange_def\<close>)+
  then show ?thesis unfolding clampExpiration_def Let_def by (simp add: min_def max_def)
qed

lemma preCommitParams_expiration:
  assumes "preCommitParams env si ts = PCParams params dep"
  shows "\<exists>nv av msd ext e. ca_StateNetworkVersion (sv_api env) (th_Key ts) = Some nv \<and>
    po_VersionForNetwork (sv_policy env) nv = Some av \<and>
    GetMaxProveCommitDuration (sv_policy env) av (si_SectorType si) = Some msd \<and>
    GetMaxSectorExpirationExtension (sv_policy env) nv = Some ext \<and> Expiration env 2 (si_Pieces si) = Some e \<and>
    pp_Expiration params = clampExpiration env si (th_Height ts) msd ext e"
  using assms by (auto simp: preCommitParams_def Let_def split: option.splits)

text \<open>
  Property C15: the expiration of a precommit is the one that the policy asks for, moved into the
  window that the chain accepts: at least the minimal lifetime of a sector, the
  prove-commit duration and the randomness lookback after the ticket, but not later than the longest
  extension after the challenge delay from the head. As the ticket is not older than the
  lookback, the sector lives, unless the latest expiration is earlier, for the minimal lifetime after the
  last epoch at which a precommit landing at the head can be proven. Parameters are made only for
  a sector that is not precommitted yet. Epochs and durations are between 0 and \<open>2 ^ 60\<close>.
\<close>

theorem precommit_expiration_bounds:
  assumes "preCommitInfo env si = PCParams params deposit"
    and "ca_ChainHead (sv_api env) 0 = Some ts" "epochsInRange env si ts"
  shows "\<exists>nv av msd ext e.
    ca_StateNetworkVersion (sv_api env) (th_Key ts) = Some nv \<and>
    po_VersionForNetwork (sv_policy env) nv = Some av \<and>
    GetMaxProveCommitDuration (sv_policy env) av (si_SectorType si) = Some msd \<and>
    GetMaxSectorExpirationExtension (sv_policy env) nv = Some ext \<and>
    Expiration env 2 (si_Pieces si) = Some e \<and>
    pp_Expiration params =
      min (max e (si_TicketEpoch si + MaxPreCommitRandomnessLookback (sv_policy env) + msd + po_MinSectorExpiration_miner (sv_policy env)))
          (th_Height ts + po_PreCommitChallengeDelay (sv_policy env) + ext) \<and>
    min (th_Height ts + msd + po_MinSectorExpiration_miner (sv_policy env))
        (th_Height ts + po_PreCommitChallengeDelay (sv_policy env) + ext) \<le> pp_Expiration params \<and>
    ca_StateSectorPreCommitInfo (sv_api env) (si_SectorNumber si) (th_Key ts) = Some None"
proof -
  have ok: "checkPrecommit env 1 si (th_Key ts) (th_Height ts) = CheckOk"
      and pc: "preCommitParams env si ts = PCParams params deposit"
    using assms(1,2) by (auto simp: preCommitInfo_def split: checkResult.splits checkErr.splits)
  obtain nv av msd ext e where p: "ca_StateNetworkVersion (sv_api env) (th_Key ts) = Some nv"
      "po_VersionForNetwork (sv_policy env) nv = Some av"
      "GetMaxProveCommitDuration (sv_policy env) av (si_SectorType si) = Some msd"
      "GetMaxSectorExpirationExtension (sv_policy env) nv = Some ext" "Expiration env 2 (si_Pieces si) = Some e"
      "pp_Expiration params = clampExpiration env si (th_Height ts) msd ext e"
    using preCommitParams_expiration [OF pc] by blast
  have "inRange msd" "inRange ext" using assms(3) p(3,4) unfolding epochsInRange_def by blast+
  note eq = clampExpiration_eq [OF assms(3) this, of e, folded p(6)]
  have "wrap64 (th_Height ts - MaxPreCommitRandomnessLookback (sv_policy env)) = th_Height ts - MaxPreCommitRandomnessLookback (sv_policy env)"
    by (rule wrap64_range; use assms(3) in \<open>simp add: epochsInRange_def\<close>)
  then have "th_Height ts \<le> si_TicketEpoch si + MaxPreCommitRandomnessLookback (sv_policy env)"
    using checkPrecommit_fresh [OF ok] by linarith
  then have low: "min (th_Height ts + msd + po_MinSectorExpiration_miner (sv_policy env))
      (th_Height ts + po_PreCommitChallengeDelay (sv_policy env) + ext) \<le> pp_Expiration params"
    unfolding eq by linarith
  show ?thesis using p(1-5) eq low checkPrecommit_fresh [OF ok] by blast
qed

text \<open>Witness of C15: an empty sector at epoch 1100, with the longest lifetime.\<close>

definition uncommittedEnv :: sealing_env where
  "uncommittedEnv = fineEnv\<lparr>sv_api := fineApi\<lparr>ca_StateSectorPreCommitInfo := (\<lambda>sn tsk. Some None),
     ca_StateMinerSectorAllocated := (\<lambda>sn tsk. Some False)\<rparr>\<rparr>"

theorem precommit_expiration_bounds_witness:
  "\<exists>params e. preCommitInfo uncommittedEnv committingSector = PCParams params 5
     \<and> Expiration uncommittedEnv 2 [] = Some e
     \<and> pp_Expiration params = min (max e (100 + 3780 + 86400 + 518400)) (1100 + 150 + 1576800)"
proof -
  let ?ts = "\<lparr>th_Key = [1], th_Height = 1100\<rparr>"
  obtain params where p: "preCommitInfo uncommittedEnv committingSector = PCParams params 5"
    by (simp add: preCommitInfo_def preCommitParams_def checkPrecommit_def checkPieces_def Expiration_def
        getCCSectorLifetime_def GetMaxSectorExpirationExtension_def GetMaxProveCommitDuration_def supportedActors_def
        MaxPreCommitRandomnessLookback_def SealRandomnessLookback_def hasDeals_def uncommittedEnv_def wrap64_def
        committingSector_def zeroSector_def fine_defs)
  have h: "ca_ChainHead (sv_api uncommittedEnv) 0 = Some ?ts" by (simp add: uncommittedEnv_def fine_defs)
  have r: "epochsInRange uncommittedEnv committingSector ?ts"
    by (simp add: epochsInRange_def uncommittedEnv_def committingSector_def zeroSector_def MaxPreCommitRandomnessLookback_def
        SealRandomnessLookback_def GetMaxSectorExpirationExtension_def GetMaxProveCommitDuration_def fine_defs split: if_splits)
  show ?thesis
    using precommit_expiration_bounds [OF p h r] p
    by (auto simp: uncommittedEnv_def GetMaxSectorExpirationExtension_def GetMaxProveCommitDuration_def supportedActors_def
        MaxPreCommitRandomnessLookback_def SealRandomnessLookback_def committingSector_def zeroSector_def fine_defs split: if_splits)
qed

section \<open>Recovered deal identifiers\<close>

text \<open>A deal that is on chain under an identifier with the commitment of a piece.\<close>

definition dealOnChain :: "sealing_env \<Rightarrow> bytes \<Rightarrow> nat \<Rightarrow> sectorPiece \<Rightarrow> bool" where
  "dealOnChain env tsk d p \<longleftrightarrow>
     (\<exists>deal. ca_StateMarketStorageDeal (sv_api env) d tsk = Some deal \<and> dp_PieceCID deal = pi_PieceCID (sp_Piece p))"

text \<open>A piece with a deal is either to be fixed or its deal is on chain; other pieces are not fixed.\<close>

lemma toFix_loop_complete:
  assumes "toFix_loop env ts i fx pad ps = Some (fx', pad')" "j < length ps"
  shows "set fx \<subseteq> set fx' \<and>
    (\<forall>di. sp_DealInfo (ps ! j) = Some di \<longrightarrow> i + j \<in> set fx' \<or> dealOnChain env (th_Key ts) (di_DealID di) (ps ! j))"
  using assms
proof (induction ps arbitrary: i fx pad j)
  case (Cons p ps)
  have mono: "set fx \<subseteq> set fx'" if "toFix_loop env ts i fx pad qs = Some (fx', pad')" for i fx pad qs
    using that by (induction qs arbitrary: i fx pad)
      (force simp: Let_def split: option.splits if_splits)+
  show ?case
  proof (cases j)
    case 0
    then show ?thesis
      using Cons.prems(1) mono
      by (auto simp: Let_def dealOnChain_def split: option.splits if_splits) fastforce+
  next
    case (Suc k)
    then show ?thesis
      using Cons.prems Cons.IH [where j = k and i = "i + 1"]
      by (auto simp: Let_def split: option.splits if_splits) fastforce+
  qed
qed simp

lemma GetCurrentDealInfo_market:
  "GetCurrentDealInfo env tsk proposal c = GoOk res \<Longrightarrow>
     ca_StateMarketStorageDeal (sv_api env) (cd_DealID res) tsk = Some (cd_MarketDeal res)"
  by (auto simp: GetCurrentDealInfo_def Let_def split: go.splits option.splits if_splits)

lemma recover_loop_ok:
  assumes "recover_loop env tsk pieces failed ups is = GoOk (0, ups')" "gm_ok ups"
  shows "failed = 0 \<and> gm_ok ups' \<and>
    (\<forall>j \<in> set is. j < length pieces \<and> sp_DealInfo (pieces ! j) \<noteq> None \<and>
       (\<exists>d. map_of ups' (int j) = Some d \<and> dealOnChain env tsk d (pieces ! j))) \<and>
    (\<forall>k. k \<notin> int ` set is \<longrightarrow> map_of ups' k = map_of ups k)"
  using assms
proof (induction "is" arbitrary: failed ups)
  case (Cons i "is")
  from Cons.prems obtain di c where i: "i < length pieces" "sp_DealInfo (pieces ! i) = Some di" "di_PublishCid di = Some c"
    by (auto split: option.splits if_splits)
  from Cons.prems i consider
      (fail) "recover_loop env tsk pieces (failed + 1) ups is = GoOk (0, ups')"
    | (ok) res where "GetCurrentDealInfo env tsk (di_DealProposal di) c = GoOk res"
        "dp_PieceCID (cd_MarketDeal res) = pi_PieceCID (sp_Piece (pieces ! i))"
        "recover_loop env tsk pieces failed (gm_set (int i) (cd_DealID res) ups) is = GoOk (0, ups')"
    by (auto split: go.splits if_splits)
  then show ?case
  proof cases
    case fail
    then show ?thesis using Cons.IH [OF fail Cons.prems(2)] by simp
  next
    case ok
    have on: "dealOnChain env tsk (cd_DealID res) (pieces ! i)"
      using GetCurrentDealInfo_market [OF ok(1)] ok(2) by (simp add: dealOnChain_def)
    note IH = Cons.IH [OF ok(3) gm_ok_set [OF Cons.prems(2)]]
    have Q: "\<exists>d. map_of ups' (int i) = Some d \<and> dealOnChain env tsk d (pieces ! i)"
    proof (cases "i \<in> set is")
      case True
      then show ?thesis using IH by blast
    next
      case False
      then have "int i \<notin> int ` set is" by auto
      then have "map_of ups' (int i) = map_of (gm_set (int i) (cd_DealID res) ups) (int i)" using IH by blast
      also have "\<dots> = Some (cd_DealID res)" by (simp only: gm_get_set if_True simp_thms)
      finally show ?thesis using on by blast
    qed
    have rest: "map_of ups' k = map_of ups k" if "k \<notin> int ` set (i # is)" for k
    proof -
      have "map_of ups' k = map_of (gm_set (int i) (cd_DealID res) ups) k" using IH that by auto
      then show ?thesis using that by auto
    qed
    have "failed = 0" "gm_ok ups'" using IH by blast+
    then show ?thesis using IH Q i(1,2) rest by (simp only: list.set) blast
  qed
qed simp

definition withDealID :: "nat option \<Rightarrow> sectorPiece \<Rightarrow> sectorPiece" where
  "withDealID u p = (case u of None \<Rightarrow> p | Some d \<Rightarrow> p\<lparr>sp_DealInfo := map_option (di_DealID_update (\<lambda>_. d)) (sp_DealInfo p)\<rparr>)"

lemma updateDealIDs_ok:
  assumes "gm_ok us" "\<forall>k \<in> fst ` set us. \<exists>j < length ps. k = int j \<and> sp_DealInfo (ps ! j) \<noteq> None"
  shows "\<exists>ps'. updateDealIDs us ps = Some ps' \<and> length ps' = length ps \<and>
    (\<forall>j < length ps. ps' ! j = withDealID (map_of us (int j)) (ps ! j))"
  using assms
proof (induction us arbitrary: ps)
  case Nil
  then show ?case by (simp add: withDealID_def)
next
  case (Cons u us)
  obtain k d where u: "u = (k, d)" by (cases u)
  obtain j di where j: "j < length ps" "k = int j" "sp_DealInfo (ps ! j) = Some di" using Cons.prems(2) u by auto
  let ?ps1 = "ps[j := (ps ! j)\<lparr>sp_DealInfo := Some (di\<lparr>di_DealID := d\<rparr>)\<rparr>]"
  have "\<forall>k \<in> fst ` set us. \<exists>j < length ?ps1. k = int j \<and> sp_DealInfo (?ps1 ! j) \<noteq> None"
    using Cons.prems u j(2) by (fastforce simp: nth_list_update)
  then obtain ps' where ps': "updateDealIDs us ?ps1 = Some ps'" "length ps' = length ps"
      "\<And>i. i < length ps \<Longrightarrow> ps' ! i = withDealID (map_of us (int i)) (?ps1 ! i)"
    using Cons.IH [of ?ps1] Cons.prems(1) by auto
  have "map_of us (int j) = None" using Cons.prems(1) u j(2) by (simp add: map_of_eq_None_iff image_iff)
  then have "ps' ! i = withDealID (map_of (u # us) (int i)) (ps ! i)" if "i < length ps" for i
    using ps'(3) [OF that] u j by (auto simp: withDealID_def nth_list_update)
  then show ?case using ps'(1,2) u j by auto
qed

text \<open>
  Property C16: when the recovery of deal identifiers succeeds, its event can be applied
  (the indices are in range and the pieces have a deal), the pieces themselves stay as they are,
  and afterwards every deal of the sector is on chain with the commitment of its piece, at one
  of the two heads the handler saw.
\<close>

theorem recovered_deals_on_chain:
  assumes "SectorUpdateDealIDs us \<in> set (sent (handleRecoverDealIDsOrFailWith env si failWith))"
    and "failWith \<noteq> SectorUpdateDealIDs us"
  shows "\<exists>ts0 ts1 si'. ca_ChainHead (sv_api env) 0 = Some ts0 \<and> ca_ChainHead (sv_api env) 1 = Some ts1 \<and>
    apply_event now (SectorUpdateDealIDs us) si = Some si' \<and>
    map sp_Piece (si_Pieces si') = map sp_Piece (si_Pieces si) \<and>
    (\<forall>p \<in> set (si_Pieces si'). \<forall>di. sp_DealInfo p = Some di \<longrightarrow>
       dealOnChain env (th_Key ts0) (di_DealID di) p \<or> dealOnChain env (th_Key ts1) (di_DealID di) p)"
proof -
  obtain ts0 ts1 toFix pad where h: "ca_ChainHead (sv_api env) 0 = Some ts0" "ca_ChainHead (sv_api env) 1 = Some ts1"
      "toFix_loop env ts0 0 [] 0 (si_Pieces si) = Some (toFix, pad)"
      "recover_loop env (th_Key ts1) (si_Pieces si) 0 [] toFix = GoOk (0, us)"
    using assms
    by (auto simp: handleRecoverDealIDsOrFailWith_def recoveryPiecesToFix_def split: option.splits go.splits if_splits)
  have "gm_ok ([] :: (int, nat) gomap)" by simp
  note r = recover_loop_ok [OF h(4) this]
  have keys: "fst ` set us \<subseteq> int ` set toFix"
  proof
    fix k assume "k \<in> fst ` set us"
    then have "map_of us k \<noteq> None" by (simp add: map_of_eq_None_iff)
    then show "k \<in> int ` set toFix" using r by auto
  qed
  obtain ps' where ps': "updateDealIDs us (si_Pieces si) = Some ps'" "length ps' = length (si_Pieces si)"
      "\<And>j. j < length (si_Pieces si) \<Longrightarrow> ps' ! j = withDealID (map_of us (int j)) (si_Pieces si ! j)"
    using updateDealIDs_ok [of us "si_Pieces si"] r keys by fastforce
  have piece: "sp_Piece (ps' ! j) = sp_Piece (si_Pieces si ! j)" if "j < length (si_Pieces si)" for j
    using ps'(3) [OF that] by (simp add: withDealID_def split: option.split)
  have deal: "dealOnChain env (th_Key ts0) (di_DealID di) (ps' ! j) \<or> dealOnChain env (th_Key ts1) (di_DealID di) (ps' ! j)"
    if j: "j < length (si_Pieces si)" and di: "sp_DealInfo (ps' ! j) = Some di" for j di
  proof (cases "j \<in> set toFix")
    case True
    then obtain d where d: "map_of us (int j) = Some d" "dealOnChain env (th_Key ts1) d (si_Pieces si ! j)" using r by blast
    then have "di_DealID di = d" using ps'(3) [OF j] di by (auto simp: withDealID_def simp del: map_of_eq_Some_iff)
    then show ?thesis using d(2) piece [OF j] by (simp add: dealOnChain_def)
  next
    case False
    then have "int j \<notin> int ` set toFix" by auto
    then have "map_of us (int j) = map_of [] (int j)" using r by blast
    then have "ps' ! j = si_Pieces si ! j" using ps'(3) [OF j] by (simp add: withDealID_def)
    then show ?thesis using toFix_loop_complete [OF h(3) j] False di by auto
  qed
  have all: "\<forall>p \<in> set ps'. \<forall>di. sp_DealInfo p = Some di \<longrightarrow>
      dealOnChain env (th_Key ts0) (di_DealID di) p \<or> dealOnChain env (th_Key ts1) (di_DealID di) p"
    using deal ps'(2) by (metis in_set_conv_nth)
  have "map sp_Piece ps' = map sp_Piece (si_Pieces si)"
    using ps'(2) piece by (simp add: list_eq_iff_nth_eq)
  moreover have "apply_event now (SectorUpdateDealIDs us) si = Some (si\<lparr>si_Pieces := ps'\<rparr>)"
    using ps'(1) by (simp add: apply_defs)
  ultimately show ?thesis using h(1,2) all by (intro exI [of _ ts0] exI [of _ ts1] exI [of _ "si\<lparr>si_Pieces := ps'\<rparr>"]) simp
qed

text \<open>Witness of C16: a deal that moved from identifier 4 to 5.\<close>

definition movedDeal :: dealProposal where
  "movedDeal = \<lparr>dp_PieceCID = 55, dp_PieceSize = 1024, dp_VerifiedDeal = False, dp_Client = 7, dp_Provider = 1000,
     dp_Label = '''', dp_StartEpoch = 5000, dp_EndEpoch = 600000, dp_StoragePricePerEpoch = 0, dp_ProviderCollateral = 0,
     dp_ClientCollateral = 0\<rparr>"

definition movedSector :: sectorInfo where
  "movedSector = zeroSector\<lparr>si_State := RecoverDealIDs, si_Pieces :=
     [\<lparr>sp_Piece = \<lparr>pi_Size = 1024, pi_PieceCID = 55\<rparr>,
       sp_DealInfo = Some \<lparr>di_PublishCid = Some 90, di_DealID = 4, di_DealProposal = None, di_EndEpoch = 600000, di_KeepUnsealed = True\<rparr>\<rparr>]\<rparr>"

definition movedEnv :: sealing_env where
  "movedEnv = fineEnv\<lparr>sv_api := fineApi\<lparr>
       ca_StateMarketStorageDeal := (\<lambda>d tsk. if d = 5 then Some movedDeal else None),
       ca_StateSearchMsg := (\<lambda>tsk c. Some (Some \<lparr>ml_ExitCode = ExitOk, ml_Return = [5], ml_TipSet = [1], ml_Height = 1000\<rparr>))\<rparr>,
     sv_PublishReturn := (\<lambda>r nv. Some (Some r, \<lambda>i. None))\<rparr>"

theorem recovered_deals_on_chain_witness:
  "sent (HandleRecoverDealIDs movedEnv movedSector) = [SectorUpdateDealIDs [(0, 5)]] \<and>
   (\<exists>si'. apply_event 1 (SectorUpdateDealIDs [(0, 5)]) movedSector = Some si')"
proof -
  have e: "sent (handleRecoverDealIDsOrFailWith movedEnv movedSector SectorRemove) = [SectorUpdateDealIDs [(0, 5)]]"
    by (simp add: handleRecoverDealIDsOrFailWith_def recoveryPiecesToFix_def GetCurrentDealInfo_def
        dealIDFromPublishDealsMsg_def movedEnv_def movedSector_def movedDeal_def zeroSector_def fine_defs)
  have "\<exists>si'. apply_event 1 (SectorUpdateDealIDs [(0, 5)]) movedSector = Some si'"
    using recovered_deals_on_chain [of "[(0, 5)]" movedEnv movedSector SectorRemove 1] e by auto
  then show ?thesis using e by (simp add: HandleRecoverDealIDs_def)
qed

end
