(* ===== verification/Sealing_Packing.thy ===== *)
theory Sealing_Packing
  imports Sealing_Safety
begin

text \<open>
  Filling up a sector. The loop that takes the free bytes apart runs over the set bits of the number,
  lowest first; the pieces it yields are powers of two that add up to the free space.
\<close>

section \<open>The powers of two in a number\<close>

definition setBits :: "64 word \<Rightarrow> nat list" where
  "setBits w = filter (bit w) [0..<64]"

lemma filter_first:
  "filter P xs = y # ys \<Longrightarrow> length (takeWhile (\<lambda>x. \<not> P x) xs) < length xs \<and> xs ! length (takeWhile (\<lambda>x. \<not> P x) xs) = y"
  by (induction xs) (auto split: if_splits)

lemma TrailingZeros64_first: "setBits w = k # ks \<Longrightarrow> TrailingZeros64 w = k"
  using filter_first [of "bit w" "[0..<64]" k ks] nth_upt [of 0 "TrailingZeros64 w" 64]
  by (auto simp: setBits_def TrailingZeros64_def)

lemma setBits_clear:
  assumes "setBits w = k # ks"
  shows "setBits (w XOR push_bit k 1) = ks"
proof -
  have k: "k \<in> set (setBits w)" by (simp add: assms)
  have d: "distinct (setBits w)" by (simp add: setBits_def)
  have "setBits (w XOR push_bit k 1) = filter (\<lambda>j. bit w j \<and> j \<noteq> k) [0..<64]"
    unfolding setBits_def using k
    by (intro filter_cong) (auto simp: setBits_def bit_simps)
  also have "\<dots> = filter (\<lambda>j. j \<noteq> k) (setBits w)" by (simp add: setBits_def conj_commute)
  also have "\<dots> = ks" using d assms by (auto simp: filter_id_conv)
  finally show ?thesis .
qed

lemma powers_loop_bits: "powers_loop (length (setBits w)) w = map (\<lambda>k. push_bit k 1) (setBits w)"
proof (induction "setBits w" arbitrary: w)
  case Nil
  then show ?case by (metis list.size(3) list.simps(8) powers_loop.simps(1))
next
  case (Cons k ks)
  note s = Cons.hyps(2) [symmetric]
  show ?case
    using Cons.hyps(1) [of "w XOR push_bit k 1"] setBits_clear [OF s] TrailingZeros64_first [OF s]
    by (simp add: s Let_def)
qed

lemma powers_of: "powers_loop (OnesCount64 w) w = map (\<lambda>k. push_bit k 1) (setBits w)"
  using powers_loop_bits by (simp add: OnesCount64_def setBits_def)

lemma sum_setBits: "sum_list (map (\<lambda>k. 2 ^ k) (setBits w)) = unat w"
proof -
  have "sum_list (map (\<lambda>k. 2 ^ k) (setBits w)) = (\<Sum>k \<leftarrow> [0..<64]. if bit w k then 2 ^ k else 0 :: nat)"
    by (simp add: setBits_def sum_list_map_filter')
  also have "\<dots> = (\<Sum>k = 0..<64. push_bit k (of_bool (bit (unat w) k)))"
    by (simp add: interv_sum_list_conv_sum_set_nat) (rule sum.cong, auto simp: bit_simps push_bit_eq_mult)
  also have "\<dots> = take_bit 64 (unat w)" by (simp add: take_bit_sum)
  also have "\<dots> = unat w" by (simp add: take_bit_nat_eq_self_iff unsigned_less [where 'b = 64, simplified])
  finally show ?thesis .
qed

lemma unat_power [simp]: "k < 64 \<Longrightarrow> unat (2 ^ k :: 64 word) = 2 ^ k"
  using unsigned_push_bit_eq [of k "1 :: 64 word", where 'a = nat]
  by (simp add: take_bit_nat_eq_self power_strict_increasing)

section \<open>Filler pieces\<close>

text \<open>What the pipeline relies on of \<^verbatim>\<open>abi.PaddedPieceSize.Unpadded\<close>: one byte in 128 is lost.\<close>

definition unpads :: "sealing_env \<Rightarrow> bool" where
  "unpads env \<longleftrightarrow> (\<forall>k < 64. 7 \<le> k \<longrightarrow> sv_unpadded env (push_bit k 1) = push_bit k 1 - push_bit (k - 7) 1)"

lemma unpadded_power:
  assumes "unpads env" "7 \<le> k" "k < 64"
  shows "128 * unat (sv_unpadded env (push_bit k 1)) = 127 * 2 ^ k"
proof -
  have le: "(push_bit (k - 7) 1 :: 64 word) \<le> push_bit k 1"
    using assms by (simp add: word_le_nat_alt power_increasing)
  have "(2 :: nat) ^ k = 128 * 2 ^ (k - 7)" using assms(2) power_add [of "2 :: nat" 7 "k - 7"] by simp
  then show ?thesis using assms le by (simp add: unpads_def unat_sub)
qed

lemma toFill_padded:
  assumes "127 dvd unat (rem :: 64 word)" "unat rem < 127 * 2 ^ 57"
  shows "unat (rem + rem div 127) = 128 * (unat rem div 127)"
proof -
  obtain q where q: "unat rem = 127 * q" using assms(1) by (elim dvdE)
  have "128 * q < 2 ^ 64" using assms(2) by (simp add: q)
  then show ?thesis
    by (simp add: unat_word_ariths unat_div unsigned_numeral take_bit_nat_def q)
qed

lemma setBits_multiple:
  assumes "unat w = 128 * q" "k \<in> set (setBits w)"
  shows "7 \<le> k \<and> k < 64"
proof -
  have "bit w k" "k < 64" using assms(2) by (auto simp: setBits_def)
  then have "bit (unat w) k" by (simp add: bit_simps)
  moreover have "unat w = push_bit 7 q" using assms(1) by (simp add: push_bit_eq_mult)
  ultimately show ?thesis using \<open>k < 64\<close> by (simp add: bit_simps)
qed

lemma fillers_sum:
  assumes "unpads env" "127 dvd unat rem" "unat rem < 127 * 2 ^ 57"
  shows "sum_list (map unat (fillersFromRem env rem)) = unat rem"
proof -
  let ?w = "rem + rem div 127"
  note w = toFill_padded [OF assms(2,3)]
  have f: "fillersFromRem env rem = map (\<lambda>k. sv_unpadded env (push_bit k 1)) (setBits ?w)"
    by (simp add: fillersFromRem_def Let_def powers_of)
  have "128 * sum_list (map unat (fillersFromRem env rem)) = (\<Sum>k \<leftarrow> setBits ?w. 128 * unat (sv_unpadded env (push_bit k 1)))"
    by (simp add: f sum_list_const_mult o_def)
  also have "\<dots> = (\<Sum>k \<leftarrow> setBits ?w. 127 * 2 ^ k)"
    using setBits_multiple [OF w] unpadded_power [OF assms(1)] by (intro arg_cong [where f = sum_list] map_cong) auto
  also have "\<dots> = 127 * unat ?w" by (simp add: sum_list_const_mult sum_setBits)
  also have "\<dots> = 128 * unat rem" using w assms(2) by (metis dvd_mult_div_cancel mult.left_commute)
  finally show ?thesis by simp
qed

section \<open>Packing\<close>

lemma unat_sum_list:
  "sum_list (map unat ws) < 2 ^ 64 \<Longrightarrow> unat (sum_list ws :: 64 word) = sum_list (map unat ws)"
proof (induction ws)
  case (Cons w ws)
  then show ?case by (simp add: unat_word_ariths)
qed simp

lemma dvd_sum_list: "\<forall>x \<in> set xs. (d :: nat) dvd x \<Longrightarrow> d dvd sum_list xs"
  by (induction xs) auto

text \<open>What the pipeline relies on of the sealer's \<^verbatim>\<open>AddPiece\<close>: the piece it reports has the size that was written.\<close>

definition adds_sized :: "sealing_env \<Rightarrow> bool" where
  "adds_sized env \<longleftrightarrow>
     (\<forall>t sn sizes sz content ppi.
        sa_AddPiece (sv_sealer env) t sn sizes sz content = Some ppi \<longrightarrow> sv_unpadded env (pi_Size ppi) = sz)"

lemma padSector_sizes:
  assumes "adds_sized env"
  shows "padSector env si existing sizes = Some fs \<Longrightarrow>
    map (\<lambda>p. sv_unpadded env (pi_Size p)) fs = sizes
    \<and> (\<forall>p \<in> set fs. pi_PieceCID p = sv_ZeroPieceCommitment env (sv_unpadded env (pi_Size p)))"
  using assms
  by (induction env si existing sizes arbitrary: fs rule: padSector.induct)
    (fastforce simp: adds_sized_def split: option.splits if_splits)+

lemma fillSector_packed:
  assumes "SectorPacked fs \<in> set (sent (fillSector env si))"
  obtains ssize where "sv_SectorSize env (si_SectorType si) = Some ssize"
    "sum_list (existingPieceSizes (sv_unpadded env) si) \<le> sv_unpadded env ssize"
    "padSector env si (existingPieceSizes (sv_unpadded env) si)
       (fillersFromRem env (sv_unpadded env ssize - sum_list (existingPieceSizes (sv_unpadded env) si))) = Some fs"
  using assms by (auto simp: fillSector_def Let_def not_less split: option.splits if_splits)

lemma handlePacking_packed:
  "SectorPacked fs \<in> set (sent (fst (handlePacking env si inp))) \<Longrightarrow> SectorPacked fs \<in> set (sent (fillSector env si))"
  by (auto simp: handlePacking_def split: option.splits if_splits)

text \<open>
  Property C14. Packing fills the sector exactly: when \<^verbatim>\<open>handlePacking\<close> sends
  \<^verbatim>\<open>SectorPacked\<close>, the pieces of the sector after the event add up to the sector's unpadded
  size, and every piece it added is a piece of zeroes. Relied on: the sealer reports the size it has
  written, unpadding loses one byte in 128, sizes are whole multiples of 127 and the sizes of
  the deal pieces add up without wrapping around.
\<close>

theorem packed_sector_is_full:
  assumes "SectorPacked fs \<in> set (sent (fst (handlePacking env si inp)))"
    and "unpads env" "adds_sized env"
    and "sv_SectorSize env (si_SectorType si) = Some ssize"
    and "127 dvd unat (sv_unpadded env ssize)" "unat (sv_unpadded env ssize) < 127 * 2 ^ 57"
    and "\<forall>s \<in> set (existingPieceSizes (sv_unpadded env) si). 127 dvd unat s"
    and "sum_list (map unat (existingPieceSizes (sv_unpadded env) si)) < 2 ^ 64"
  shows "\<exists>si'. apply_event now (SectorPacked fs) si = Some si'
    \<and> sum_list (map unat (existingPieceSizes (sv_unpadded env) si')) = unat (sv_unpadded env ssize)
    \<and> (\<forall>p \<in> set fs. pi_PieceCID p = sv_ZeroPieceCommitment env (sv_unpadded env (pi_Size p)))"
proof -
  let ?sizes = "existingPieceSizes (sv_unpadded env) si" and ?u = "sv_unpadded env ssize"
  have le: "sum_list ?sizes \<le> ?u"
    and pad: "padSector env si ?sizes (fillersFromRem env (?u - sum_list ?sizes)) = Some fs"
    using fillSector_packed [OF handlePacking_packed [OF assms(1)]] assms(4) by auto
  note fs = padSector_sizes [OF assms(3) pad]
  have s: "unat (sum_list ?sizes) = sum_list (map unat ?sizes)" by (rule unat_sum_list [OF assms(8)])
  have r: "unat (?u - sum_list ?sizes) = unat ?u - sum_list (map unat ?sizes)"
    using le s by (simp add: unat_sub)
  have "127 dvd sum_list (map unat ?sizes)"
    using assms(7) by (intro dvd_sum_list) auto
  then have "127 dvd unat (?u - sum_list ?sizes)" using assms(5) r by (simp add: dvd_diff_nat)
  then have "sum_list (map unat (fillersFromRem env (?u - sum_list ?sizes))) = unat ?u - sum_list (map unat ?sizes)"
    using fillers_sum [OF assms(2)] assms(6) r by simp
  moreover have "sum_list (map unat ?sizes) \<le> unat ?u" using le s by (simp add: word_le_nat_alt)
  moreover have "existingPieceSizes (sv_unpadded env) (si\<lparr>si_Pieces := si_Pieces si @ map filler fs\<rparr>)
      = ?sizes @ fillersFromRem env (?u - sum_list ?sizes)"
    using fs by (simp add: existingPieceSizes_def filler_def o_def)
  ultimately show ?thesis using fs by (simp add: apply_event_def)
qed

text \<open>A sealer that writes pieces of 1016 bytes, and a sector of 2048 that holds one deal piece of 1024.\<close>

definition halfSealer :: sealer_api where
  "halfSealer = fineSealer\<lparr>sa_AddPiece := (\<lambda>t sn sizes sz content.
     if sz = 1016 then Some \<lparr>pi_Size = 1024, pi_PieceCID = 1000 + unat sz\<rparr> else None)\<rparr>"

definition halfEnv :: sealing_env where
  "halfEnv = fineEnv\<lparr>sv_sealer := halfSealer\<rparr>"

definition halfSector :: sectorInfo where
  "halfSector = zeroSector\<lparr>si_State := Packing, si_Pieces := [filler \<lparr>pi_Size = 1024, pi_PieceCID = 5\<rparr>]\<rparr>"

lemma power_div_128: "7 \<le> k \<Longrightarrow> k < 64 \<Longrightarrow> (2 ^ k :: 64 word) div 128 = 2 ^ (k - 7)"
proof -
  assume k: "7 \<le> k" "k < 64"
  have "(2 :: nat) ^ k = 2 ^ (k - 7) * 128" using k(1) power_add [of "2 :: nat" 7 "k - 7"] by simp
  then have "unat ((2 ^ k :: 64 word) div 128) = unat (2 ^ (k - 7) :: 64 word)"
    using k by (simp add: unat_div)
  then show ?thesis by (simp add: word_unat_eq_iff)
qed

lemma halfEnv_unpads: "unpads halfEnv"
  by (simp add: unpads_def halfEnv_def fineEnv_def power_div_128)

lemma halfEnv_adds: "adds_sized halfEnv"
  by (auto simp: adds_sized_def halfEnv_def halfSealer_def fine_defs)

lemma halfSector_sizes:
  "existingPieceSizes (sv_unpadded halfEnv) halfSector = [1016]" "sv_unpadded halfEnv 2048 = 2032"
  "sv_SectorSize halfEnv (si_SectorType halfSector) = Some 2048"
  by code_simp+

lemma halfSector_pads:
  "padSector halfEnv halfSector [1016] (fillersFromRem halfEnv 1016) = Some [\<lparr>pi_Size = 1024, pi_PieceCID = 2016\<rparr>]"
  by code_simp

lemma halfSector_packed:
  "handlePacking halfEnv halfSector emptyInput = (Returns [SectorPacked [\<lparr>pi_Size = 1024, pi_PieceCID = 2016\<rparr>]], emptyInput)"
proof -
  have "si_State halfSector = Packing" by (simp add: halfSector_def)
  then show ?thesis
    using halfSector_pads halfSector_sizes
    by (simp add: handlePacking_def fillSector_def cleanupAssignedDeals_def assigned_to_def emptyInput_def)
qed

text \<open>Witness of C14: half of the sector is filled up.\<close>

theorem packed_sector_is_full_witness:
  "\<exists>si'. apply_event 0 (SectorPacked [\<lparr>pi_Size = 1024, pi_PieceCID = 2016\<rparr>]) halfSector = Some si'
    \<and> sum_list (map unat (existingPieceSizes (sv_unpadded halfEnv) si')) = 2032"
proof -
  have "SectorPacked [\<lparr>pi_Size = 1024, pi_PieceCID = 2016\<rparr>] \<in> set (sent (fst (handlePacking halfEnv halfSector emptyInput)))"
    by (simp add: halfSector_packed)
  from packed_sector_is_full [OF this halfEnv_unpads halfEnv_adds halfSector_sizes(3), of 0]
  show ?thesis by (auto simp: halfSector_sizes)
qed

end
