(* ===== verification/Sealing_Receive.thy ===== *)
theory Sealing_Receive
  imports Sealing_Safety
begin

text \<open>
  Sectors sealed elsewhere (storage/pipeline/receive.go): the metadata of the sector is checked
  against the chain before the sector enters the state machine, the more of it the later the state
  that it claims to be in. The file ends with what a sector that got in satisfies.
\<close>

section \<open>Metadata\<close>

text \<open>\<open>api.RemoteSectorMeta\<close>; the fields that are never read (precommit info, log) are left out.\<close>

record remoteSectorMeta =
  rm_State :: sectorState
  rm_Miner :: nat
  rm_Number :: nat
  rm_Type :: nat
  rm_Pieces :: "sectorPiece list"
  rm_TicketValue :: bytes
  rm_TicketEpoch :: int
  rm_PreCommit1Out :: bytes
  rm_CommD :: "cid option"
  rm_CommR :: "cid option"
  rm_PreCommitDeposit :: "tokenAmount option"
  rm_PreCommitMessage :: "cid option"
  rm_PreCommitTipSet :: bytes
  rm_SeedValue :: bytes
  rm_SeedEpoch :: int
  rm_CommitProof :: bytes
  rm_CommitMessage :: "cid option"
  rm_DataUnsealed :: "sectorLocation option"
  rm_DataSealed :: "sectorLocation option"
  rm_DataCache :: "sectorLocation option"
  rm_RemoteCommit1Endpoint :: string
  rm_RemoteCommit2Endpoint :: string
  rm_RemoteSealingDoneEndpoint :: string

text \<open>
  What the checks use of the packages for cids, multihashes and URLs, of the store of sectors and
  of the state machines: \<open>re_mid\<close> is the actor id of the miner's address (\<open>None\<close>: the conversion
  fails, which panics), \<open>re_sector\<close> what the store says about a sector, \<open>re_has\<close> whether there is a
  machine for it (\<open>None\<close> in both: an error), \<open>re_send\<close> whether the machine takes an event.
\<close>

record cidPrefix =
  px_Version :: nat
  px_Codec :: nat
  px_MhType :: nat
  px_MhLength :: nat

record receive_env =
  re_mid :: "nat option"
  re_sector :: "nat \<Rightarrow> bool option"
  re_has :: "nat \<Rightarrow> bool option"
  re_send :: "nat \<Rightarrow> event \<Rightarrow> bool"
  re_Prefix :: "cid \<Rightarrow> cidPrefix"
  re_urlParse :: "string \<Rightarrow> bool"
  re_RandomnessLength :: nat
  re_DagCBOR :: nat
  re_BLAKE2B_MIN :: nat
  re_FilCommitmentUnsealed :: nat
  re_FilCommitmentSealed :: nat
  re_SHA2_256_TRUNC254_PADDED :: nat
  re_POSEIDON_BLS12_381_A1_FC1 :: nat

definition checkMessagePrefix :: "receive_env \<Rightarrow> cid \<Rightarrow> bool" where
  "checkMessagePrefix re c =
     (let p = re_Prefix re c
      in px_Version p = 1 \<and> px_MhLength p = 32 \<and> px_MhType p = re_BLAKE2B_MIN re + 31 \<and> px_Codec p = re_DagCBOR re)"

section \<open>Checking the metadata\<close>

text \<open>
  \<open>checkSectorMeta\<close> is a switch over the claimed state whose cases fall through from the late
  states to the early ones, filling in the record of the sector. Each case is a function that
  ends in the next one. The last case is shared by all states.
\<close>

definition metaVerifyInfo :: "remoteSectorMeta \<Rightarrow> cid \<Rightarrow> cid \<Rightarrow> sealVerifyInfo" where
  "metaVerifyInfo meta commR commD =
     \<lparr>sv_SealProof = rm_Type meta, sv_SectorNumber = rm_Number meta, sv_Randomness = rm_TicketValue meta,
      sv_InteractiveRandomness = rm_SeedValue meta, sv_SealProofBytes = rm_CommitProof meta,
      sv_SealedCID = commR, sv_UnsealedCID = commD\<rparr>"

definition metaValid :: "sealing_env \<Rightarrow> remoteSectorMeta \<Rightarrow> bool go" where
  "metaValid env meta =
     (case (rm_CommR meta, rm_CommD meta) of
        (Some commR, Some commD) \<Rightarrow>
          (case sv_VerifySeal env (metaVerifyInfo meta commR commD) of
             None \<Rightarrow> GoErr
           | Some ok \<Rightarrow> if ok then GoOk True else GoErr)
      | _ \<Rightarrow> GoPanic)"

definition metaPacking :: "sealing_env \<Rightarrow> receive_env \<Rightarrow> bool \<Rightarrow> remoteSectorMeta \<Rightarrow> sectorInfo \<Rightarrow> sectorInfo go" where
  "metaPacking env re validatePoRep meta info =
     (let info1 = info\<lparr>si_Return := Some (rm_State meta), si_State := ReceiveSector, si_SectorNumber := rm_Number meta,
                       si_Pieces := rm_Pieces meta, si_SectorType := rm_Type meta\<rparr>;
          endpoint = rm_RemoteSealingDoneEndpoint meta
      in if endpoint \<noteq> '''' \<and> \<not> re_urlParse re endpoint then GoErr
         else case checkPieces env 1 (rm_Pieces meta) False of
           CheckPanic \<Rightarrow> GoPanic
         | CheckErr _ \<Rightarrow> GoErr
         | CheckOk \<Rightarrow>
             (case rm_DataUnsealed meta of
                None \<Rightarrow> GoErr
              | Some d \<Rightarrow>
                  (let info2 = (if endpoint \<noteq> '''' then info1\<lparr>si_RemoteSealingDoneEndpoint := endpoint\<rparr> else info1)
                               \<lparr>si_RemoteDataUnsealed := Some d\<rparr>
                   in if \<not> validatePoRep then GoOk info2
                      else case metaValid env meta of
                        GoOk _ \<Rightarrow> GoOk info2
                      | GoErr \<Rightarrow> GoErr
                      | GoPanic \<Rightarrow> GoPanic)))"

text \<open>The commitments have to be cids of the right kind.\<close>

definition commitmentsOk :: "receive_env \<Rightarrow> cid \<Rightarrow> cid \<Rightarrow> bool" where
  "commitmentsOk re commD commR =
     (let dp = re_Prefix re commD; rp = re_Prefix re commR
      in px_Version dp = 1 \<and> px_Codec dp = re_FilCommitmentUnsealed re
         \<and> px_MhType dp = re_SHA2_256_TRUNC254_PADDED re \<and> px_MhLength dp = 32
         \<and> px_Version rp = 1 \<and> px_Codec rp = re_FilCommitmentSealed re
         \<and> px_MhType rp = re_POSEIDON_BLS12_381_A1_FC1 re \<and> px_MhLength rp = 32)"

definition endpointsOk :: "receive_env \<Rightarrow> remoteSectorMeta \<Rightarrow> bool" where
  "endpointsOk re meta =
     ((rm_RemoteCommit1Endpoint meta \<noteq> '''' \<longrightarrow> re_urlParse re (rm_RemoteCommit1Endpoint meta))
      \<and> (rm_RemoteCommit2Endpoint meta \<noteq> '''' \<longrightarrow> re_urlParse re (rm_RemoteCommit2Endpoint meta)))"

text \<open>
  From \<open>PreCommitting\<close> on: the ticket is the chain's randomness, and the commitments and the
  locations of the sealed data are there. An endpoint that is not empty is a URL.
\<close>

definition metaPreCommitting ::
    "sealing_env \<Rightarrow> receive_env \<Rightarrow> tipsetHead \<Rightarrow> bool \<Rightarrow> remoteSectorMeta \<Rightarrow> sectorInfo \<Rightarrow> sectorInfo go" where
  "metaPreCommitting env re ts validatePoRep meta info =
     (if length (rm_TicketValue meta) \<noteq> re_RandomnessLength re then GoErr
      else case sv_maddrBuf env of
        None \<Rightarrow> GoErr
      | Some buf \<Rightarrow>
          (case ca_StateGetRandomnessFromTickets (sv_api env) (rm_TicketEpoch meta) buf (th_Key ts) of
             None \<Rightarrow> GoErr
           | Some rand \<Rightarrow>
               (if rand \<noteq> rm_TicketValue meta then GoErr
                else case (rm_CommD meta, rm_CommR meta) of
                  (Some commD, Some commR) \<Rightarrow>
                    (if \<not> commitmentsOk re commD commR then GoErr
                     else case (rm_DataSealed meta, rm_DataCache meta) of
                       (Some dataSealed, Some dataCache) \<Rightarrow>
                         (if \<not> endpointsOk re meta then GoErr
                          else metaPacking env re validatePoRep meta
                            (info\<lparr>si_TicketValue := rm_TicketValue meta, si_TicketEpoch := rm_TicketEpoch meta,
                                  si_PreCommit1Out := rm_PreCommit1Out meta, si_CommD := Some commD, si_CommR := Some commR,
                                  si_RemoteDataSealed := Some dataSealed, si_RemoteDataCache := Some dataCache,
                                  si_RemoteCommit1Endpoint := rm_RemoteCommit1Endpoint meta,
                                  si_RemoteCommit2Endpoint := rm_RemoteCommit2Endpoint meta,
                                  si_RemoteDataFinalized := (rm_RemoteCommit1Endpoint meta \<noteq> '''')\<rparr>))
                     | _ \<Rightarrow> GoErr)
                | _ \<Rightarrow> GoErr)))"

text \<open>
  From \<open>SubmitCommit\<close> on: the seed is the beacon's randomness, and the proof will be verified.
  The precommit message is imported only if the new record, which is empty, has one already.
\<close>

definition metaPreCommitMessage :: "receive_env \<Rightarrow> remoteSectorMeta \<Rightarrow> sectorInfo \<Rightarrow> sectorInfo go" where
  "metaPreCommitMessage re meta info =
     (if si_PreCommitMessage info = None then GoOk info
      else case rm_PreCommitMessage meta of
        None \<Rightarrow> GoPanic
      | Some m \<Rightarrow> if checkMessagePrefix re m then GoOk (info\<lparr>si_PreCommitMessage := Some m\<rparr>) else GoErr)"

definition metaSubmitCommit ::
    "sealing_env \<Rightarrow> receive_env \<Rightarrow> tipsetHead \<Rightarrow> remoteSectorMeta \<Rightarrow> sectorInfo \<Rightarrow> sectorInfo go" where
  "metaSubmitCommit env re ts meta info =
     (case rm_PreCommitDeposit meta of
        None \<Rightarrow> GoErr
      | Some deposit \<Rightarrow>
          (case metaPreCommitMessage re meta
                  (info\<lparr>si_PreCommitDeposit := deposit, si_PreCommitTipSet := rm_PreCommitTipSet meta\<rparr>) of
             GoErr \<Rightarrow> GoErr
           | GoPanic \<Rightarrow> GoPanic
           | GoOk info1 \<Rightarrow>
               (if length (rm_SeedValue meta) \<noteq> re_RandomnessLength re then GoErr
                else case sv_maddrBuf env of
                  None \<Rightarrow> GoErr
                | Some buf \<Rightarrow>
                    (case ca_StateGetRandomnessFromBeacon (sv_api env) (rm_SeedEpoch meta) buf (th_Key ts) of
                       None \<Rightarrow> GoErr
                     | Some rand \<Rightarrow>
                         (if rand \<noteq> rm_SeedValue meta then GoErr
                          else metaPreCommitting env re ts True meta
                            (info1\<lparr>si_SeedValue := rm_SeedValue meta, si_SeedEpoch := rm_SeedEpoch meta,
                                   si_Proof := rm_CommitProof meta\<rparr>))))))"

definition metaProving ::
    "sealing_env \<Rightarrow> receive_env \<Rightarrow> tipsetHead \<Rightarrow> remoteSectorMeta \<Rightarrow> sectorInfo \<Rightarrow> sectorInfo go" where
  "metaProving env re ts meta info =
     (case rm_CommitMessage meta of
        None \<Rightarrow> metaSubmitCommit env re ts meta info
      | Some m \<Rightarrow>
          (if checkMessagePrefix re m then metaSubmitCommit env re ts meta (info\<lparr>si_CommitMessage := Some m\<rparr>)
           else GoErr))"

definition metaState ::
    "sealing_env \<Rightarrow> receive_env \<Rightarrow> tipsetHead \<Rightarrow> remoteSectorMeta \<Rightarrow> sectorInfo go" where
  "metaState env re ts meta =
     (if rm_State meta \<in> {Proving, Available} then metaProving env re ts meta zeroSector
      else if rm_State meta = SubmitCommit then metaSubmitCommit env re ts meta zeroSector
      else if rm_State meta = PreCommitting then metaPreCommitting env re ts False meta zeroSector
      else if rm_State meta \<in> {GetTicket, Packing} then metaPacking env re False meta zeroSector
      else GoErr)"

definition checkSectorMeta :: "sealing_env \<Rightarrow> receive_env \<Rightarrow> remoteSectorMeta \<Rightarrow> sectorInfo go" where
  "checkSectorMeta env re meta =
     (case re_mid re of
        None \<Rightarrow> GoPanic
      | Some mid \<Rightarrow>
          (if rm_Miner meta \<noteq> mid then GoErr
           else if re_sector re (rm_Number meta) \<noteq> Some False then GoErr
           else case currentSealProof env of
             None \<Rightarrow> GoErr
           | Some spt \<Rightarrow>
               (if rm_Type meta \<noteq> spt then GoErr
                else case ca_ChainHead (sv_api env) 0 of
                  None \<Rightarrow> GoErr
                | Some ts \<Rightarrow> metaState env re ts meta)))"

text \<open>\<open>Receive\<close>: the event sent to a new state machine.\<close>

definition Receive :: "sealing_env \<Rightarrow> receive_env \<Rightarrow> remoteSectorMeta \<Rightarrow> event go" where
  "Receive env re meta =
     (case checkSectorMeta env re meta of
        GoErr \<Rightarrow> GoErr
      | GoPanic \<Rightarrow> GoPanic
      | GoOk si \<Rightarrow>
          (if re_has re (rm_Number meta) \<noteq> Some False then GoErr
           else if re_send re (rm_Number meta) (SectorReceive si) then GoOk (SectorReceive si)
           else GoErr))"

section \<open>What is imported\<close>

text \<open>The record that a sector gets in with, by the checks it had to pass.\<close>

definition importedFrom :: "remoteSectorMeta \<Rightarrow> sectorInfo \<Rightarrow> bool" where
  "importedFrom meta si \<longleftrightarrow>
     si_State si = ReceiveSector \<and> si_Return si = Some (rm_State meta) \<and> si_SectorNumber si = rm_Number meta
     \<and> si_SectorType si = rm_Type meta \<and> si_Pieces si = rm_Pieces meta"

definition ticketFromChain :: "sealing_env \<Rightarrow> tipsetHead \<Rightarrow> sectorInfo \<Rightarrow> bool" where
  "ticketFromChain env ts si \<longleftrightarrow>
     (\<exists>buf. sv_maddrBuf env = Some buf
       \<and> ca_StateGetRandomnessFromTickets (sv_api env) (si_TicketEpoch si) buf (th_Key ts) = Some (si_TicketValue si))"

definition seedFromBeacon :: "sealing_env \<Rightarrow> tipsetHead \<Rightarrow> sectorInfo \<Rightarrow> bool" where
  "seedFromBeacon env ts si \<longleftrightarrow>
     (\<exists>buf. sv_maddrBuf env = Some buf
       \<and> ca_StateGetRandomnessFromBeacon (sv_api env) (si_SeedEpoch si) buf (th_Key ts) = Some (si_SeedValue si))"

definition proofVerified :: "sealing_env \<Rightarrow> sectorInfo \<Rightarrow> bool" where
  "proofVerified env si \<longleftrightarrow>
     (\<exists>commR commD. si_CommR si = Some commR \<and> si_CommD si = Some commD
       \<and> sv_VerifySeal env \<lparr>sv_SealProof = si_SectorType si, sv_SectorNumber = si_SectorNumber si,
           sv_Randomness = si_TicketValue si, sv_InteractiveRandomness = si_SeedValue si, sv_SealProofBytes = si_Proof si,
           sv_SealedCID = commR, sv_UnsealedCID = commD\<rparr> = Some True)"

lemma metaValid_GoOk:
  "metaValid env meta = GoOk b \<longleftrightarrow>
     b \<and> (\<exists>commR commD. rm_CommR meta = Some commR \<and> rm_CommD meta = Some commD
       \<and> sv_VerifySeal env (metaVerifyInfo meta commR commD) = Some True)"
  by (auto simp: metaValid_def split: option.splits)

lemma metaPacking_GoOk:
  assumes "metaPacking env re v meta info = GoOk si"
  shows "importedFrom meta si \<and> checkPieces env 1 (rm_Pieces meta) False = CheckOk \<and> (v \<longrightarrow> metaValid env meta = GoOk True)
    \<and> si_TicketValue si = si_TicketValue info \<and> si_TicketEpoch si = si_TicketEpoch info
    \<and> si_SeedValue si = si_SeedValue info \<and> si_SeedEpoch si = si_SeedEpoch info \<and> si_Proof si = si_Proof info
    \<and> si_CommR si = si_CommR info \<and> si_CommD si = si_CommD info \<and> si_PreCommitMessage si = si_PreCommitMessage info"
  using assms
  by (auto simp: metaPacking_def Let_def importedFrom_def metaValid_GoOk
      split: if_splits option.splits checkResult.splits go.splits)

lemma metaPreCommitting_GoOk:
  assumes "metaPreCommitting env re ts v meta info = GoOk si"
  shows "importedFrom meta si \<and> checkPieces env 1 (rm_Pieces meta) False = CheckOk \<and> (v \<longrightarrow> metaValid env meta = GoOk True)
    \<and> si_TicketValue si = rm_TicketValue meta \<and> ticketFromChain env ts si
    \<and> si_SeedValue si = si_SeedValue info \<and> si_SeedEpoch si = si_SeedEpoch info \<and> si_Proof si = si_Proof info
    \<and> si_CommR si = rm_CommR meta \<and> si_CommD si = rm_CommD meta \<and> si_PreCommitMessage si = si_PreCommitMessage info"
  using assms
  by (auto simp: metaPreCommitting_def ticketFromChain_def dest!: metaPacking_GoOk
      split: if_splits option.splits)

lemma metaSubmitCommit_GoOk:
  assumes "metaSubmitCommit env re ts meta info = GoOk si" "si_PreCommitMessage info = None"
  shows "importedFrom meta si \<and> checkPieces env 1 (rm_Pieces meta) False = CheckOk \<and> ticketFromChain env ts si
    \<and> seedFromBeacon env ts si \<and> proofVerified env si \<and> si_PreCommitMessage si = None"
  using assms
  by (auto simp: metaSubmitCommit_def metaPreCommitMessage_def seedFromBeacon_def proofVerified_def metaValid_GoOk
      metaVerifyInfo_def importedFrom_def dest!: metaPreCommitting_GoOk split: if_splits option.splits)

lemma metaState_GoOk:
  assumes "metaState env re ts meta = GoOk si"
  shows "rm_State meta \<in> {Packing, GetTicket, PreCommitting, SubmitCommit, Proving, Available}
    \<and> importedFrom meta si \<and> checkPieces env 1 (rm_Pieces meta) False = CheckOk \<and> si_PreCommitMessage si = None
    \<and> (rm_State meta \<in> {PreCommitting, SubmitCommit, Proving, Available} \<longrightarrow> ticketFromChain env ts si)
    \<and> (rm_State meta \<in> {SubmitCommit, Proving, Available} \<longrightarrow> seedFromBeacon env ts si \<and> proofVerified env si)"
proof -
  have z: "si_PreCommitMessage zeroSector = None" "si_PreCommitMessage (zeroSector\<lparr>si_CommitMessage := m\<rparr>) = None" for m
    by (simp_all add: zeroSector_def)
  show ?thesis
    using assms z
    by (auto simp: metaState_def metaProving_def dest!: metaSubmitCommit_GoOk metaPreCommitting_GoOk metaPacking_GoOk
        split: if_splits option.splits)
qed

section \<open>Entering the pipeline\<close>

lemma receive_planners:
  "fsmPlanners UndefinedSectorState = Some (PlanOne [(''SectorStart'', On WaitDeals), (''SectorStartCC'', On Packing),
     (''SectorReceive'', On ReceiveSector)])"
  "fsmPlanners ReceiveSector = Some (PlanOne [(''SectorReceived'', OnReturning)])"
  by (simp_all only: lookup_simps)

lemma received_enters:
  assumes "Plan penv keep [SectorReceive si] si0 ss = Some st" "si_State si0 = UndefinedSectorState"
    and "si_State si = ReceiveSector"
  shows "fs_si st = si \<and> fs_handler st = Some ''handleReceiveSector''"
proof -
  obtain l where l: "logEvents penv [SectorReceive si] si0 = si0\<lparr>si_Log := l\<rparr>" using logEvents_frame by blast
  show ?thesis
    using assms l
    by (auto simp: Plan_def plan_def plan_next_def planner_for_def receive_planners run_planner_def next_action_def
        event_eval handlerOf_def Let_def simp del: logEvents.simps split: prod.splits)
qed

definition importStates :: "sectorState list" where
  "importStates = [Packing, GetTicket, PreCommitting, SubmitCommit, Proving, Available]"

lemma received_returns:
  assumes "Plan penv keep [SectorReceived] si ss = Some st" "si_State si = ReceiveSector"
    and "si_Return si = Some s" "s \<in> set importStates"
  shows "\<exists>l. fs_si st = si\<lparr>si_State := s, si_Return := None, si_Log := l\<rparr>"
proof -
  obtain l where l: "logEvents penv [SectorReceived] si = si\<lparr>si_Log := l\<rparr>" using logEvents_frame by blast
  have "fs_si st = si\<lparr>si_State := s, si_Return := None, si_Log := l\<rparr>"
    using assms l
    by (auto simp: Plan_def plan_def plan_next_def planner_for_def receive_planners run_planner_def next_action_def
        event_eval handlerOf_def importStates_def Let_def simp del: logEvents.simps split: prod.splits)
  then show ?thesis by blast
qed

text \<open>
  Property C11. A sector sealed elsewhere gets into the pipeline only if it belongs to this miner, is new
  here and is of the current proof type, if its pieces are aligned and match deals that are on
  chain and have not started, and, depending on the state it claims, if its ticket is the chain's, its seed is the
  beacon's and its proof verifies for exactly the record that is imported; it then starts at the
  claimed state, which is one of six, with that record.
\<close>

theorem received_sectors_are_checked:
  assumes "Receive env re meta = GoOk e"
  shows "\<exists>si ts. e = SectorReceive si \<and> ca_ChainHead (sv_api env) 0 = Some ts
    \<and> re_mid re = Some (rm_Miner meta) \<and> re_has re (rm_Number meta) = Some False
    \<and> currentSealProof env = Some (rm_Type meta) \<and> rm_State meta \<in> set importStates
    \<and> importedFrom meta si \<and> checkPieces env 1 (rm_Pieces meta) False = CheckOk
    \<and> (rm_State meta \<in> {PreCommitting, SubmitCommit, Proving, Available} \<longrightarrow> ticketFromChain env ts si)
    \<and> (rm_State meta \<in> {SubmitCommit, Proving, Available} \<longrightarrow> seedFromBeacon env ts si \<and> proofVerified env si)
    \<and> (\<forall>penv keep ss st penv' keep' ss' st'.
         Plan penv keep [SectorReceive si] zeroSector ss = Some st
         \<longrightarrow> Plan penv' keep' [SectorReceived] (fs_si st) ss' = Some st'
         \<longrightarrow> (\<exists>l. fs_si st' = si\<lparr>si_State := rm_State meta, si_Return := None, si_Log := l\<rparr>))"
proof -
  obtain si ts where e: "e = SectorReceive si" and ts: "ca_ChainHead (sv_api env) 0 = Some ts"
    and m: "metaState env re ts meta = GoOk si"
    and g: "re_mid re = Some (rm_Miner meta)" "re_has re (rm_Number meta) = Some False" "currentSealProof env = Some (rm_Type meta)"
    using assms by (auto simp: Receive_def checkSectorMeta_def split: go.splits option.splits if_splits)
  note chk = metaState_GoOk [OF m]
  have st: "rm_State meta \<in> set importStates" using chk by (auto simp: importStates_def)
  have i: "si_State si = ReceiveSector" "si_Return si = Some (rm_State meta)" using chk by (auto simp: importedFrom_def)
  have "\<exists>l. fs_si st' = si\<lparr>si_State := rm_State meta, si_Return := None, si_Log := l\<rparr>"
    if "Plan penv keep [SectorReceive si] zeroSector ss = Some st" "Plan penv' keep' [SectorReceived] (fs_si st) ss' = Some st'"
    for penv keep ss st penv' keep' ss' st'
    using received_enters [OF that(1) _ i(1)] received_returns [OF that(2) _ _ st] i by (auto simp: zeroSector_def)
  then show ?thesis using e ts g chk st by blast
qed

text \<open>A sector that was sealed elsewhere and is proving, with all its metadata.\<close>

definition goodReceive :: receive_env where
  "goodReceive =
    \<lparr>re_mid = Some 1000, re_sector = (\<lambda>sn. Some False), re_has = (\<lambda>sn. Some False), re_send = (\<lambda>sn e. True),
     re_Prefix = (\<lambda>c. if c = 20 then \<lparr>px_Version = 1, px_Codec = 61697, px_MhType = 4114, px_MhLength = 32\<rparr>
                       else if c = 21 then \<lparr>px_Version = 1, px_Codec = 61698, px_MhType = 46081, px_MhLength = 32\<rparr>
                       else \<lparr>px_Version = 1, px_Codec = 113, px_MhType = 45600, px_MhLength = 32\<rparr>),
     re_urlParse = (\<lambda>u. True), re_RandomnessLength = 1, re_DagCBOR = 113, re_BLAKE2B_MIN = 45569,
     re_FilCommitmentUnsealed = 61697, re_FilCommitmentSealed = 61698, re_SHA2_256_TRUNC254_PADDED = 4114,
     re_POSEIDON_BLS12_381_A1_FC1 = 46081\<rparr>"

definition sealedElsewhere :: remoteSectorMeta where
  "sealedElsewhere =
    \<lparr>rm_State = Proving, rm_Miner = 1000, rm_Number = 3, rm_Type = 8,
     rm_Pieces = [filler \<lparr>pi_Size = 2048, pi_PieceCID = 3032\<rparr>], rm_TicketValue = [9], rm_TicketEpoch = 100,
     rm_PreCommit1Out = [], rm_CommD = Some 20, rm_CommR = Some 21, rm_PreCommitDeposit = Some 5,
     rm_PreCommitMessage = Some 70, rm_PreCommitTipSet = [], rm_SeedValue = [7], rm_SeedEpoch = 1000, rm_CommitProof = [42],
     rm_CommitMessage = Some 77, rm_DataUnsealed = Some \<lparr>sl_Local = True, sl_URL = ''''\<rparr>,
     rm_DataSealed = Some \<lparr>sl_Local = True, sl_URL = ''''\<rparr>, rm_DataCache = Some \<lparr>sl_Local = True, sl_URL = ''''\<rparr>,
     rm_RemoteCommit1Endpoint = '''', rm_RemoteCommit2Endpoint = '''', rm_RemoteSealingDoneEndpoint = ''''\<rparr>"

lemma sealedElsewhere_checks:
  "checkPieces fineEnv 1 (rm_Pieces sealedElsewhere) False = CheckOk" "metaValid fineEnv sealedElsewhere = GoOk True"
  by code_simp+

lemma sealedElsewhere_received: "\<exists>e. Receive fineEnv goodReceive sealedElsewhere = GoOk e"
  using sealedElsewhere_checks
  by (simp add: Receive_def checkSectorMeta_def metaState_def metaProving_def metaSubmitCommit_def metaPreCommitMessage_def
      metaPreCommitting_def metaPacking_def checkMessagePrefix_def commitmentsOk_def endpointsOk_def
      currentSealProof_def goodReceive_def sealedElsewhere_def fineEnv_def fineApi_def fineConfig_def zeroSector_def Let_def)

text \<open>Witness of C11: the sector gets in, with a proof that verifies.\<close>

theorem received_sectors_are_checked_witness:
  "\<exists>si. Receive fineEnv goodReceive sealedElsewhere = GoOk (SectorReceive si) \<and> proofVerified fineEnv si"
proof -
  obtain e where e: "Receive fineEnv goodReceive sealedElsewhere = GoOk e" using sealedElsewhere_received by blast
  have "rm_State sealedElsewhere \<in> {SubmitCommit, Proving, Available}" by (simp add: sealedElsewhere_def)
  then show ?thesis using received_sectors_are_checked [OF e] e by blast
qed

text \<open>
  The precommit message of a sector sealed elsewhere is never imported: the guard looks at the
  new record, where the message is not set, instead of the metadata.
\<close>

theorem precommit_message_not_imported:
  assumes "Receive env re meta = GoOk (SectorReceive si)"
  shows "si_PreCommitMessage si = None"
  using assms metaState_GoOk
  by (fastforce simp: Receive_def checkSectorMeta_def split: go.splits option.splits if_splits)

text \<open>An instance: the metadata name the precommit message 70, the record has none.\<close>

theorem precommit_message_not_imported_witness:
  "\<exists>si. Receive fineEnv goodReceive sealedElsewhere = GoOk (SectorReceive si)
     \<and> rm_PreCommitMessage sealedElsewhere = Some 70 \<and> si_PreCommitMessage si = None"
proof -
  obtain e where e: "Receive fineEnv goodReceive sealedElsewhere = GoOk e" using sealedElsewhere_received by blast
  then obtain si where "e = SectorReceive si" by (auto simp: Receive_def split: go.splits if_splits)
  then show ?thesis using e precommit_message_not_imported by (auto simp: sealedElsewhere_def)
qed

end
