(* ===== verification/Sealing_Match.thy ===== *)
theory Sealing_Match
  imports Sealing_Input "HOL-Library.Product_Lexorder"
begin

text \<open>
  Matching pending deals to sectors (storage/pipeline/input.go, storage/pipeline/sealing.go): a
  deal becomes a pending piece, pending pieces are matched to the sectors that are open for deals,
  and when a piece finds no sector a committed capacity sector is upgraded or a new one is
  created. The maps are association lists whose order stands for the order of Go's iteration.
\<close>

section \<open>Collaborators\<close>

text \<open>
  On top of the environment of the handlers: whether the state machine of a sector takes an event,
  the next sector number, whether the sealer can initialize a sector, the padded size of data,
  the identifier of a proposal (\<open>None\<close>: an error), the longest lifetime of a sector and the
  miner's actor id. \<open>me_tie\<close> ranks the positions of the list of matches: \<^verbatim>\<open>sort.Slice\<close> is not stable and
  leaves the order of equal matches open.
\<close>

record match_env =
  me_env :: sealing_env
  me_send :: "nat \<Rightarrow> event \<Rightarrow> bool"
  me_NextSectorNumber :: "nat option"
  me_NewSector :: "nat \<Rightarrow> nat \<Rightarrow> bool"
  me_PaddedSize :: "64 word \<Rightarrow> 64 word"
  me_proposalCid :: "dealProposal option \<Rightarrow> cid option"
  me_SectorMaxLifetime :: int
  me_miner :: nat
  me_tie :: "nat \<Rightarrow> nat"

text \<open>The events sent to state machines, oldest first.\<close>

type_synonym mail = "(nat \<times> event) list"

section \<open>Matching\<close>

text \<open>
  Expiration and pledge of a sector on chain. The code remembers the answers of one run; the chain
  gives the same answer again.
\<close>

definition getExpirationCached :: "match_env \<Rightarrow> nat \<Rightarrow> (int \<times> tokenAmount) option" where
  "getExpirationCached me sn =
     (case ca_StateSectorGetInfo (sv_api (me_env me)) sn EmptyTSK of
        Some (Some info) \<Rightarrow> Some (so_Expiration info, so_InitialPledge info)
      | _ \<Rightarrow> None)"

definition checkDealAssignable :: "match_env \<Rightarrow> openSector \<Rightarrow> int \<Rightarrow> pendingPiece \<Rightarrow> bool option" where
  "checkDealAssignable me os dealEnd piece =
     (if os_lastDealEnd os > pn_claimTermEnd piece then Some False
      else if \<not> os_ccUpdate os then Some True
      else case getExpirationCached me (os_number os) of
        None \<Rightarrow> None
      | Some (sectorExpiration, _) \<Rightarrow>
          Some (sectorExpiration \<le> pn_claimTermEnd piece \<and> dealEnd \<le> sectorExpiration))"

record dealMatch =
  mt_sector :: nat
  mt_deal :: cid
  mt_dealEnd :: int
  mt_claimTermEnd :: int
  mt_size :: "64 word"
  mt_padding :: "64 word"

definition freeSpace :: "match_env \<Rightarrow> 64 word \<Rightarrow> openSector \<Rightarrow> 64 word" where
  "freeSpace me ssize os = sv_unpadded (me_env me) ssize - os_used os"

text \<open>The matches of one piece; \<open>None\<close> is a division by the size 0.\<close>

fun matchSectors ::
    "match_env \<Rightarrow> 64 word \<Rightarrow> cid \<Rightarrow> int \<Rightarrow> pendingPiece \<Rightarrow> (nat \<times> openSector) list \<Rightarrow> dealMatch list option" where
  "matchSectors me ssize c dealEnd piece [] = Some []"
| "matchSectors me ssize c dealEnd piece ((sn, os) # oss) =
     (let avail = freeSpace me ssize os
      in if checkDealAssignable me os dealEnd piece \<noteq> Some True \<or> pn_size piece > avail
         then matchSectors me ssize c dealEnd piece oss
         else if pn_size piece = 0 then None
         else map_option
           ((#) \<lparr>mt_sector = sn, mt_deal = c, mt_dealEnd = dealEnd, mt_claimTermEnd = pn_claimTermEnd piece,
                 mt_size = pn_size piece, mt_padding = avail mod pn_size piece\<rparr>)
           (matchSectors me ssize c dealEnd piece oss))"

text \<open>All matches, and the pieces that are still to be assigned. A deal without a proposal is a nil
  dereference once there is a sector to look at.\<close>

fun matchPieces ::
    "match_env \<Rightarrow> 64 word \<Rightarrow> (nat \<times> openSector) list \<Rightarrow> (cid \<times> pendingPiece) list \<Rightarrow> (dealMatch list \<times> cid list) option" where
  "matchPieces me ssize oss [] = Some ([], [])"
| "matchPieces me ssize oss ((c, piece) # ps) =
     (if pn_assigned piece then matchPieces me ssize oss ps
      else case matchPieces me ssize oss ps of
        None \<Rightarrow> None
      | Some (ms, todo) \<Rightarrow>
          (if oss = [] then Some (ms, c # todo)
           else case di_DealProposal (pn_deal piece) of
             None \<Rightarrow> None
           | Some proposal \<Rightarrow>
               map_option (\<lambda>m. (m @ ms, c # todo)) (matchSectors me ssize c (dp_EndEpoch proposal) piece oss)))"

text \<open>
  Less padding first, then smaller pieces, then older sectors. Two matches of different pieces with
  the same sector may be equal in all three; then the rank of their positions decides.
\<close>

abbreviation matchKey :: "dealMatch \<Rightarrow> 64 word \<times> 64 word \<times> nat" where
  "matchKey m \<equiv> (mt_padding m, mt_size m, mt_sector m)"

definition sortMatches :: "match_env \<Rightarrow> dealMatch list \<Rightarrow> dealMatch list" where
  "sortMatches me ms =
     map fst (sort_key (\<lambda>(m, i). (matchKey m, me_tie me i)) (zip ms [0..<length ms]))"

text \<open>
  One match is taken: the piece is appended to the sector's assigned pieces and the sector is
  told; if the sector cannot be told, the caller gets an error at once.
\<close>

definition assignMatch :: "match_env \<Rightarrow> dealMatch \<Rightarrow> openSector \<Rightarrow> pendingPiece \<Rightarrow> inputState \<Rightarrow> (inputState \<times> mail) option" where
  "assignMatch me m os piece inp =
     (let sn = mt_sector m; c = mt_deal m;
          told = me_send me sn SectorAddPiece;
          inp1 = inp\<lparr>in_assignedPieces := gm_set sn (assigned_to inp sn @ [c]) (in_assignedPieces inp)\<rparr>;
          os' = os\<lparr>os_used := os_used os + (mt_padding m + mt_size m),
                   os_lastDealEnd := (if mt_dealEnd m > os_lastDealEnd os then mt_dealEnd m else os_lastDealEnd os)\<rparr>
      in case (if told then Some (piece, inp1) else accepted c sn 0 True piece inp1) of
           None \<Rightarrow> None
         | Some (piece', inp2) \<Rightarrow>
             Some (inp2\<lparr>in_openSectors := gm_set sn os' (in_openSectors inp2),
                        in_pendingPieces := gm_set c (piece'\<lparr>pn_assigned := True\<rparr>) (in_pendingPieces inp2)\<rparr>,
                   if told then [(sn, SectorAddPiece)] else []))"

fun assign_loop ::
    "match_env \<Rightarrow> 64 word \<Rightarrow> dealMatch list \<Rightarrow> cid list \<Rightarrow> inputState \<Rightarrow> (cid list \<times> inputState \<times> mail) option" where
  "assign_loop me ssize [] todo inp = Some (todo, inp, [])"
| "assign_loop me ssize (m # ms) todo inp =
     (case gm_get (in_pendingPieces inp) (mt_deal m) of
        None \<Rightarrow> None
      | Some piece \<Rightarrow>
          (if pn_assigned piece then assign_loop me ssize ms todo inp
           else case gm_get (in_openSectors inp) (mt_sector m) of
             None \<Rightarrow> assign_loop me ssize ms todo inp
           | Some os \<Rightarrow>
               (if mt_size m > freeSpace me ssize os then assign_loop me ssize ms todo inp
                else if os_lastDealEnd os > mt_claimTermEnd m then assign_loop me ssize ms todo inp
                else case assignMatch me m os piece inp of
                  None \<Rightarrow> None
                | Some (inp', out) \<Rightarrow>
                    map_option (\<lambda>(todo', inp'', out'). (todo', inp'', out @ out'))
                      (assign_loop me ssize ms (removeAll (mt_deal m) todo) inp'))))"

section \<open>Upgrading a sector for deals\<close>

text \<open>
  The bytes of unassigned deals by the epoch a sector may expire at: a deal counts from its
  end on, until the end of its claim.
\<close>

record pieceBound =
  pb_epoch :: int
  pb_boundStart :: "cid list"
  pb_boundEnd :: "cid list"
  pb_dealBytesInBound :: "64 word"

definition boundAt :: "(int, pieceBound) gomap \<Rightarrow> int \<Rightarrow> pieceBound" where
  "boundAt bounds epoch =
     (case gm_get bounds epoch of
        None \<Rightarrow> \<lparr>pb_epoch = epoch, pb_boundStart = [], pb_boundEnd = [], pb_dealBytesInBound = 0\<rparr>
      | Some b \<Rightarrow> b)"

fun bounds_loop :: "(cid \<times> pendingPiece) list \<Rightarrow> (int, pieceBound) gomap \<Rightarrow> (int, pieceBound) gomap option" where
  "bounds_loop [] bounds = Some bounds"
| "bounds_loop ((c, piece) # ps) bounds =
     (if pn_assigned piece then bounds_loop ps bounds
      else case di_DealProposal (pn_deal piece) of
        None \<Rightarrow> None
      | Some proposal \<Rightarrow>
          (let s = boundAt bounds (dp_EndEpoch proposal);
               bounds1 = gm_set (dp_EndEpoch proposal) (s\<lparr>pb_boundStart := pb_boundStart s @ [c]\<rparr>) bounds;
               e = boundAt bounds1 (pn_claimTermEnd piece)
           in bounds_loop ps (gm_set (pn_claimTermEnd piece) (e\<lparr>pb_boundEnd := pb_boundEnd e @ [c]\<rparr>) bounds1)))"

text \<open>The sizes of the pieces under the given keys; \<open>None\<close>: a key that is not there.\<close>

fun pieceBytes :: "(cid, pendingPiece) gomap \<Rightarrow> cid list \<Rightarrow> 64 word option" where
  "pieceBytes pending [] = Some 0"
| "pieceBytes pending (c # cs) =
     (case gm_get pending c of
        None \<Rightarrow> None
      | Some piece \<Rightarrow> map_option ((+) (pn_size piece)) (pieceBytes pending cs))"

fun boundBytes_loop :: "(cid, pendingPiece) gomap \<Rightarrow> 64 word \<Rightarrow> pieceBound list \<Rightarrow> pieceBound list option" where
  "boundBytes_loop pending cur [] = Some []"
| "boundBytes_loop pending cur (b # bs) =
     (case (pieceBytes pending (pb_boundStart b), pieceBytes pending (pb_boundEnd b)) of
        (Some started, Some ended) \<Rightarrow>
          (let cur' = cur + started - ended
           in map_option ((#) (b\<lparr>pb_dealBytesInBound := cur'\<rparr>)) (boundBytes_loop pending cur' bs))
      | _ \<Rightarrow> None)"

definition pendingPieceEpochBounds :: "inputState \<Rightarrow> pieceBound list option" where
  "pendingPieceEpochBounds inp =
     (case bounds_loop (in_pendingPieces inp) [] of
        None \<Rightarrow> None
      | Some bounds \<Rightarrow> boundBytes_loop (in_pendingPieces inp) 0 (sort_key pb_epoch (map snd bounds)))"

text \<open>
  The binary search finds the first bound at or after the expiration; the bound before it is the
  one that holds for the sector.
\<close>

definition findBound :: "pieceBound list \<Rightarrow> int \<Rightarrow> pieceBound option" where
  "findBound bounds sectorExp =
     (let f = length (takeWhile (\<lambda>b. \<not> sectorExp \<le> pb_epoch b) bounds)
      in if f = 0 then None else Some (bounds ! (f - 1)))"

record upgradeChoice =
  uc_candidate :: nat
  uc_bestExpiration :: int
  uc_bestDealBytes :: "64 word"
  uc_bestPledge :: tokenAmount

definition TotalFilecoinInt :: tokenAmount where "TotalFilecoinInt = 2000000000 * 10 ^ 18"

definition prefers :: "match_env \<Rightarrow> 64 word \<Rightarrow> 64 word \<Rightarrow> tokenAmount \<Rightarrow> upgradeChoice \<Rightarrow> bool" where
  "prefers me ssize dealBytes pledge best =
     (let lessThanSectorOfData = dealBytes < ssize; moreDealsThanBest = dealBytes > uc_bestDealBytes best
      in (lessThanSectorOfData \<and> moreDealsThanBest) \<or> (pledge < uc_bestPledge best \<and> \<not> lessThanSectorOfData))"

fun upgrade_loop :: "match_env \<Rightarrow> 64 word \<Rightarrow> pieceBound list \<Rightarrow> nat list \<Rightarrow> upgradeChoice \<Rightarrow> upgradeChoice" where
  "upgrade_loop me ssize bounds [] best = best"
| "upgrade_loop me ssize bounds (sn # sns) best =
     (case getExpirationCached me sn of
        None \<Rightarrow> upgrade_loop me ssize bounds sns best
      | Some (expirationEpoch, pledge) \<Rightarrow>
          (case findBound bounds expirationEpoch of
             None \<Rightarrow> upgrade_loop me ssize bounds sns best
           | Some pb \<Rightarrow>
               (let dealBytes = sv_padded (me_env me) (pb_dealBytesInBound pb)
                in if dealBytes = 0 then upgrade_loop me ssize bounds sns best
                   else if prefers me ssize dealBytes pledge best \<and> sectorActive (me_env me) EmptyTSK sn = Some True
                   then upgrade_loop me ssize bounds sns
                     \<lparr>uc_candidate = sn, uc_bestExpiration = expirationEpoch, uc_bestDealBytes = dealBytes, uc_bestPledge = pledge\<rparr>
                   else upgrade_loop me ssize bounds sns best)))"

definition maybeUpgradeSector ::
    "match_env \<Rightarrow> nat \<Rightarrow> sealing_config \<Rightarrow> inputState \<Rightarrow> bool go \<times> inputState \<times> mail" where
  "maybeUpgradeSector me sp cfg inp =
     (if in_available inp = [] then (GoOk False, inp, [])
      else case ca_ChainHead (sv_api (me_env me)) 0 of
        None \<Rightarrow> (GoErr, inp, [])
      | Some ts \<Rightarrow>
          (case sv_SectorSize (me_env me) sp of
             None \<Rightarrow> (GoErr, inp, [])
           | Some ssize \<Rightarrow>
               (case pendingPieceEpochBounds inp of
                  None \<Rightarrow> (GoPanic, inp, [])
                | Some bounds \<Rightarrow>
                    (let best = upgrade_loop me ssize bounds (map fst (in_available inp))
                                  \<lparr>uc_candidate = 0, uc_bestExpiration = 0, uc_bestDealBytes = 0, uc_bestPledge = TotalFilecoinInt\<rparr>;
                         sn = uc_candidate best
                     in if uc_bestExpiration best < wrap64 (th_Height ts + cfg_MinUpgradeSectorExpiration cfg)
                        then (GoOk False, inp, [])
                        else
                          (let inp' = inp\<lparr>in_available := gm_delete sn (in_available inp), in_nextDealSector := Some sn\<rparr>
                           in if me_send me sn SectorStartCCUpdate then (GoOk True, inp', [(sn, SectorStartCCUpdate)])
                              else (GoErr, inp', []))))))"

section \<open>Getting a sector for deals\<close>

definition createSector :: "match_env \<Rightarrow> sealing_config \<Rightarrow> nat \<Rightarrow> sectorStats \<Rightarrow> nat option \<times> sectorStats" where
  "createSector me cfg sp ss =
     (case me_NextSectorNumber me of
        None \<Rightarrow> (None, ss)
      | Some sid \<Rightarrow>
          (if \<not> me_NewSector me sp sid then (None, ss)
           else (Some sid, snd (updateSector (sealing_cfg.truncate cfg) (me_miner me, sid) UndefinedSectorState ss))))"

definition createDealSector ::
    "match_env \<Rightarrow> nat \<Rightarrow> sealing_config \<Rightarrow> inputState \<Rightarrow> sectorStats \<Rightarrow> unit go \<times> inputState \<times> sectorStats \<times> mail" where
  "createDealSector me sp cfg inp ss =
     (case createSector me cfg sp ss of
        (None, ss') \<Rightarrow> (GoErr, inp, ss', [])
      | (Some sid, ss') \<Rightarrow>
          (let inp' = inp\<lparr>in_nextDealSector := Some sid\<rparr>
           in if me_send me sid (SectorStart sid sp) then (GoOk (), inp', ss', [(sid, SectorStart sid sp)])
              else (GoErr, inp', ss', [])))"

definition tryGetDealSector ::
    "match_env \<Rightarrow> nat \<Rightarrow> inputState \<Rightarrow> sectorStats \<Rightarrow> unit go \<times> inputState \<times> sectorStats \<times> mail" where
  "tryGetDealSector me sp inp ss =
     (if in_nextDealSector inp \<noteq> None then (GoOk (), inp, ss, [])
      else case sv_config (me_env me) of
        None \<Rightarrow> (GoErr, inp, ss, [])
      | Some cfg \<Rightarrow>
          (let maxWait = cfg_MaxWaitDealsSectors cfg; maxSealing = cfg_MaxSealingSectorsForDeals cfg;
               maxUpgrading = (if cfg_MaxUpgradingSectors cfg > 0 then cfg_MaxUpgradingSectors cfg else maxSealing);
               canCreate = (cfg_MakeNewSectorForDeals cfg \<and> \<not> (maxSealing > 0 \<and> curSealingLocked ss \<ge> maxSealing));
               canUpgrade = (\<not> (maxUpgrading > 0 \<and> curSealingLocked ss \<ge> maxUpgrading));
               create = (\<lambda>inp. if canCreate then createDealSector me sp cfg inp ss else (GoOk (), inp, ss, []))
           in if maxWait > 0 \<and> curStagingLocked ss \<ge> maxWait then (GoOk (), inp, ss, [])
              else if canUpgrade \<and> (\<not> cfg_PreferNewSectorsForDeals cfg \<or> \<not> canCreate)
              then (case maybeUpgradeSector me sp cfg inp of
                      (GoOk True, inp', out) \<Rightarrow> (GoOk (), inp', ss, out)
                    | (GoOk False, inp', out) \<Rightarrow> create inp'
                    | (GoErr, inp', out) \<Rightarrow> (GoErr, inp', ss, out)
                    | (GoPanic, inp', out) \<Rightarrow> (GoPanic, inp', ss, out))
              else create inp))"

definition updateInput ::
    "match_env \<Rightarrow> nat \<Rightarrow> inputState \<Rightarrow> sectorStats \<Rightarrow> unit go \<times> inputState \<times> sectorStats \<times> mail" where
  "updateInput me sp inp ss =
     (case sv_SectorSize (me_env me) sp of
        None \<Rightarrow> (GoErr, inp, ss, [])
      | Some ssize \<Rightarrow>
          (case matchPieces me ssize (in_openSectors inp) (in_pendingPieces inp) of
             None \<Rightarrow> (GoPanic, inp, ss, [])
           | Some (matches, todo) \<Rightarrow>
               (case assign_loop me ssize (sortMatches me matches) todo inp of
                  None \<Rightarrow> (GoPanic, inp, ss, [])
                | Some (todo', inp', out) \<Rightarrow>
                    (if todo' = [] then (GoOk (), inp', ss, out)
                     else case tryGetDealSector me sp inp' ss of
                       (GoPanic, inp'', ss', out') \<Rightarrow> (GoPanic, inp'', ss', out @ out')
                     | (_, inp'', ss', out') \<Rightarrow> (GoOk (), inp'', ss', out @ out')))))"

section \<open>Entry points\<close>

text \<open>The end of the claim: the deal's start and the allocation's longest term, or a late epoch.\<close>

definition getClaimTerms :: "match_env \<Rightarrow> nat \<Rightarrow> dealProposal \<Rightarrow> bytes \<Rightarrow> int option" where
  "getClaimTerms me dealID proposal tsk =
     (let api = sv_api (me_env me); late = wrap64 (dp_EndEpoch proposal + me_SectorMaxLifetime me)
      in case ca_StateNetworkVersion api tsk of
           None \<Rightarrow> None
         | Some nv \<Rightarrow>
             (if nv < 17 then Some late
              else case ca_StateGetAllocationForPendingDeal api dealID tsk of
                None \<Rightarrow> None
              | Some None \<Rightarrow> Some late
              | Some (Some alloc) \<Rightarrow> Some (wrap64 (dp_StartEpoch proposal + al_TermMax alloc))))"

text \<open>The identifier of a deal; that of an unprintable proposal is undefined.\<close>

definition proposalCID :: "match_env \<Rightarrow> dealInfo \<Rightarrow> cid" where
  "proposalCID me deal = (case me_proposalCid me (di_DealProposal deal) of None \<Rightarrow> cidUndef | Some c \<Rightarrow> c)"

text \<open>\<open>addPendingPiece\<close> replaces a piece that is stored under the same identifier, and starts a
  goroutine that updates the input.\<close>

definition addPendingPiece :: "match_env \<Rightarrow> 64 word \<Rightarrow> nat \<Rightarrow> dealInfo \<Rightarrow> int \<Rightarrow> inputState \<Rightarrow> inputState" where
  "addPendingPiece me sz content deal claimTermEnd inp =
     inp\<lparr>in_pendingPieces := gm_set (proposalCID me deal)
           \<lparr>pn_resp = None, pn_size = sz, pn_deal = deal, pn_claimTermEnd = claimTermEnd, pn_data = content, pn_assigned = False\<rparr>
           (in_pendingPieces inp),
         in_updates := in_updates inp + 1\<rparr>"

text \<open>
  \<open>SectorAddPieceToAny\<close> until it waits: an error, a wait for the piece of an earlier call, or a
  wait for the new piece. A call that waited for an earlier one which has failed goes on with
  \<open>addPendingPiece\<close>.
\<close>

datatype addPieceWait = AddWaitsEarlier cid | AddWaitsNew cid

definition SectorAddPieceToAny ::
    "match_env \<Rightarrow> 64 word \<Rightarrow> nat \<Rightarrow> dealInfo \<Rightarrow> inputState \<Rightarrow> addPieceWait go \<times> inputState" where
  "SectorAddPieceToAny me sz content deal inp =
     (let env = me_env me; c = proposalCID me deal
      in if me_PaddedSize me sz \<noteq> sz then (GoErr, inp)
         else case currentSealProof env of
           None \<Rightarrow> (GoErr, inp)
         | Some sp \<Rightarrow>
             (case sv_SectorSize env sp of
                None \<Rightarrow> (GoErr, inp)
              | Some ssize \<Rightarrow>
                  (if sz > sv_unpadded env ssize \<or> me_proposalCid me (di_DealProposal deal) = None then (GoErr, inp)
                   else case sv_config env of
                     None \<Rightarrow> (GoErr, inp)
                   | Some cfg \<Rightarrow>
                       (case ca_ChainHead (sv_api env) 0 of
                          None \<Rightarrow> (GoErr, inp)
                        | Some ts \<Rightarrow>
                            (case di_DealProposal deal of
                               None \<Rightarrow> (GoPanic, inp)
                             | Some proposal \<Rightarrow>
                                 (if wrap64 (th_Height ts + cfg_StartEpochSealingBuffer cfg) > dp_StartEpoch proposal then (GoErr, inp)
                                  else case getClaimTerms me (di_DealID deal) proposal (th_Key ts) of
                                    None \<Rightarrow> (GoErr, inp)
                                  | Some claimTermEnd \<Rightarrow>
                                      (if gm_get (in_pendingPieces inp) c \<noteq> None then (GoOk (AddWaitsEarlier c), inp)
                                       else (GoOk (AddWaitsNew c), addPendingPiece me sz content deal claimTermEnd inp))))))))"

definition SectorMatchPendingPiecesToOpenSectors ::
    "match_env \<Rightarrow> inputState \<Rightarrow> sectorStats \<Rightarrow> unit go \<times> inputState \<times> sectorStats \<times> mail" where
  "SectorMatchPendingPiecesToOpenSectors me inp ss =
     (case currentSealProof (me_env me) of
        None \<Rightarrow> (GoErr, inp, ss, [])
      | Some sp \<Rightarrow> updateInput me sp inp ss)"

definition StartPackingSector :: "match_env \<Rightarrow> nat \<Rightarrow> mail option" where
  "StartPackingSector me sid = (if me_send me sid SectorStartPacking then Some [(sid, SectorStartPacking)] else None)"

text \<open>The sector is not available for upgrades any more, whether or not its machine can be told.\<close>

definition abortSectorUpgrade :: "match_env \<Rightarrow> nat \<Rightarrow> inputState \<Rightarrow> mail option \<times> inputState" where
  "abortSectorUpgrade me sid inp =
     (if me_send me sid SectorAbortUpgrade then Some [(sid, SectorAbortUpgrade)] else None,
      inp\<lparr>in_available := gm_delete sid (in_available inp)\<rparr>)"

text \<open>\<open>MarkForUpgrade\<close>: \<open>None\<close> is an error; \<open>found\<close> is the record of the sector, if it can be read.\<close>

definition MarkForUpgrade :: "match_env \<Rightarrow> sectorInfo option \<Rightarrow> nat \<Rightarrow> mail option" where
  "MarkForUpgrade me found sid =
     (let env = me_env me
      in case found of
           None \<Rightarrow> None
         | Some si \<Rightarrow>
             (if si_State si \<noteq> Proving \<or> hasDeals si then None
              else case ca_ChainHead (sv_api env) 0 of
                None \<Rightarrow> None
              | Some ts \<Rightarrow>
                  (case ca_StateSectorGetInfo (sv_api env) sid (th_Key ts) of
                     Some (Some onChainInfo) \<Rightarrow>
                       (if sectorActive env (th_Key ts) sid \<noteq> Some True
                            \<or> wrap64 (so_Expiration onChainInfo - th_Height ts) < po_DealMinDuration (sv_policy env)
                        then None
                        else if me_send me sid SectorMarkForUpdate then Some [(sid, SectorMarkForUpdate)] else None)
                   | _ \<Rightarrow> None)))"

text \<open>\<open>PledgeSector\<close>: a new committed capacity sector; \<open>maxSealing\<close> is \<^verbatim>\<open>MaxSealingSectors\<close>.\<close>

definition PledgeSector :: "match_env \<Rightarrow> 64 word \<Rightarrow> sectorStats \<Rightarrow> mail option \<times> sectorStats" where
  "PledgeSector me maxSealing ss =
     (case sv_config (me_env me) of
        None \<Rightarrow> (None, ss)
      | Some cfg \<Rightarrow>
          (if maxSealing > 0 \<and> curSealingLocked ss \<ge> maxSealing then (None, ss)
           else case currentSealProof (me_env me) of
             None \<Rightarrow> (None, ss)
           | Some spt \<Rightarrow>
               (case createSector me cfg spt ss of
                  (None, ss') \<Rightarrow> (None, ss')
                | (Some sid, ss') \<Rightarrow>
                    (if me_send me sid (SectorStartCC sid spt) then (Some [(sid, SectorStartCC sid spt)], ss') else (None, ss')))))"

end
