(* ===== verification/Sealing_Match_Props.thy ===== *)
theory Sealing_Match_Props
  imports Sealing_Match Sealing_Safety
begin

text \<open>
  What the matching of deals to sectors guarantees: a piece is assigned once, to an open sector
  that it was matched with, its sector is told, and one new sector is asked for at a time.
\<close>

section \<open>Matches\<close>

text \<open>A match of a piece with an open sector that takes the deal and has room for it.\<close>

definition matchIn :: "match_env \<Rightarrow> 64 word \<Rightarrow> (nat \<times> openSector) list \<Rightarrow> (cid \<times> pendingPiece) list \<Rightarrow> dealMatch \<Rightarrow> bool" where
  "matchIn me ssize oss ps m \<longleftrightarrow>
     (\<exists>os piece proposal. (mt_sector m, os) \<in> set oss \<and> (mt_deal m, piece) \<in> set ps
       \<and> \<not> pn_assigned piece \<and> di_DealProposal (pn_deal piece) = Some proposal
       \<and> mt_dealEnd m = dp_EndEpoch proposal \<and> mt_claimTermEnd m = pn_claimTermEnd piece \<and> mt_size m = pn_size piece
       \<and> checkDealAssignable me os (dp_EndEpoch proposal) piece = Some True \<and> pn_size piece \<le> freeSpace me ssize os)"

abbreviation matchOf :: "match_env \<Rightarrow> 64 word \<Rightarrow> inputState \<Rightarrow> dealMatch \<Rightarrow> bool" where
  "matchOf me ssize inp \<equiv> matchIn me ssize (in_openSectors inp) (in_pendingPieces inp)"

lemma matchIn_mono: "matchIn me ssize oss ps m \<Longrightarrow> matchIn me ssize oss (p # ps) m"
  unfolding matchIn_def list.set by blast

lemma matchSectors_sound:
  "matchSectors me ssize c dealEnd piece oss = Some ms \<Longrightarrow> m \<in> set ms \<Longrightarrow>
     \<exists>os. (mt_sector m, os) \<in> set oss \<and> mt_deal m = c \<and> mt_dealEnd m = dealEnd
       \<and> mt_claimTermEnd m = pn_claimTermEnd piece \<and> mt_size m = pn_size piece
       \<and> checkDealAssignable me os dealEnd piece = Some True \<and> pn_size piece \<le> freeSpace me ssize os"
proof (induction oss arbitrary: ms)
  case (Cons x oss)
  obtain sn os where x: "x = (sn, os)" by (cases x)
  show ?case
  proof (cases "checkDealAssignable me os dealEnd piece \<noteq> Some True \<or> pn_size piece > freeSpace me ssize os")
    case True
    then have "matchSectors me ssize c dealEnd piece oss = Some ms" using Cons.prems(1) x by simp
    from Cons.IH [OF this Cons.prems(2)] show ?thesis unfolding list.set by blast
  next
    case False
    then obtain ms1 where r: "matchSectors me ssize c dealEnd piece oss = Some ms1"
      and ms: "ms = \<lparr>mt_sector = sn, mt_deal = c, mt_dealEnd = dealEnd, mt_claimTermEnd = pn_claimTermEnd piece,
        mt_size = pn_size piece, mt_padding = freeSpace me ssize os mod pn_size piece\<rparr> # ms1"
      using Cons.prems(1) x by (auto simp: Let_def split: if_splits)
    show ?thesis
    proof (cases "m \<in> set ms1")
      case True
      from Cons.IH [OF r this] show ?thesis unfolding list.set by blast
    next
      case new: False
      then show ?thesis using Cons.prems(2) False ms x by auto
    qed
  qed
qed simp

lemma matchPieces_sound:
  "matchPieces me ssize oss ps = Some (ms, todo) \<Longrightarrow>
     (\<forall>m \<in> set ms. matchIn me ssize oss ps m) \<and> set todo = {c. \<exists>piece. (c, piece) \<in> set ps \<and> \<not> pn_assigned piece}"
proof (induction ps arbitrary: ms todo)
  case (Cons x ps)
  obtain c piece where x: "x = (c, piece)" by (cases x)
  show ?case
  proof (cases "pn_assigned piece")
    case True
    then show ?thesis using Cons.IH [of ms todo] Cons.prems x matchIn_mono by auto
  next
    case False
    obtain ms1 todo1 where r: "matchPieces me ssize oss ps = Some (ms1, todo1)"
      using Cons.prems False x by (auto split: option.splits)
    note ih = Cons.IH [OF r]
    have todo: "todo = c # todo1" using Cons.prems False x r by (auto split: option.splits if_splits)
    have "matchIn me ssize oss (x # ps) m" if m: "m \<in> set ms" for m
    proof (cases "m \<in> set ms1")
      case True
      then show ?thesis using ih matchIn_mono by blast
    next
      case new: False
      then obtain proposal m1 where p: "di_DealProposal (pn_deal piece) = Some proposal"
        and m1: "matchSectors me ssize c (dp_EndEpoch proposal) piece oss = Some m1" "m \<in> set m1"
        using Cons.prems False x r m by (auto split: option.splits if_splits)
      show ?thesis using matchSectors_sound [OF m1] p False x unfolding matchIn_def list.set by blast
    qed
    then show ?thesis using ih todo False x by auto
  qed
qed simp

text \<open>Sorting keeps the matches, whatever it does with ties.\<close>

lemma sortMatches_mset [simp]: "mset (sortMatches me ms) = mset ms"
proof -
  have "mset (sortMatches me ms) = mset (map fst (zip ms [0..<length ms]))"
    unfolding sortMatches_def mset_map mset_sort ..
  then show ?thesis by simp
qed

lemma sortMatches_set [simp]: "set (sortMatches me ms) = set ms"
  by (rule mset_eq_setD) simp

lemma sorted_fst: "sorted (zs :: ('a :: linorder \<times> 'b :: linorder) list) \<Longrightarrow> sorted (map fst zs)"
  by (induction zs) (auto simp: less_eq_prod_def)

lemma sortMatches_sorted: "sorted (map matchKey (sortMatches me ms))"
proof -
  let ?xs = "sort_key (\<lambda>(m, i). (matchKey m, me_tie me i)) (zip ms [0..<length ms])"
  have "sorted (map (\<lambda>(m, i). (matchKey m, me_tie me i)) ?xs)" by (rule sorted_sort_key)
  then have "sorted (map fst (map (\<lambda>(m, i). (matchKey m, me_tie me i)) ?xs))" by (rule sorted_fst)
  then show ?thesis by (simp add: sortMatches_def comp_def case_prod_unfold)
qed

lemma matches_sound:
  assumes "matchPieces me ssize (in_openSectors inp) (in_pendingPieces inp) = Some (ms, todo)" "m \<in> set (sortMatches me ms)"
  shows "matchOf me ssize inp m"
  using matchPieces_sound [OF assms(1)] assms(2) by simp

section \<open>Assigning pieces\<close>

text \<open>
  The effect of a run as a list of pieces with the sectors they went to: no piece twice, each
  from a match of a piece that had not been assigned, each appended to its sector.
\<close>

definition assigns :: "dealMatch list \<Rightarrow> inputState \<Rightarrow> (cid \<times> nat) list \<Rightarrow> inputState \<Rightarrow> bool" where
  "assigns ms inp asg inp' \<longleftrightarrow>
     distinct (map fst asg)
     \<and> (\<forall>c sn. (c, sn) \<in> set asg \<longrightarrow> (\<exists>m \<in> set ms. mt_deal m = c \<and> mt_sector m = sn)
          \<and> map_option pn_assigned (gm_get (in_pendingPieces inp) c) = Some False)
     \<and> (\<forall>sn. assigned_to inp' sn = assigned_to inp sn @ map fst (filter (\<lambda>(c, s). s = sn) asg))
     \<and> (\<forall>c. map_option pn_assigned (gm_get (in_pendingPieces inp') c)
          = (if c \<in> fst ` set asg then Some True else map_option pn_assigned (gm_get (in_pendingPieces inp) c)))
     \<and> in_available inp' = in_available inp \<and> in_nextDealSector inp' = in_nextDealSector inp"

definition toldOf :: "match_env \<Rightarrow> (cid \<times> nat) list \<Rightarrow> mail" where
  "toldOf me asg = map (\<lambda>(c, sn). (sn, SectorAddPiece)) (filter (\<lambda>(c, sn). me_send me sn SectorAddPiece) asg)"

lemma accepted_fields:
  "accepted c sn off err pp inp = Some (pp', inp') \<Longrightarrow>
     pn_assigned pp' = pn_assigned pp \<and> in_pendingPieces inp' = in_pendingPieces inp
     \<and> in_assignedPieces inp' = in_assignedPieces inp \<and> in_openSectors inp' = in_openSectors inp
     \<and> in_available inp' = in_available inp \<and> in_nextDealSector inp' = in_nextDealSector inp"
  by (auto simp: accepted_def Let_def split: if_splits)

lemma assignMatch_Some:
  assumes "assignMatch me m os piece inp = Some (inp', out)"
  shows "\<exists>os' piece'. in_openSectors inp' = gm_set (mt_sector m) os' (in_openSectors inp)
    \<and> in_pendingPieces inp' = gm_set (mt_deal m) (piece'\<lparr>pn_assigned := True\<rparr>) (in_pendingPieces inp)
    \<and> in_assignedPieces inp' = gm_set (mt_sector m) (assigned_to inp (mt_sector m) @ [mt_deal m]) (in_assignedPieces inp)
    \<and> in_available inp' = in_available inp \<and> in_nextDealSector inp' = in_nextDealSector inp
    \<and> out = toldOf me [(mt_deal m, mt_sector m)]"
proof (cases "me_send me (mt_sector m) SectorAddPiece")
  case True
  then show ?thesis using assms by (auto simp: assignMatch_def Let_def toldOf_def)
next
  case False
  then show ?thesis using assms
    by (auto simp: assignMatch_def Let_def toldOf_def dest!: accepted_fields split: option.splits)
qed

lemma assignMatch_step:
  assumes "assignMatch me m os piece inp = Some (inp', out)"
  shows "assigned_to inp' sn = assigned_to inp sn @ (if sn = mt_sector m then [mt_deal m] else [])"
    and "map_option pn_assigned (gm_get (in_pendingPieces inp') c)
      = (if c = mt_deal m then Some True else map_option pn_assigned (gm_get (in_pendingPieces inp) c))"
    and "out = toldOf me [(mt_deal m, mt_sector m)]"
    and "in_available inp' = in_available inp" "in_nextDealSector inp' = in_nextDealSector inp"
proof -
  obtain piece' where p: "in_pendingPieces inp' = gm_set (mt_deal m) (piece'\<lparr>pn_assigned := True\<rparr>) (in_pendingPieces inp)"
    and a: "in_assignedPieces inp' = gm_set (mt_sector m) (assigned_to inp (mt_sector m) @ [mt_deal m]) (in_assignedPieces inp)"
    and r: "in_available inp' = in_available inp" "in_nextDealSector inp' = in_nextDealSector inp"
      "out = toldOf me [(mt_deal m, mt_sector m)]"
    using assignMatch_Some [OF assms] by blast
  show "assigned_to inp' sn = assigned_to inp sn @ (if sn = mt_sector m then [mt_deal m] else [])"
    using a by (simp add: assigned_to_def)
  show "map_option pn_assigned (gm_get (in_pendingPieces inp') c)
      = (if c = mt_deal m then Some True else map_option pn_assigned (gm_get (in_pendingPieces inp) c))"
    unfolding p gm_get_set by simp
  show "out = toldOf me [(mt_deal m, mt_sector m)]" "in_available inp' = in_available inp"
    "in_nextDealSector inp' = in_nextDealSector inp" by (rule r)+
qed

lemma assigns_Cons:
  assumes step: "assignMatch me m os piece inp = Some (inp1, out)"
    and fresh: "map_option pn_assigned (gm_get (in_pendingPieces inp) (mt_deal m)) = Some False"
    and rest: "assigns ms inp1 asg inp'"
  shows "assigns (m # ms) inp ((mt_deal m, mt_sector m) # asg) inp'"
proof -
  note st = assignMatch_step [OF step]
  have r: "distinct (map fst asg)"
    "\<And>c sn. (c, sn) \<in> set asg \<Longrightarrow> (\<exists>m \<in> set ms. mt_deal m = c \<and> mt_sector m = sn)
       \<and> map_option pn_assigned (gm_get (in_pendingPieces inp1) c) = Some False"
    "\<And>sn. assigned_to inp' sn = assigned_to inp1 sn @ map fst (filter (\<lambda>(c, s). s = sn) asg)"
    "\<And>c. map_option pn_assigned (gm_get (in_pendingPieces inp') c)
       = (if c \<in> fst ` set asg then Some True else map_option pn_assigned (gm_get (in_pendingPieces inp1) c))"
    "in_available inp' = in_available inp1" "in_nextDealSector inp' = in_nextDealSector inp1"
    using rest unfolding assigns_def by blast+
  have new: "c \<noteq> mt_deal m \<and> map_option pn_assigned (gm_get (in_pendingPieces inp) c) = Some False" if "(c, sn) \<in> set asg" for c sn
    using r(2) [OF that] st(2) [of c] by (cases "c = mt_deal m") auto
  then have d: "mt_deal m \<notin> fst ` set asg" by fastforce
  show ?thesis
    unfolding assigns_def
  proof (intro conjI allI impI)
    show "distinct (map fst ((mt_deal m, mt_sector m) # asg))" using r(1) d by simp
    show "\<exists>m' \<in> set (m # ms). mt_deal m' = c \<and> mt_sector m' = sn"
      "map_option pn_assigned (gm_get (in_pendingPieces inp) c) = Some False"
      if "(c, sn) \<in> set ((mt_deal m, mt_sector m) # asg)" for c sn
      using that fresh new [of c sn] r(2) [of c sn] by auto
    show "assigned_to inp' sn = assigned_to inp sn @ map fst (filter (\<lambda>(c, s). s = sn) ((mt_deal m, mt_sector m) # asg))" for sn
      using r(3) [of sn] st(1) [of sn] by simp
    show "map_option pn_assigned (gm_get (in_pendingPieces inp') c)
        = (if c \<in> fst ` set ((mt_deal m, mt_sector m) # asg) then Some True
           else map_option pn_assigned (gm_get (in_pendingPieces inp) c))" for c
      unfolding r(4) st(2) by simp
  qed (simp_all add: r st)
qed

lemma assigns_skip: "assigns ms inp asg inp' \<Longrightarrow> assigns (m # ms) inp asg inp'"
  unfolding assigns_def list.set by blast

lemma assign_loop_Cons:
  assumes "assign_loop me ssize (m # ms) todo inp = Some (todo', inp', out)"
  obtains (skipped) "assign_loop me ssize ms todo inp = Some (todo', inp', out)"
  | (taken) os piece inp1 out1 out2 where "gm_get (in_pendingPieces inp) (mt_deal m) = Some piece" "\<not> pn_assigned piece"
    "gm_get (in_openSectors inp) (mt_sector m) = Some os"
    "mt_size m \<le> freeSpace me ssize os" "os_lastDealEnd os \<le> mt_claimTermEnd m"
    "assignMatch me m os piece inp = Some (inp1, out1)"
    "assign_loop me ssize ms (removeAll (mt_deal m) todo) inp1 = Some (todo', inp', out2)" "out = out1 @ out2"
  using assms by (auto simp: not_less split: option.splits if_splits)

lemma assign_loop_assigns:
  "assign_loop me ssize ms todo inp = Some (todo', inp', out) \<Longrightarrow>
     \<exists>asg. assigns ms inp asg inp' \<and> set todo' = set todo - fst ` set asg \<and> out = toldOf me asg"
proof (induction ms arbitrary: todo inp todo' out)
  case Nil
  then show ?case by (intro exI [of _ "[]"]) (simp add: assigns_def toldOf_def)
next
  case (Cons m ms)
  from Cons.prems show ?case
  proof (cases rule: assign_loop_Cons)
    case skipped
    then show ?thesis using Cons.IH assigns_skip by meson
  next
    case (taken os piece inp1 out1 out2)
    obtain asg where a: "assigns ms inp1 asg inp'" "set todo' = set (removeAll (mt_deal m) todo) - fst ` set asg"
      "out2 = toldOf me asg"
      using Cons.IH [OF taken(7)] by blast
    have "map_option pn_assigned (gm_get (in_pendingPieces inp) (mt_deal m)) = Some False" using taken(1,2) by simp
    from assigns_Cons [OF taken(6) this a(1)] a(2,3) taken(8) assignMatch_step(3) [OF taken(6)]
    show ?thesis by (intro exI [of _ "(mt_deal m, mt_sector m) # asg"]) (auto simp: toldOf_def)
  qed
qed

section \<open>Upgrades and new sectors\<close>

definition suitable :: "match_env \<Rightarrow> pieceBound list \<Rightarrow> nat list \<Rightarrow> upgradeChoice \<Rightarrow> bool" where
  "suitable me bounds sns best \<longleftrightarrow>
     uc_candidate best \<in> set sns \<and> sectorActive (me_env me) EmptyTSK (uc_candidate best) = Some True
     \<and> getExpirationCached me (uc_candidate best) = Some (uc_bestExpiration best, uc_bestPledge best)
     \<and> (\<exists>pb. findBound bounds (uc_bestExpiration best) = Some pb \<and> sv_padded (me_env me) (pb_dealBytesInBound pb) \<noteq> 0)"

lemma upgrade_loop_suitable:
  "upgrade_loop me ssize bounds sns best = best \<or> suitable me bounds sns (upgrade_loop me ssize bounds sns best)"
proof (induction sns arbitrary: best)
  case (Cons sn sns)
  have more: "suitable me bounds sns b \<Longrightarrow> suitable me bounds (sn # sns) b" for b by (auto simp: suitable_def)
  show ?case
  proof (cases "upgrade_loop me ssize bounds (sn # sns) best = upgrade_loop me ssize bounds sns best")
    case True
    then show ?thesis using Cons.IH [of best] more by metis
  next
    case False
    then obtain exp pledge pb where e: "getExpirationCached me sn = Some (exp, pledge)" and pb: "findBound bounds exp = Some pb"
      and n: "sv_padded (me_env me) (pb_dealBytesInBound pb) \<noteq> 0" and a: "sectorActive (me_env me) EmptyTSK sn = Some True"
      and r: "upgrade_loop me ssize bounds (sn # sns) best = upgrade_loop me ssize bounds sns
        \<lparr>uc_candidate = sn, uc_bestExpiration = exp, uc_bestDealBytes = sv_padded (me_env me) (pb_dealBytesInBound pb),
         uc_bestPledge = pledge\<rparr>"
      by (auto simp: Let_def split: option.splits if_splits)
    have "suitable me bounds (sn # sns) \<lparr>uc_candidate = sn, uc_bestExpiration = exp,
      uc_bestDealBytes = sv_padded (me_env me) (pb_dealBytesInBound pb), uc_bestPledge = pledge\<rparr>"
      using e pb n a by (simp add: suitable_def)
    then show ?thesis using r Cons.IH more by metis
  qed
qed simp

lemma maybeUpgradeSector_cases:
  assumes "maybeUpgradeSector me sp cfg inp = (r, inp', out)"
  shows "(inp' = inp \<and> out = [] \<and> r \<noteq> GoOk True)
    \<or> (\<exists>sn. inp' = inp\<lparr>in_available := gm_delete sn (in_available inp), in_nextDealSector := Some sn\<rparr>
          \<and> out = (if me_send me sn SectorStartCCUpdate then [(sn, SectorStartCCUpdate)] else [])
          \<and> r = (if me_send me sn SectorStartCCUpdate then GoOk True else GoErr))"
  using assms
  by (auto simp: maybeUpgradeSector_def Let_def split: if_splits option.splits)

section \<open>A run of the matcher\<close>

text \<open>Asking for a sector: nothing while one is on its way, at most one request otherwise.\<close>

definition asks :: "inputState \<Rightarrow> inputState \<Rightarrow> mail \<Rightarrow> bool" where
  "asks inp inp' ask \<longleftrightarrow>
     length ask \<le> 1 \<and> (in_nextDealSector inp \<noteq> None \<longrightarrow> ask = [])
     \<and> (\<forall>(sn, e) \<in> set ask. in_nextDealSector inp' = Some sn \<and> e \<noteq> SectorAddPiece)
     \<and> in_pendingPieces inp' = in_pendingPieces inp \<and> in_assignedPieces inp' = in_assignedPieces inp"

lemma createDealSector_asks:
  "createDealSector me sp cfg inp ss = (r, inp', ss', out) \<Longrightarrow> in_nextDealSector inp = None \<Longrightarrow> asks inp inp' out"
  by (auto simp: createDealSector_def Let_def asks_def split: prod.splits option.splits if_splits)

lemma maybeUpgradeSector_asks:
  assumes "maybeUpgradeSector me sp cfg inp = (r, inp', out)" "in_nextDealSector inp = None"
  shows "asks inp inp' out \<and> (r = GoOk False \<longrightarrow> inp' = inp \<and> out = [])"
  using maybeUpgradeSector_cases [OF assms(1)] assms(2) by (auto simp: asks_def split: if_splits)

lemma tryGetDealSector_asks:
  assumes "tryGetDealSector me sp inp ss = (r, inp', ss', out)"
  shows "asks inp inp' out"
proof (cases "in_nextDealSector inp = None")
  case True
  have none: "asks inp inp []" by (simp add: asks_def)
  obtain r1 inp1 out1 where u: "\<And>cfg. sv_config (me_env me) = Some cfg \<Longrightarrow> maybeUpgradeSector me sp cfg inp = (r1, inp1, out1)"
    by (metis option.inject prod_cases3)
  show ?thesis
  proof (cases "sv_config (me_env me)")
    case None
    then show ?thesis using assms True none by (simp add: tryGetDealSector_def)
  next
    case (Some cfg)
    note m = maybeUpgradeSector_asks [OF u [OF Some] True]
    show ?thesis
      using assms True none Some u [OF Some] m createDealSector_asks
      by (auto simp: tryGetDealSector_def Let_def split: if_splits go.splits bool.splits)
  qed
next
  case False
  then show ?thesis using assms by (auto simp: tryGetDealSector_def asks_def)
qed

text \<open>
  Property C12. A run of \<^verbatim>\<open>updateInput\<close> assigns no piece twice and touches no piece that was assigned
  before; every piece it assigns goes to exactly one sector, which was open, was willing to take the
  deal (its end, the end of its claim and the sector's expiration agree) and had
  room for it when the run began; the pieces are appended to the list of their sector, every
  sector whose machine can be reached is told once per piece, and at most one sector is asked for on top,
  and none while one is on its way.
\<close>

theorem updateInput_assigns_once:
  assumes "updateInput me sp inp ss = (GoOk (), inp', ss', out)" "sv_SectorSize (me_env me) sp = Some ssize"
  shows "\<exists>asg ask. distinct (map fst asg)
    \<and> (\<forall>c sn. (c, sn) \<in> set asg \<longrightarrow>
         (\<exists>m. matchOf me ssize inp m \<and> mt_deal m = c \<and> mt_sector m = sn)
         \<and> map_option pn_assigned (gm_get (in_pendingPieces inp) c) = Some False)
    \<and> (\<forall>sn. assigned_to inp' sn = assigned_to inp sn @ map fst (filter (\<lambda>(c, s). s = sn) asg))
    \<and> (\<forall>c. map_option pn_assigned (gm_get (in_pendingPieces inp') c)
         = (if c \<in> fst ` set asg then Some True else map_option pn_assigned (gm_get (in_pendingPieces inp) c)))
    \<and> out = toldOf me asg @ ask \<and> length ask \<le> 1 \<and> (in_nextDealSector inp \<noteq> None \<longrightarrow> ask = [])
    \<and> (\<forall>(sn, e) \<in> set ask. in_nextDealSector inp' = Some sn \<and> e \<noteq> SectorAddPiece)"
proof -
  obtain ms todo todo' inp1 out1 where m: "matchPieces me ssize (in_openSectors inp) (in_pendingPieces inp) = Some (ms, todo)"
    and l: "assign_loop me ssize (sortMatches me ms) todo inp = Some (todo', inp1, out1)"
    and t: "(todo' = [] \<and> inp' = inp1 \<and> out = out1)
      \<or> (\<exists>r out2. tryGetDealSector me sp inp1 ss = (r, inp', ss', out2) \<and> out = out1 @ out2)"
    using assms by (auto simp: updateInput_def split: option.splits if_splits go.splits prod.splits)
  obtain asg where a: "assigns (sortMatches me ms) inp asg inp1" "out1 = toldOf me asg"
    using assign_loop_assigns [OF l] by blast
  have none: "asks inp1 inp1 []" by (simp add: asks_def)
  then have "\<exists>ask. asks inp1 inp' ask \<and> out = out1 @ ask"
    using t tryGetDealSector_asks by (metis append_Nil2)
  then obtain ask where k: "asks inp1 inp' ask" "out = out1 @ ask" by blast
  have r: "distinct (map fst asg)"
    "\<And>c sn. (c, sn) \<in> set asg \<Longrightarrow> (\<exists>m \<in> set (sortMatches me ms). mt_deal m = c \<and> mt_sector m = sn)
       \<and> map_option pn_assigned (gm_get (in_pendingPieces inp) c) = Some False"
    "\<And>sn. assigned_to inp1 sn = assigned_to inp sn @ map fst (filter (\<lambda>(c, s). s = sn) asg)"
    "\<And>c. map_option pn_assigned (gm_get (in_pendingPieces inp1) c)
       = (if c \<in> fst ` set asg then Some True else map_option pn_assigned (gm_get (in_pendingPieces inp) c))"
    "in_nextDealSector inp1 = in_nextDealSector inp"
    using a(1) unfolding assigns_def by blast+
  have k': "length ask \<le> 1" "in_nextDealSector inp \<noteq> None \<longrightarrow> ask = []"
    "\<forall>(sn, e) \<in> set ask. in_nextDealSector inp' = Some sn \<and> e \<noteq> SectorAddPiece"
    "in_pendingPieces inp' = in_pendingPieces inp1" "\<And>sn. assigned_to inp' sn = assigned_to inp1 sn"
    using k(1) r(5) by (simp_all add: asks_def assigned_to_def)
  show ?thesis
    using r k' a(2) k(2) matches_sound [OF m]
    by (intro exI [of _ asg] exI [of _ ask] conjI allI impI) (simp_all, blast)
qed

section \<open>An example\<close>

definition matchEnv :: match_env where
  "matchEnv = \<lparr>me_env = fineEnv, me_send = (\<lambda>sn e. True), me_NextSectorNumber = Some 9, me_NewSector = (\<lambda>sp sn. True),
     me_PaddedSize = (\<lambda>s. s), me_proposalCid = (\<lambda>p. Some 1), me_SectorMaxLifetime = 1000000, me_miner = 1000,
     me_tie = (\<lambda>i. i)\<rparr>"

definition dealOf :: "nat \<Rightarrow> cid \<Rightarrow> 64 word \<Rightarrow> int \<Rightarrow> dealInfo" where
  "dealOf i piece sz dealEnd =
     \<lparr>di_PublishCid = None, di_DealID = i,
      di_DealProposal = Some \<lparr>dp_PieceCID = piece, dp_PieceSize = sz, dp_VerifiedDeal = True, dp_Client = 1, dp_Provider = 1000,
        dp_Label = '''', dp_StartEpoch = 5000, dp_EndEpoch = dealEnd, dp_StoragePricePerEpoch = 0, dp_ProviderCollateral = 0,
        dp_ClientCollateral = 0\<rparr>,
      di_EndEpoch = dealEnd, di_KeepUnsealed = True\<rparr>"

definition waitingPiece :: "nat \<Rightarrow> 64 word \<Rightarrow> int \<Rightarrow> int \<Rightarrow> pendingPiece" where
  "waitingPiece i sz dealEnd claimTermEnd =
     \<lparr>pn_resp = None, pn_size = sz, pn_deal = dealOf i (1000 + unat sz) (sz + sz div 127) dealEnd,
      pn_claimTermEnd = claimTermEnd, pn_data = i, pn_assigned = False\<rparr>"

text \<open>A sector of 2048 with a piece of 128 in it; a deal of 512 and two of 1024 are waiting.\<close>

definition crowdedInput :: inputState where
  "crowdedInput = emptyInput\<lparr>
     in_openSectors := [(3, \<lparr>os_used = 127, os_lastDealEnd = 0, os_number = 3, os_ccUpdate = False\<rparr>)],
     in_pendingPieces := [(1, waitingPiece 1 508 600000 900000), (2, waitingPiece 2 1016 600000 900000),
                          (4, waitingPiece 4 1016 600000 900000)]\<rparr>"

text \<open>Matching and assigning, without the request for a new sector that may follow.\<close>

definition matchAndAssign :: "match_env \<Rightarrow> 64 word \<Rightarrow> inputState \<Rightarrow> (cid list \<times> inputState \<times> mail) option" where
  "matchAndAssign me ssize inp =
     (case matchPieces me ssize (in_openSectors inp) (in_pendingPieces inp) of
        None \<Rightarrow> None
      | Some (matches, todo) \<Rightarrow> assign_loop me ssize (sortMatches me matches) todo inp)"

lemma updateInput_done:
  assumes "matchAndAssign me ssize inp = Some ([], inp', out)" "sv_SectorSize (me_env me) sp = Some ssize"
  shows "updateInput me sp inp ss = (GoOk (), inp', ss, out)"
  using assms by (auto simp: matchAndAssign_def updateInput_def split: option.splits)

lemma updateInput_assigned:
  assumes "matchAndAssign me ssize inp = Some (todo, inp1, out1)" "sv_SectorSize (me_env me) sp = Some ssize"
  shows "\<exists>r inp' ss' out. updateInput me sp inp ss = (r, inp', ss', out) \<and> in_assignedPieces inp' = in_assignedPieces inp1"
proof -
  obtain r inp' ss' out where t: "tryGetDealSector me sp inp1 ss = (r, inp', ss', out)" by (metis prod_cases4)
  then show ?thesis
    using assms tryGetDealSector_asks [OF t]
    by (auto simp: matchAndAssign_def updateInput_def asks_def split: option.splits go.splits)
qed

definition crowdedAfter :: inputState where
  "crowdedAfter = crowdedInput\<lparr>
     in_openSectors := [(3, \<lparr>os_used = 4826, os_lastDealEnd = 600000, os_number = 3, os_ccUpdate = False\<rparr>)],
     in_pendingPieces := map (\<lambda>(c, p). (c, p\<lparr>pn_assigned := True\<rparr>)) (in_pendingPieces crowdedInput),
     in_assignedPieces := [(3, [1, 2, 4])]\<rparr>"

lemma crowded_assigned:
  "map_option (\<lambda>(todo, inp', out). (todo, inp')) (matchAndAssign matchEnv 2048 crowdedInput) = Some ([], crowdedAfter)"
  by code_simp

lemma matchEnv_size: "sv_SectorSize (me_env matchEnv) 8 = Some 2048" "sv_unpadded (me_env matchEnv) 2048 = 2032"
  by (simp_all add: matchEnv_def fineEnv_def)

lemma crowded_runs: "\<exists>out. updateInput matchEnv 8 crowdedInput zeroStats = (GoOk (), crowdedAfter, zeroStats, out)"
proof -
  obtain out where "matchAndAssign matchEnv 2048 crowdedInput = Some ([], crowdedAfter, out)"
    using crowded_assigned by (auto simp del: not_None_eq)
  then show ?thesis using updateInput_done matchEnv_size(1) by blast
qed

text \<open>Witness of C12: the three pieces are assigned, each once.\<close>

theorem updateInput_assigns_once_witness:
  "\<exists>inp' ss' out asg. updateInput matchEnv 8 crowdedInput zeroStats = (GoOk (), inp', ss', out) \<and> distinct (map fst asg)
     \<and> assigned_to inp' 3 = assigned_to crowdedInput 3 @ map fst (filter (\<lambda>(c, s). s = (3 :: nat)) asg)"
proof -
  obtain inp' ss' out where u: "updateInput matchEnv 8 crowdedInput zeroStats = (GoOk (), inp', ss', out)"
    using crowded_runs by blast
  from updateInput_assigns_once [OF u matchEnv_size(1)]
  obtain asg where "distinct (map fst asg)"
    "\<forall>sn. assigned_to inp' sn = assigned_to crowdedInput sn @ map fst (filter (\<lambda>(c, s). s = sn) asg)"
    by (elim exE conjE) (rule that)
  then show ?thesis using u by (intro exI [of _ inp'] exI [of _ ss'] exI [of _ out] exI [of _ asg]) simp
qed

end
