(* ===== verification/Sealing_Upgrade.thy ===== *)
theory Sealing_Upgrade
  imports Sealing_Match_Props
begin

text \<open>
  Upgrading a committed capacity sector for deals (storage/pipeline/input.go): the bytes that
  \<^verbatim>\<open>pendingPieceEpochBounds\<close> counts for an expiration are those of the waiting deals that end before
  it and whose claims last until it, so that the sector which is chosen takes one of them; and
  while it is on its way no other sector is asked for.
\<close>

section \<open>Bytes by epoch\<close>

text \<open>What a bound adds to the bytes, by the sizes \<open>g\<close> of the pieces, and the sum over the bounds with an epoch in \<open>Q\<close>.\<close>

definition boundValue :: "(cid \<Rightarrow> 64 word) \<Rightarrow> pieceBound \<Rightarrow> 64 word" where
  "boundValue g b = sum_list (map g (pb_boundStart b)) - sum_list (map g (pb_boundEnd b))"

definition boundSum :: "(cid \<Rightarrow> 64 word) \<Rightarrow> (int \<Rightarrow> bool) \<Rightarrow> pieceBound list \<Rightarrow> 64 word" where
  "boundSum g Q bs = sum_list (map (boundValue g) (filter (\<lambda>b. Q (pb_epoch b)) bs))"

definition keyed :: "(int, pieceBound) gomap \<Rightarrow> bool" where
  "keyed bounds \<longleftrightarrow> (\<forall>(e, b) \<in> set bounds. pb_epoch b = e)"

lemma boundAt_Cons: "boundAt ((e, b) # bounds) k = (if e = k then b else boundAt bounds k)"
  by (simp add: boundAt_def)

lemma boundAt_epoch: "keyed bounds \<Longrightarrow> pb_epoch (boundAt bounds k) = k"
  by (auto simp: boundAt_def keyed_def dest: map_of_SomeD split: option.splits)

lemma keyed_set: "keyed bounds \<Longrightarrow> pb_epoch b = k \<Longrightarrow> keyed (gm_set k b bounds)"
  by (induction bounds) (auto simp: keyed_def)

lemma boundSum_set:
  assumes "keyed bounds" "pb_epoch b = k"
  shows "boundSum g Q (map snd (gm_set k b bounds)) =
    boundSum g Q (map snd bounds) + (if Q k then boundValue g b - boundValue g (boundAt bounds k) else 0)"
  using assms(1)
proof (induction bounds)
  case Nil
  then show ?case using assms(2) by (simp add: boundSum_def boundValue_def boundAt_def)
next
  case (Cons x bounds)
  obtain e v where x: "x = (e, v)" by (cases x)
  have v: "pb_epoch v = e" "keyed bounds" using Cons.prems x by (auto simp: keyed_def)
  show ?case using Cons.IH [OF v(2)] v(1) assms(2) unfolding x boundAt_Cons boundSum_def by simp
qed

text \<open>The same sum taken over the pieces: plus at the end of the deal, minus at the end of the claim.\<close>

definition pieceValue :: "(cid \<Rightarrow> 64 word) \<Rightarrow> (int \<Rightarrow> bool) \<Rightarrow> cid \<times> pendingPiece \<Rightarrow> 64 word" where
  "pieceValue g Q = (\<lambda>(c, piece).
     case di_DealProposal (pn_deal piece) of
       None \<Rightarrow> 0
     | Some proposal \<Rightarrow>
         if pn_assigned piece then 0
         else (if Q (dp_EndEpoch proposal) then g c else 0) - (if Q (pn_claimTermEnd piece) then g c else 0))"

lemma bounds_loop_sum:
  "keyed bounds \<Longrightarrow> bounds_loop ps bounds = Some bounds' \<Longrightarrow>
     boundSum g Q (map snd bounds') = boundSum g Q (map snd bounds) + sum_list (map (pieceValue g Q) ps)"
proof (induction ps bounds rule: bounds_loop.induct)
  case (2 c piece ps bounds)
  show ?case
  proof (cases "pn_assigned piece")
    case True
    then show ?thesis using 2 by (simp add: pieceValue_def split: option.splits)
  next
    case False
    then obtain proposal where p: "di_DealProposal (pn_deal piece) = Some proposal"
      using "2.prems"(2) by (auto split: option.splits)
    define s where "s = boundAt bounds (dp_EndEpoch proposal)"
    define b1 where "b1 = gm_set (dp_EndEpoch proposal) (s\<lparr>pb_boundStart := pb_boundStart s @ [c]\<rparr>) bounds"
    define e where "e = boundAt b1 (pn_claimTermEnd piece)"
    define b2 where "b2 = gm_set (pn_claimTermEnd piece) (e\<lparr>pb_boundEnd := pb_boundEnd e @ [c]\<rparr>) b1"
    have s: "pb_epoch (s\<lparr>pb_boundStart := pb_boundStart s @ [c]\<rparr>) = dp_EndEpoch proposal"
      using boundAt_epoch [OF "2.prems"(1)] by (simp add: s_def)
    have k1: "keyed b1" unfolding b1_def by (rule keyed_set [OF "2.prems"(1) s])
    have e: "pb_epoch (e\<lparr>pb_boundEnd := pb_boundEnd e @ [c]\<rparr>) = pn_claimTermEnd piece"
      using boundAt_epoch [OF k1] by (simp add: e_def)
    have k2: "keyed b2" unfolding b2_def by (rule keyed_set [OF k1 e])
    have "boundSum g Q (map snd b2) = boundSum g Q (map snd bounds) + pieceValue g Q (c, piece)"
      using boundSum_set [OF k1 e, of g Q, folded b2_def e_def] boundSum_set [OF "2.prems"(1) s, of g Q, folded b1_def s_def] False p
      by (simp add: pieceValue_def boundValue_def)
    moreover have r: "bounds_loop ps b2 = Some bounds'"
      using "2.prems"(2) False p by (simp add: Let_def s_def b1_def e_def b2_def)
    moreover have "boundSum g Q (map snd bounds') = boundSum g Q (map snd b2) + sum_list (map (pieceValue g Q) ps)"
      using "2.IH"(2) [OF False p s_def b1_def e_def] k2 r unfolding b2_def by blast
    ultimately show ?thesis by simp
  qed
qed simp

text \<open>The bytes noted in the sorted bounds are running sums.\<close>

definition sizeOf :: "(cid, pendingPiece) gomap \<Rightarrow> cid \<Rightarrow> 64 word" where
  "sizeOf pending c = (case gm_get pending c of None \<Rightarrow> 0 | Some piece \<Rightarrow> pn_size piece)"

lemma pieceBytes_sum: "pieceBytes pending cs = Some w \<Longrightarrow> w = sum_list (map (sizeOf pending) cs)"
  by (induction cs arbitrary: w) (auto simp: sizeOf_def split: option.splits)

lemma boundBytes_loop_sums:
  "boundBytes_loop pending cur bs = Some bs' \<Longrightarrow>
     map pb_epoch bs' = map pb_epoch bs
     \<and> (\<forall>i < length bs. pb_dealBytesInBound (bs' ! i) = cur + sum_list (map (boundValue (sizeOf pending)) (take (Suc i) bs)))"
proof (induction bs arbitrary: cur bs')
  case (Cons b bs)
  obtain started ended where p: "pieceBytes pending (pb_boundStart b) = Some started" "pieceBytes pending (pb_boundEnd b) = Some ended"
    using Cons.prems by (auto split: option.splits)
  let ?cur = "cur + started - ended"
  obtain bs1 where r: "boundBytes_loop pending ?cur bs = Some bs1" and bs': "bs' = b\<lparr>pb_dealBytesInBound := ?cur\<rparr> # bs1"
    using Cons.prems p by (auto simp: Let_def)
  have v: "?cur = cur + boundValue (sizeOf pending) b"
    using pieceBytes_sum [OF p(1)] pieceBytes_sum [OF p(2)] by (simp add: boundValue_def)
  have "pb_dealBytesInBound (bs' ! i) = cur + sum_list (map (boundValue (sizeOf pending)) (take (Suc i) (b # bs)))"
    if "i < length (b # bs)" for i
  proof (cases i)
    case 0
    then show ?thesis using bs' v by simp
  next
    case (Suc j)
    then show ?thesis using Cons.IH [OF r] that bs' v by (simp add: add.assoc)
  qed
  then show ?case using Cons.IH [OF r] bs' by simp
qed simp

lemma takeWhile_sorted:
  "sorted (map pb_epoch bs) \<Longrightarrow> takeWhile (\<lambda>b. pb_epoch b < k) bs = filter (\<lambda>b. pb_epoch b < k) bs"
proof (induction bs)
  case (Cons b bs)
  have "filter (\<lambda>c. pb_epoch c < k) bs = []" if "\<not> pb_epoch b < k"
    using Cons.prems that by (fastforce simp: filter_empty_conv)
  with Cons show ?case by simp
qed simp

lemma length_takeWhile_epochs:
  "map pb_epoch bs' = map pb_epoch bs \<Longrightarrow>
     length (takeWhile (\<lambda>b. pb_epoch b < k) bs') = length (takeWhile (\<lambda>b. pb_epoch b < (k::int)) bs)"
proof -
  assume m: "map pb_epoch bs' = map pb_epoch bs"
  have "length (takeWhile (\<lambda>b. pb_epoch b < k) xs) = length (takeWhile (\<lambda>e. e < k) (map pb_epoch xs))" for xs
    by (simp add: takeWhile_map comp_def)
  then show ?thesis using m by metis
qed

lemma findBound_bytes:
  assumes "pendingPieceEpochBounds inp = Some bounds" "findBound bounds expiration = Some pb"
  shows "pb_dealBytesInBound pb = sum_list (map (pieceValue (sizeOf (in_pendingPieces inp)) (\<lambda>e. e < expiration)) (in_pendingPieces inp))"
proof -
  let ?g = "sizeOf (in_pendingPieces inp)" and ?Q = "\<lambda>e. e < expiration"
  obtain m where m: "bounds_loop (in_pendingPieces inp) [] = Some m"
    and b: "boundBytes_loop (in_pendingPieces inp) 0 (sort_key pb_epoch (map snd m)) = Some bounds"
    using assms(1) by (auto simp: pendingPieceEpochBounds_def split: option.splits)
  let ?bs = "sort_key pb_epoch (map snd m)"
  note l = boundBytes_loop_sums [OF b]
  let ?f = "length (takeWhile (\<lambda>b. pb_epoch b < expiration) ?bs)"
  have f: "length (takeWhile (\<lambda>b. pb_epoch b < expiration) bounds) = ?f" using l length_takeWhile_epochs by blast
  then have pb: "?f \<noteq> 0" "pb = bounds ! (?f - 1)"
    using assms(2) by (auto simp: findBound_def Let_def not_le split: if_splits)
  obtain n where n: "?f = Suc n" using pb(1) by (cases ?f) simp_all
  have "?f \<le> length ?bs" by (rule length_takeWhile_le)
  then have "n < length ?bs" unfolding n by simp
  then have "pb_dealBytesInBound pb = sum_list (map (boundValue ?g) (take ?f ?bs))"
    using l pb(2) unfolding n by simp
  also have "take ?f ?bs = filter (\<lambda>b. pb_epoch b < expiration) ?bs"
    using takeWhile_sorted [OF sorted_sort_key, of expiration "map snd m"] takeWhile_eq_take by metis
  also have "sum_list (map (boundValue ?g) (filter (\<lambda>b. pb_epoch b < expiration) ?bs)) = boundSum ?g ?Q (map snd m)"
    unfolding boundSum_def by (simp flip: sum_mset_sum_list)
  also have "\<dots> = sum_list (map (pieceValue ?g ?Q) (in_pendingPieces inp))"
    using bounds_loop_sum [OF _ m, of ?g ?Q] by (simp add: keyed_def boundSum_def)
  finally show ?thesis .
qed

text \<open>
  A waiting deal that an upgraded sector with the expiration takes. The claims cover the deals if no
  claim ends before its deal: without an allocation the end of the claim is put after the end of
  the deal, and the chain gives an allocation at least the length of the deal.
\<close>

definition fitsExpiration :: "inputState \<Rightarrow> int \<Rightarrow> pendingPiece \<Rightarrow> dealProposal \<Rightarrow> bool" where
  "fitsExpiration inp expiration piece proposal \<longleftrightarrow>
     piece \<in> snd ` set (in_pendingPieces inp) \<and> \<not> pn_assigned piece \<and> di_DealProposal (pn_deal piece) = Some proposal
     \<and> dp_EndEpoch proposal < expiration \<and> expiration \<le> pn_claimTermEnd piece"

definition claimsCoverDeals :: "inputState \<Rightarrow> bool" where
  "claimsCoverDeals inp \<longleftrightarrow>
     (\<forall>(c, piece) \<in> set (in_pendingPieces inp). \<forall>proposal.
        di_DealProposal (pn_deal piece) = Some proposal \<longrightarrow> dp_EndEpoch proposal \<le> pn_claimTermEnd piece)"

text \<open>The entry point for deals keeps it so, when the claim terms it computes do.\<close>

lemma getClaimTerms_covers:
  assumes "getClaimTerms me dealID proposal tsk = Some claimTermEnd"
    and "0 \<le> me_SectorMaxLifetime me" "is_int64 (dp_EndEpoch proposal + me_SectorMaxLifetime me)"
    and "\<And>alloc. ca_StateGetAllocationForPendingDeal (sv_api (me_env me)) dealID tsk = Some (Some alloc) \<Longrightarrow>
      dp_EndEpoch proposal - dp_StartEpoch proposal \<le> al_TermMax alloc \<and> is_int64 (dp_StartEpoch proposal + al_TermMax alloc)"
  shows "dp_EndEpoch proposal \<le> claimTermEnd"
  using assms
  by (auto simp: getClaimTerms_def Let_def wrap64_id split: option.splits if_splits)

lemma SectorAddPieceToAny_covers:
  assumes "SectorAddPieceToAny me sz content deal inp = (r, inp')" "claimsCoverDeals inp"
    and "\<And>proposal tsk claimTermEnd. di_DealProposal deal = Some proposal \<Longrightarrow>
      getClaimTerms me (di_DealID deal) proposal tsk = Some claimTermEnd \<Longrightarrow> dp_EndEpoch proposal \<le> claimTermEnd"
  shows "claimsCoverDeals inp'"
proof (cases "inp' = inp")
  case False
  then obtain claimTermEnd proposal tsk where i: "inp' = addPendingPiece me sz content deal claimTermEnd inp"
    "di_DealProposal deal = Some proposal" "getClaimTerms me (di_DealID deal) proposal tsk = Some claimTermEnd"
    using assms(1) by (auto simp: SectorAddPieceToAny_def Let_def split: option.splits if_splits)
  have "set (gm_set k v m) \<subseteq> insert (k, v) (set m)" for k m and v :: pendingPiece
    by (induction m) auto
  then show ?thesis
    using assms(2) assms(3) [OF i(2,3)] i(1,2) unfolding claimsCoverDeals_def addPendingPiece_def by fastforce
qed (use assms(2) in simp)

lemma sum_list_nonzero: "sum_list (map f xs) \<noteq> (0 :: 'a :: monoid_add) \<Longrightarrow> \<exists>x \<in> set xs. f x \<noteq> 0"
  by (induction xs) auto

lemma findBound_fits:
  assumes "pendingPieceEpochBounds inp = Some bounds" "findBound bounds expiration = Some pb"
    and "pb_dealBytesInBound pb \<noteq> 0" "claimsCoverDeals inp"
  shows "\<exists>piece proposal. fitsExpiration inp expiration piece proposal"
proof -
  let ?v = "pieceValue (sizeOf (in_pendingPieces inp)) (\<lambda>e. e < expiration)"
  have "sum_list (map ?v (in_pendingPieces inp)) \<noteq> 0" using findBound_bytes [OF assms(1,2)] assms(3) by simp
  then obtain c piece where m: "(c, piece) \<in> set (in_pendingPieces inp)" "?v (c, piece) \<noteq> 0"
    using sum_list_nonzero by fast
  then obtain proposal where p: "di_DealProposal (pn_deal piece) = Some proposal" "\<not> pn_assigned piece"
    "(dp_EndEpoch proposal < expiration) \<noteq> (pn_claimTermEnd piece < expiration)"
    by (auto simp: pieceValue_def split: option.splits if_splits)
  have "dp_EndEpoch proposal \<le> pn_claimTermEnd piece" using assms(4) m(1) p(1) by (auto simp: claimsCoverDeals_def)
  with p(3) have "dp_EndEpoch proposal < expiration" "expiration \<le> pn_claimTermEnd piece" by linarith+
  then show ?thesis using m(1) p(1,2) unfolding fitsExpiration_def by force
qed

lemma fits_assignable:
  assumes "fitsExpiration inp expiration piece proposal" "getExpirationCached me sn = Some (expiration, pledge)"
    and "os_number os = sn" "os_lastDealEnd os \<le> pn_claimTermEnd piece"
  shows "checkDealAssignable me os (dp_EndEpoch proposal) piece = Some True"
  using assms by (auto simp: checkDealAssignable_def fitsExpiration_def)

section \<open>Until the sector is open\<close>

text \<open>Only the handler that opens the sector for deals forgets that it is on its way.\<close>

lemma accept_pending_next: "accept_pending c sn off err pp inp = Some inp' \<Longrightarrow> in_nextDealSector inp' = in_nextDealSector inp"
  by (auto simp: accept_pending_def dest: accepted_fields split: option.splits)

lemma cleanup_loop_next: "cleanup_loop sn cs inp = Some inp' \<Longrightarrow> in_nextDealSector inp' = in_nextDealSector inp"
proof (induction cs arbitrary: inp)
  case (Cons c cs)
  then show ?case by (auto simp: Let_def dest!: accepted_fields split: option.splits)
qed simp

lemma cleanupAssignedDeals_next: "cleanupAssignedDeals si inp = Some inp' \<Longrightarrow> in_nextDealSector inp' = in_nextDealSector inp"
  by (auto simp: cleanupAssignedDeals_def dest: cleanup_loop_next split: option.splits)

lemma maybeStartSealing_next: "in_nextDealSector (snd (maybeStartSealing env si used inp)) = in_nextDealSector inp"
  by (auto simp: maybeStartSealing_def startByTime_def Let_def split: option.splits timer.splits)

lemma handleWaitDeals_next:
  assumes "in_nextDealSector inp = Some sn" "si_SectorNumber si \<noteq> sn"
  shows "in_nextDealSector (snd (handleWaitDeals env si inp)) = Some sn"
proof (cases "usage_loop env 0 0 (si_Pieces si)")
  case (Some u)
  obtain r inp2 where m: "maybeStartSealing env si (fst u) inp = (r, inp2)" by (metis surj_pair)
  then have "in_nextDealSector inp2 = Some sn" using maybeStartSealing_next [of env si "fst u" inp] assms(1) by simp
  then show ?thesis using assms Some m
    by (cases u) (auto simp: handleWaitDeals_def openForDeals_def Let_def split: go.splits bool.splits)
qed (use assms in \<open>simp add: handleWaitDeals_def\<close>)

lemma addAssigned_next:
  "addAssigned env si ssize i c deal pr inp = AddNext pr' inp' \<Longrightarrow> in_nextDealSector inp' = in_nextDealSector inp"
  "addAssigned env si ssize i c deal pr inp = AddFailed inp' \<Longrightarrow> in_nextDealSector inp' = in_nextDealSector inp"
  by (auto simp: addAssigned_def addDeal_def Let_def dest: accept_pending_next split: if_splits option.splits)

lemma addPieces_loop_next: "in_nextDealSector (snd (addPieces_loop env si ssize i cs pr inp)) = in_nextDealSector inp"
proof (induction cs arbitrary: i pr inp)
  case (Cons c cs)
  then show ?case by (auto dest: addAssigned_next split: option.splits addStep.splits)
qed simp

lemma runHandler_next:
  assumes "in_nextDealSector inp = Some sn" "si_SectorNumber si \<noteq> sn \<or> h \<noteq> ''handleWaitDeals''"
  shows "in_nextDealSector (snd (runHandler env h si inp)) = Some sn"
proof -
  have "in_nextDealSector (snd (handleAddPiece env si inp)) = Some sn"
    "in_nextDealSector (snd (handlePacking env si inp)) = Some sn"
    "in_nextDealSector (snd (handleAbortUpgrade env si inp)) = Some sn"
    "in_nextDealSector (snd (handleProvingSector env si inp)) = Some sn"
    "in_nextDealSector (snd (handleAvailableSector env si inp)) = Some sn"
    using assms(1) cleanupAssignedDeals_next
    by (auto simp: handleAddPiece_def handlePacking_def handleAbortUpgrade_def handleProvingSector_def
        handleAvailableSector_def addPieces_loop_next Let_def split: option.splits)
  moreover have "in_nextDealSector (snd (handleWaitDeals env si inp)) = Some sn" if "h = ''handleWaitDeals''"
    using handleWaitDeals_next assms that by blast
  ultimately show ?thesis using assms(1)
    by (cases "map_of inputHandlers h") (auto simp: runHandler_def inputHandlers_def split: option.splits if_splits)
qed

text \<open>
  What can happen to the deal input while sector \<open>sn\<close> is on its way: anything but the handler that
  opens it. The list has the events sent to sectors by the input itself.
\<close>

inductive beforeOpen :: "nat \<Rightarrow> inputState \<Rightarrow> mail \<Rightarrow> inputState \<Rightarrow> bool" for sn where
  start: "beforeOpen sn inp [] inp"
| update: "beforeOpen sn inp out inp1 \<Longrightarrow> updateInput me sp inp1 ss = (r, inp2, ss', out') \<Longrightarrow> beforeOpen sn inp (out @ out') inp2"
| add: "beforeOpen sn inp out inp1 \<Longrightarrow> SectorAddPieceToAny me sz content deal inp1 = (r, inp2) \<Longrightarrow> beforeOpen sn inp out inp2"
| again: "beforeOpen sn inp out inp1 \<Longrightarrow> beforeOpen sn inp out (addPendingPiece me sz content deal claimTermEnd inp1)"
| abort: "beforeOpen sn inp out inp1 \<Longrightarrow> abortSectorUpgrade me sid inp1 = (res, inp2) \<Longrightarrow>
     beforeOpen sn inp (out @ (case res of None \<Rightarrow> [] | Some out' \<Rightarrow> out')) inp2"
| handler: "beforeOpen sn inp out inp1 \<Longrightarrow> si_SectorNumber si \<noteq> sn \<or> h \<noteq> ''handleWaitDeals'' \<Longrightarrow>
     beforeOpen sn inp out (snd (runHandler env h si inp1))"

lemma updateInput_next:
  assumes "updateInput me sp inp ss = (r, inp', ss', out)" "in_nextDealSector inp = Some sn"
  shows "in_nextDealSector inp' = Some sn \<and> (\<forall>(k, e) \<in> set out. e = SectorAddPiece)"
proof (cases "sv_SectorSize (me_env me) sp")
  case None
  then show ?thesis using assms by (simp add: updateInput_def)
next
  case (Some ssize)
  show ?thesis
  proof (cases "matchAndAssign me ssize inp")
    case None
    then show ?thesis using assms Some by (auto simp: updateInput_def matchAndAssign_def split: option.splits)
  next
    case m: (Some x)
    obtain todo inp1 out1 where x: "x = (todo, inp1, out1)" by (cases x)
    then obtain ms where "assign_loop me ssize ms (snd (the (matchPieces me ssize (in_openSectors inp) (in_pendingPieces inp)))) inp
        = Some (todo, inp1, out1)"
      using m by (auto simp: matchAndAssign_def split: option.splits)
    then obtain asg where a: "assigns ms inp asg inp1" "out1 = toldOf me asg" using assign_loop_assigns by blast
    have n: "in_nextDealSector inp1 = Some sn" using a(1) assms(2) by (simp add: assigns_def)
    have "tryGetDealSector me sp inp1 ss = (GoOk (), inp1, ss, [])" using n by (simp add: tryGetDealSector_def)
    then have "inp' = inp1" "out = out1"
      using assms(1) Some m x by (auto simp: updateInput_def matchAndAssign_def split: option.splits if_splits)
    then show ?thesis using n a(2) by (auto simp: toldOf_def)
  qed
qed

lemma beforeOpen_asks_nobody:
  assumes "beforeOpen sn inp out inp'" "in_nextDealSector inp = Some sn"
  shows "in_nextDealSector inp' = Some sn \<and> (\<forall>(k, e) \<in> set out. e = SectorAddPiece \<or> e = SectorAbortUpgrade)"
  using assms
proof induction
  case (update inp out inp1 me sp ss r inp2 ss' out')
  then show ?case using updateInput_next [OF update.hyps(2)] by auto
next
  case (add inp out inp1 me sz content deal r inp2)
  then show ?case
    by (auto simp: SectorAddPieceToAny_def addPendingPiece_def Let_def split: if_splits option.splits)
next
  case (handler inp out inp1 si h env)
  then show ?case using runHandler_next by blast
qed (auto simp: addPendingPiece_def abortSectorUpgrade_def split: if_splits)

section \<open>The sector that is upgraded\<close>

text \<open>
  Property C13. The sector that \<^verbatim>\<open>maybeUpgradeSector\<close> upgrades was available, is active on chain and
  does not expire before the configured minimum; a deal is waiting that ends before the sector
  expires and whose claim lasts until then, so that the sector takes it once it is open (unless it has got a
  deal that outlives the claim by then). It is not available any more and its machine is told to start.
  Until its handler opens it, whatever happens to the deal input, it stays the next sector for deals, and
  sectors are told of pieces and aborted upgrades only: no other sector is created or
  upgraded for deals. The minimum is an epoch after 0, the claims cover their deals, and no bytes
  take no space.
\<close>

theorem upgraded_sector_is_suitable:
  assumes "maybeUpgradeSector me sp cfg inp = (GoOk True, inp', out)"
    and "ca_ChainHead (sv_api (me_env me)) 0 = Some ts"
    and "0 < wrap64 (th_Height ts + cfg_MinUpgradeSectorExpiration cfg)"
    and "claimsCoverDeals inp" and "sv_padded (me_env me) 0 = 0"
  shows "\<exists>sn expiration pledge piece proposal.
    out = [(sn, SectorStartCCUpdate)] \<and> sn \<in> fst ` set (in_available inp)
    \<and> sectorActive (me_env me) EmptyTSK sn = Some True
    \<and> getExpirationCached me sn = Some (expiration, pledge)
    \<and> wrap64 (th_Height ts + cfg_MinUpgradeSectorExpiration cfg) \<le> expiration
    \<and> fitsExpiration inp expiration piece proposal
    \<and> (\<forall>os. os_number os = sn \<and> os_lastDealEnd os \<le> pn_claimTermEnd piece \<longrightarrow>
          checkDealAssignable me os (dp_EndEpoch proposal) piece = Some True)
    \<and> inp' = inp\<lparr>in_available := gm_delete sn (in_available inp), in_nextDealSector := Some sn\<rparr>
    \<and> (\<forall>out' inp''. beforeOpen sn inp' out' inp'' \<longrightarrow>
          in_nextDealSector inp'' = Some sn \<and> (\<forall>(k, e) \<in> set out'. e = SectorAddPiece \<or> e = SectorAbortUpgrade))"
proof -
  obtain ssize bounds best where b: "pendingPieceEpochBounds inp = Some bounds"
    and loop: "best = upgrade_loop me ssize bounds (map fst (in_available inp))
        \<lparr>uc_candidate = 0, uc_bestExpiration = 0, uc_bestDealBytes = 0, uc_bestPledge = TotalFilecoinInt\<rparr>"
    and best: "\<not> uc_bestExpiration best < wrap64 (th_Height ts + cfg_MinUpgradeSectorExpiration cfg)"
    and out: "out = [(uc_candidate best, SectorStartCCUpdate)]"
      "inp' = inp\<lparr>in_available := gm_delete (uc_candidate best) (in_available inp), in_nextDealSector := Some (uc_candidate best)\<rparr>"
    using assms(1,2) by (auto simp: maybeUpgradeSector_def Let_def split: option.splits if_splits)
  let ?sn = "uc_candidate best" and ?exp = "uc_bestExpiration best"
  have "suitable me bounds (map fst (in_available inp)) best"
    using upgrade_loop_suitable [of me ssize bounds "map fst (in_available inp)"] best assms(3) unfolding loop by force
  then have s: "?sn \<in> fst ` set (in_available inp)" "sectorActive (me_env me) EmptyTSK ?sn = Some True"
      "getExpirationCached me ?sn = Some (?exp, uc_bestPledge best)"
    and "\<exists>pb. findBound bounds ?exp = Some pb \<and> sv_padded (me_env me) (pb_dealBytesInBound pb) \<noteq> 0"
    unfolding suitable_def by auto
  then obtain pb where pb: "findBound bounds ?exp = Some pb" "sv_padded (me_env me) (pb_dealBytesInBound pb) \<noteq> 0"
    by blast
  then have "pb_dealBytesInBound pb \<noteq> 0" using assms(5) by metis
  then obtain piece proposal where fits: "fitsExpiration inp ?exp piece proposal"
    using findBound_fits [OF b pb(1) _ assms(4)] by blast
  have take: "checkDealAssignable me os (dp_EndEpoch proposal) piece = Some True"
    if "os_number os = ?sn \<and> os_lastDealEnd os \<le> pn_claimTermEnd piece" for os
    using fits_assignable [OF fits s(3)] that by blast
  have open1: "in_nextDealSector inp'' = Some ?sn \<and> (\<forall>(k, e) \<in> set out'. e = SectorAddPiece \<or> e = SectorAbortUpgrade)"
    if "beforeOpen ?sn inp' out' inp''" for out' inp''
    using beforeOpen_asks_nobody [OF that] out(2) by simp
  show ?thesis
    using s out best [unfolded not_less] fits take open1
    by (intro exI [of _ ?sn] exI [of _ ?exp] exI [of _ "uc_bestPledge best"] exI [of _ piece] exI [of _ proposal] conjI)
      (assumption | blast)+
qed

definition upgradeInput :: inputState where
  "upgradeInput = emptyInput\<lparr>in_available := [(5, ())], in_pendingPieces := [(1, waitingPiece 1 508 500000 900000)]\<rparr>"

lemma upgrade_runs: "fst (maybeUpgradeSector matchEnv 8 fineConfig upgradeInput) = GoOk True"
  by code_simp

text \<open>Witness of C13: the available sector, which expires at 600000, is upgraded for a deal that ends at 500000.\<close>

theorem upgraded_sector_is_suitable_witness:
  "\<exists>inp' out sn piece proposal. maybeUpgradeSector matchEnv 8 fineConfig upgradeInput = (GoOk True, inp', out)
     \<and> out = [(sn, SectorStartCCUpdate)] \<and> sn \<in> fst ` set (in_available upgradeInput)
     \<and> (\<exists>e. fitsExpiration upgradeInput e piece proposal)"
proof -
  obtain inp' out where u: "maybeUpgradeSector matchEnv 8 fineConfig upgradeInput = (GoOk True, inp', out)"
    using upgrade_runs by (metis prod.collapse)
  have "ca_ChainHead (sv_api (me_env matchEnv)) 0 = Some \<lparr>th_Key = [1], th_Height = 1100\<rparr>"
    "0 < wrap64 (th_Height \<lparr>th_Key = [1], th_Height = 1100\<rparr> + cfg_MinUpgradeSectorExpiration fineConfig)"
    "claimsCoverDeals upgradeInput" "sv_padded (me_env matchEnv) 0 = 0"
    by (simp_all add: matchEnv_def fine_defs wrap64_def claimsCoverDeals_def upgradeInput_def waitingPiece_def dealOf_def)
  from upgraded_sector_is_suitable [OF u this]
  obtain sn e piece proposal where "out = [(sn, SectorStartCCUpdate)]" "sn \<in> fst ` set (in_available upgradeInput)"
    "fitsExpiration upgradeInput e piece proposal"
    by (elim exE conjE) (rule that)
  then show ?thesis using u by (intro exI [of _ inp'] exI [of _ out] exI [of _ sn] exI [of _ piece] exI [of _ proposal]) auto
qed

end
