(* ===== verification/Sealing_Match_Limits.thy ===== *)
theory Sealing_Match_Limits
  imports Sealing_Match_Props
begin

text \<open>
  Where the bookkeeping of \<^verbatim>\<open>updateInput\<close> (storage/pipeline/input.go) goes wrong: the padding of a
  match is computed before anything is assigned, and the end of a deal is never compared with the claims of the
  deals that were assigned before it. Both results hold for every sector and all deals of the
  described kind.
\<close>

section \<open>One open sector\<close>

text \<open>The match of a waiting piece with the only open sector.\<close>

definition dealEndOf :: "pendingPiece \<Rightarrow> int" where
  "dealEndOf piece = (case di_DealProposal (pn_deal piece) of None \<Rightarrow> 0 | Some proposal \<Rightarrow> dp_EndEpoch proposal)"

definition matchWith :: "match_env \<Rightarrow> 64 word \<Rightarrow> nat \<Rightarrow> openSector \<Rightarrow> cid \<times> pendingPiece \<Rightarrow> dealMatch" where
  "matchWith me ssize sn os = (\<lambda>(c, piece).
     \<lparr>mt_sector = sn, mt_deal = c, mt_dealEnd = dealEndOf piece, mt_claimTermEnd = pn_claimTermEnd piece,
      mt_size = pn_size piece, mt_padding = freeSpace me ssize os mod pn_size piece\<rparr>)"

text \<open>A waiting piece that the sector takes.\<close>

definition acceptable :: "match_env \<Rightarrow> 64 word \<Rightarrow> openSector \<Rightarrow> pendingPiece \<Rightarrow> bool" where
  "acceptable me ssize os piece \<longleftrightarrow>
     \<not> pn_assigned piece \<and> di_DealProposal (pn_deal piece) \<noteq> None
     \<and> checkDealAssignable me os (dealEndOf piece) piece = Some True
     \<and> pn_size piece \<noteq> 0 \<and> pn_size piece \<le> freeSpace me ssize os"

lemma matchPieces_one:
  "\<forall>(c, piece) \<in> set ps. acceptable me ssize os piece \<Longrightarrow>
     matchPieces me ssize [(sn, os)] ps = Some (map (matchWith me ssize sn os) ps, map fst ps)"
proof (induction ps)
  case (Cons x ps)
  obtain c piece where x: "x = (c, piece)" by (cases x)
  have w: "acceptable me ssize os piece" using Cons.prems x by simp
  then obtain proposal where "di_DealProposal (pn_deal piece) = Some proposal" by (auto simp: acceptable_def)
  with w Cons x show ?case by (auto simp: acceptable_def matchWith_def dealEndOf_def Let_def not_less)
qed simp

lemma assignMatch_told:
  assumes "me_send me (mt_sector m) SectorAddPiece"
  obtains inp' out where "assignMatch me m os piece inp = Some (inp', out)"
    "in_openSectors inp' = gm_set (mt_sector m)
       (os\<lparr>os_used := os_used os + (mt_padding m + mt_size m), os_lastDealEnd := max (os_lastDealEnd os) (mt_dealEnd m)\<rparr>) (in_openSectors inp)"
    "in_pendingPieces inp' = gm_set (mt_deal m) (piece\<lparr>pn_assigned := True\<rparr>) (in_pendingPieces inp)"
    "assigned_to inp' (mt_sector m) = assigned_to inp (mt_sector m) @ [mt_deal m]"
  using assms by (auto simp: assignMatch_def Let_def assigned_to_def max_def)

text \<open>
  A list of matches with one sector is taken as a whole if at each of them the free space, as it is
  counted, is enough, and no deal ends after the claim of another one.
\<close>

lemma assign_all:
  assumes told: "me_send me sn SectorAddPiece"
  shows "\<lbrakk>\<forall>m \<in> set ms. mt_sector m = sn \<and> mt_padding m = r \<and> mt_size m = s \<and> os_lastDealEnd os \<le> mt_claimTermEnd m
        \<and> map_option pn_assigned (gm_get (in_pendingPieces inp) (mt_deal m)) = Some False;
      \<forall>m \<in> set ms. \<forall>n \<in> set ms. mt_dealEnd m \<le> mt_claimTermEnd n; distinct (map mt_deal ms);
      gm_get (in_openSectors inp) sn = Some os;
      \<forall>j < length ms. s \<le> freeSpace me ssize os - of_nat j * (r + s)\<rbrakk> \<Longrightarrow>
    \<exists>inp' out. assign_loop me ssize ms todo inp = Some (filter (\<lambda>c. c \<notin> mt_deal ` set ms) todo, inp', out)
      \<and> assigned_to inp' sn = assigned_to inp sn @ map mt_deal ms"
proof (induction ms arbitrary: todo inp os)
  case (Cons m ms)
  have m: "mt_sector m = sn" "mt_padding m = r" "mt_size m = s" "os_lastDealEnd os \<le> mt_claimTermEnd m"
    using Cons.prems(1) by (meson list.set_intros(1))+
  obtain piece where p: "gm_get (in_pendingPieces inp) (mt_deal m) = Some piece" "\<not> pn_assigned piece"
    using Cons.prems(1) by auto
  let ?os = "os\<lparr>os_used := os_used os + (mt_padding m + mt_size m), os_lastDealEnd := max (os_lastDealEnd os) (mt_dealEnd m)\<rparr>"
  obtain inp1 out1 where a: "assignMatch me m os piece inp = Some (inp1, out1)"
    and o: "in_openSectors inp1 = gm_set sn ?os (in_openSectors inp)"
    and q: "in_pendingPieces inp1 = gm_set (mt_deal m) (piece\<lparr>pn_assigned := True\<rparr>) (in_pendingPieces inp)"
    and t: "assigned_to inp1 sn = assigned_to inp sn @ [mt_deal m]"
    using assignMatch_told [of me m os piece inp] told m(1) by metis
  have "s \<le> freeSpace me ssize os" using Cons.prems(5) by force
  then have room: "\<not> freeSpace me ssize os < s" "\<not> mt_claimTermEnd m < os_lastDealEnd os" using m(4) by simp_all
  then have step: "assign_loop me ssize (m # ms) todo inp =
      map_option (\<lambda>(todo', inp'', out'). (todo', inp'', out1 @ out')) (assign_loop me ssize ms (removeAll (mt_deal m) todo) inp1)"
    using p m(1,3) a Cons.prems(4) by simp
  have "\<exists>inp' out. assign_loop me ssize ms (removeAll (mt_deal m) todo) inp1
        = Some (filter (\<lambda>c. c \<notin> mt_deal ` set ms) (removeAll (mt_deal m) todo), inp', out)
      \<and> assigned_to inp' sn = assigned_to inp1 sn @ map mt_deal ms"
  proof (rule Cons.IH)
    show "gm_get (in_openSectors inp1) sn = Some ?os" using o by simp
    have other: "mt_deal n \<noteq> mt_deal m" if "n \<in> set ms" for n using Cons.prems(3) that by (metis distinct.simps(2) image_eqI list.set_map list.simps(9))
    show "\<forall>n \<in> set ms. mt_sector n = sn \<and> mt_padding n = r \<and> mt_size n = s \<and> os_lastDealEnd ?os \<le> mt_claimTermEnd n
        \<and> map_option pn_assigned (gm_get (in_pendingPieces inp1) (mt_deal n)) = Some False"
      using Cons.prems(1,2) other unfolding q by simp
    show "\<forall>j < length ms. s \<le> freeSpace me ssize ?os - of_nat j * (r + s)"
    proof (intro allI impI)
      fix j assume "j < length ms"
      then have "s \<le> freeSpace me ssize os - of_nat (Suc j) * (r + s)" using Cons.prems(5) by (auto simp del: of_nat_Suc)
      then show "s \<le> freeSpace me ssize ?os - of_nat j * (r + s)"
        using m(2,3) by (simp add: freeSpace_def algebra_simps)
    qed
  qed (use Cons.prems in auto)
  then obtain inp' out where r: "assign_loop me ssize ms (removeAll (mt_deal m) todo) inp1
        = Some (filter (\<lambda>c. c \<notin> mt_deal ` set ms) (removeAll (mt_deal m) todo), inp', out)"
      "assigned_to inp' sn = assigned_to inp1 sn @ map mt_deal ms"
    by blast
  have "filter (\<lambda>c. c \<notin> mt_deal ` set ms) (removeAll (mt_deal m) todo) = filter (\<lambda>c. c \<notin> mt_deal ` set (m # ms)) todo"
    by (induction todo) auto
  then show ?case using step r t by auto
qed simp

section \<open>Too many pieces\<close>

text \<open>
  With room for two pieces and a bit more than two, the counted free space stays at least a piece:
  it is exact for the second piece and has wrapped around from the third on.
\<close>

lemma counted_space:
  fixes a s :: "64 word"
  assumes "2 * unat s < unat a" "unat a < 3 * unat s" "2 * n * unat s < 2 ^ 64" "j < n"
  shows "s \<le> a - of_nat j * (a mod s + s)"
proof -
  define A S where "A = int (unat a)" and "S = int (unat s)"
  have n: "int (2 * n * unat s) < int (2 ^ 64)" using assms(3) by (rule of_nat_less_iff [THEN iffD2])
  have b: "2 * S < A" "A < 3 * S" "int j < int n" "0 < S"
    using assms(1,2,4) unfolding A_def S_def by linarith+
  have bn: "2 * int n * S < 2 ^ 64" using n unfolding S_def by (simp only: of_nat_mult of_nat_numeral of_nat_power)
  have r: "A mod S = A - 2 * S"
  proof -
    have "A div S = 2" using b by (intro int_div_pos_eq [where r = "A - 2 * S"]) auto
    then show ?thesis by (simp add: minus_div_mult_eq_mod [symmetric])
  qed
  have u: "uint (a mod s) = A - 2 * S" using r by (simp add: A_def S_def uint_mod_distrib)
  have e: "uint (a - of_nat j * (a mod s + s)) = (A - int j * (A - S)) mod 2 ^ 64"
  proof -
    have "a mod s = word_of_int (A - 2 * S)" using u by (metis word_of_int_uint)
    then have "a - of_nat j * (a mod s + s) = word_of_int (A - int j * ((A - 2 * S) + S))"
      by (simp add: A_def S_def)
    then have "uint (a - of_nat j * (a mod s + s)) = uint (word_of_int (A - int j * (A - S)) :: 64 word)"
      by (simp only:) (simp add: algebra_simps)
    then show ?thesis unfolding uint_word_of_int by simp
  qed
  have "S \<le> (A - int j * (A - S)) mod 2 ^ 64"
  proof (cases "j \<le> 1")
    case True
    then have "j = 0 \<or> j = 1" by auto
    moreover have "A < 2 ^ 64" using unsigned_less [of a] by (simp add: A_def)
    ultimately show ?thesis using b by auto
  next
    case False
    define X where "X = int j * (A - S)"
    have "X \<le> int j * (2 * S)" unfolding X_def using b by (intro mult_left_mono) auto
    moreover have "(int j + 1) * S \<le> int n * S" using b by (intro mult_right_mono) auto
    ultimately have "X \<le> 2 * int n * S - 2 * S" by (simp add: algebra_simps)
    then have up: "X \<le> 2 ^ 64 - 2 * S" using bn by linarith
    have "2 * (A - S) \<le> X" unfolding X_def using False b by (intro mult_right_mono) auto
    then have "2 * A - 2 * S \<le> X" by (simp add: algebra_simps)
    then have neg: "A - X < 0" using b by linarith
    have low: "S \<le> A - X + 2 ^ 64" using b up by linarith
    have "(A - X) mod 2 ^ 64 = (A - X + 2 ^ 64) mod 2 ^ 64" by (simp only: mod_add_self2)
    also have "\<dots> = A - X + 2 ^ 64" by (rule mod_pos_pos_trivial) (use neg low b in linarith)+
    finally have "S \<le> (A - X) mod 2 ^ 64" using low by simp
    then show ?thesis unfolding X_def by simp
  qed
  then show ?thesis unfolding word_le_def e by (simp add: S_def)
qed

text \<open>
  Property C38. With one open sector and any number of waiting pieces of one size, if the sector has
  room for two of them and a bit more, but not for three, \<^verbatim>\<open>updateInput\<close> assigns all of them to it: the padding
  is added once per piece although it is needed once, so after two pieces the used bytes
  exceed the sector, the free space wraps around, and everything seems to fit. With three pieces or more
  the sector is assigned more bytes than it has free. The deals are such that the sector takes
  each of them on its own and none ends after the claim of another.
\<close>

theorem sector_overcommitted:
  fixes s :: "64 word"
  assumes "sv_SectorSize (me_env me) sp = Some ssize" and "me_send me sn SectorAddPiece"
    and "in_openSectors inp = [(sn, os)]" and "gm_ok (in_pendingPieces inp)" and "3 \<le> length (in_pendingPieces inp)"
    and "\<forall>(c, piece) \<in> set (in_pendingPieces inp). \<not> pn_assigned piece \<and> di_DealProposal (pn_deal piece) \<noteq> None
      \<and> checkDealAssignable me os (dealEndOf piece) piece = Some True \<and> pn_size piece = s"
    and "\<forall>(c, p) \<in> set (in_pendingPieces inp). \<forall>(d, q) \<in> set (in_pendingPieces inp). dealEndOf p \<le> pn_claimTermEnd q"
    and "2 * unat s < unat (freeSpace me ssize os)" "unat (freeSpace me ssize os) < 3 * unat s"
    and "2 * length (in_pendingPieces inp) * unat s < 2 ^ 64"
  shows "\<exists>inp' out cs. updateInput me sp inp ss = (GoOk (), inp', ss, out)
    \<and> mset cs = mset (map fst (in_pendingPieces inp)) \<and> assigned_to inp' sn = assigned_to inp sn @ cs
    \<and> unat (freeSpace me ssize os) < length cs * unat s"
proof -
  let ?ps = "in_pendingPieces inp" and ?a = "freeSpace me ssize os"
  have s: "s \<noteq> 0" "s \<le> ?a" using assms(8,9) by (auto simp: word_le_nat_alt)
  have ok: "\<forall>(c, piece) \<in> set ?ps. acceptable me ssize os piece" using assms(6) s by (fastforce simp: acceptable_def)
  define ms where "ms = sortMatches me (map (matchWith me ssize sn os) ?ps)"
  have set: "set ms = matchWith me ssize sn os ` set ?ps" unfolding ms_def by simp
  have mset: "mset ms = mset (map (matchWith me ssize sn os) ?ps)" unfolding ms_def by simp
  have deals: "mset (map mt_deal ms) = mset (map fst ?ps)"
  proof -
    have "image_mset mt_deal (mset ms) = image_mset mt_deal (mset (map (matchWith me ssize sn os) ?ps))" using mset by simp
    then show ?thesis by (simp add: image_mset.compositionality comp_def matchWith_def case_prod_unfold)
  qed
  then have d: "distinct (map mt_deal ms)" using assms(4) mset_eq_imp_distinct_iff by blast
  have len: "length ms = length ?ps" using mset by (metis length_map mset_eq_length)
  have m: "\<forall>m \<in> set ms. mt_sector m = sn \<and> mt_padding m = ?a mod s \<and> mt_size m = s \<and> os_lastDealEnd os \<le> mt_claimTermEnd m
      \<and> map_option pn_assigned (gm_get ?ps (mt_deal m)) = Some False"
    using assms(4,6) unfolding set
    by (fastforce simp: matchWith_def checkDealAssignable_def split: if_splits)
  have e: "\<forall>m \<in> set ms. \<forall>n \<in> set ms. mt_dealEnd m \<le> mt_claimTermEnd n"
    using assms(7) unfolding set by (fastforce simp: matchWith_def)
  have room: "\<forall>j < length ms. s \<le> ?a - of_nat j * (?a mod s + s)"
    using counted_space [OF assms(8,9), of "length ?ps"] assms(10) len by simp
  have "gm_get (in_openSectors inp) sn = Some os" using assms(3) by simp
  from assign_all [OF assms(2) m e d this room, of "map fst ?ps"] obtain inp' out
    where l: "assign_loop me ssize ms (map fst ?ps) inp = Some (filter (\<lambda>c. c \<notin> mt_deal ` set ms) (map fst ?ps), inp', out)"
      "assigned_to inp' sn = assigned_to inp sn @ map mt_deal ms"
    by blast
  have "mt_deal ` set ms = set (map fst ?ps)" using mset_eq_setD [OF deals] by simp
  then have "filter (\<lambda>c. c \<notin> mt_deal ` set ms) (map fst ?ps) = []" by (simp add: filter_empty_conv)
  then have "matchAndAssign me ssize inp = Some ([], inp', out)"
    using matchPieces_one [OF ok, of sn] l(1) assms(3) by (simp add: matchAndAssign_def ms_def)
  moreover have "3 * unat s \<le> length (map mt_deal ms) * unat s" using assms(5) len by simp
  then have "unat ?a < length (map mt_deal ms) * unat s" using assms(9) by linarith
  ultimately show ?thesis using updateInput_done [OF _ assms(1)] l(2) deals by blast
qed

text \<open>
  Witness of C38: a sector of 2048 with pieces of 512 and 256 in it, and four deals of 512, of
  which two fit.
\<close>

definition fullInput :: inputState where
  "fullInput = emptyInput\<lparr>
     in_openSectors := [(3, \<lparr>os_used = 762, os_lastDealEnd = 0, os_number = 3, os_ccUpdate = False\<rparr>)],
     in_pendingPieces := map (\<lambda>c. (c, waitingPiece c 508 600000 900000)) [1, 2, 4, 7]\<rparr>"

theorem sector_overcommitted_witness:
  "\<exists>inp' out cs. updateInput matchEnv 8 fullInput zeroStats = (GoOk (), inp', zeroStats, out)
     \<and> mset cs = {#1, 2, 4, 7#} \<and> assigned_to inp' 3 = cs \<and> 1270 < length cs * 508"
proof -
  have f: "freeSpace matchEnv 2048 \<lparr>os_used = 762, os_lastDealEnd = 0, os_number = 3, os_ccUpdate = False\<rparr> = 1270"
    by (simp add: freeSpace_def matchEnv_def fine_defs)
  have "\<exists>inp' out cs. updateInput matchEnv 8 fullInput zeroStats = (GoOk (), inp', zeroStats, out)
    \<and> mset cs = mset (map fst (in_pendingPieces fullInput)) \<and> assigned_to inp' 3 = assigned_to fullInput 3 @ cs
    \<and> unat (freeSpace matchEnv 2048 \<lparr>os_used = 762, os_lastDealEnd = 0, os_number = 3, os_ccUpdate = False\<rparr>) < length cs * unat (508 :: 64 word)"
    by (rule sector_overcommitted [where s = 508 and os = "\<lparr>os_used = 762, os_lastDealEnd = 0, os_number = 3, os_ccUpdate = False\<rparr>", OF matchEnv_size(1)])
      (simp_all add: f, simp_all add: matchEnv_def fullInput_def emptyInput_def waitingPiece_def dealOf_def dealEndOf_def checkDealAssignable_def)
  then show ?thesis by (simp add: f) (auto simp: fullInput_def emptyInput_def assigned_to_def)
qed

section \<open>Claims that are too short\<close>

lemma pair_le: "(x :: 'a :: linorder, i :: 'b :: linorder) \<le> (y, j) \<longleftrightarrow> x < y \<or> x = y \<and> i \<le> j"
  by (auto simp: less_eq_prod_def)

lemma sort_two: "sort_key k [x, y] = (if k x \<le> k y then [x, y] else [y, x])"
  by simp

lemma sortMatches_two:
  "sortMatches me [m, n] = (if matchKey m < matchKey n \<or> matchKey m = matchKey n \<and> me_tie me 0 \<le> me_tie me 1 then [m, n] else [n, m])"
proof -
  have z: "zip [m, n] [0..<length [m, n]] = [(m, 0), (n, 1)]" by (simp add: upt_rec)
  have le: "(matchKey m, me_tie me 0) \<le> (matchKey n, me_tie me 1) \<longleftrightarrow>
      matchKey m < matchKey n \<or> matchKey m = matchKey n \<and> me_tie me 0 \<le> me_tie me 1"
    by (rule pair_le)
  show ?thesis unfolding sortMatches_def z sort_two prod.case le by (simp only: if_distrib [of "map fst"] list.map fst_conv)
qed

text \<open>Two matches with one sector that leave room for each other: what happens to the second one.\<close>

lemma assign_two:
  assumes told: "me_send me sn SectorAddPiece" and "mt_sector m = sn" "mt_sector n = sn" "mt_deal m \<noteq> mt_deal n"
    and "gm_get (in_openSectors inp) sn = Some os"
    and "map_option pn_assigned (gm_get (in_pendingPieces inp) (mt_deal m)) = Some False"
    and "map_option pn_assigned (gm_get (in_pendingPieces inp) (mt_deal n)) = Some False"
    and "mt_size m \<le> freeSpace me ssize os" "os_lastDealEnd os \<le> mt_claimTermEnd m" "os_lastDealEnd os \<le> mt_claimTermEnd n"
    and "mt_size n \<le> freeSpace me ssize os - (mt_padding m + mt_size m)"
  shows "\<exists>inp' out. assign_loop me ssize [m, n] [c, d] inp
        = Some (removeAll (mt_deal m) (if mt_dealEnd m \<le> mt_claimTermEnd n then removeAll (mt_deal n) [c, d] else [c, d]), inp', out)
      \<and> assigned_to inp' sn = assigned_to inp sn @ mt_deal m # (if mt_dealEnd m \<le> mt_claimTermEnd n then [mt_deal n] else [])
      \<and> map_option os_lastDealEnd (gm_get (in_openSectors inp') sn)
          = Some (max (os_lastDealEnd os) (if mt_dealEnd m \<le> mt_claimTermEnd n then max (mt_dealEnd m) (mt_dealEnd n) else mt_dealEnd m))"
proof -
  obtain p q where p: "gm_get (in_pendingPieces inp) (mt_deal m) = Some p" "\<not> pn_assigned p"
    and q: "gm_get (in_pendingPieces inp) (mt_deal n) = Some q" "\<not> pn_assigned q"
    using assms(6,7) by auto
  let ?os = "os\<lparr>os_used := os_used os + (mt_padding m + mt_size m), os_lastDealEnd := max (os_lastDealEnd os) (mt_dealEnd m)\<rparr>"
  obtain inp1 out1 where a: "assignMatch me m os p inp = Some (inp1, out1)"
    and o1: "in_openSectors inp1 = gm_set sn ?os (in_openSectors inp)"
    and p1: "in_pendingPieces inp1 = gm_set (mt_deal m) (p\<lparr>pn_assigned := True\<rparr>) (in_pendingPieces inp)"
    and t1: "assigned_to inp1 sn = assigned_to inp sn @ [mt_deal m]"
    using assignMatch_told [of me m os p inp] told assms(2) by metis
  have f: "freeSpace me ssize ?os = freeSpace me ssize os - (mt_padding m + mt_size m)" by (simp add: freeSpace_def algebra_simps)
  have first: "assign_loop me ssize [m, n] [c, d] inp =
      map_option (\<lambda>(todo', inp'', out'). (todo', inp'', out1 @ out')) (assign_loop me ssize [n] (removeAll (mt_deal m) [c, d]) inp1)"
    using p assms(2,5,8,9) a by (simp add: not_less [symmetric])
  have g: "gm_get (in_pendingPieces inp1) (mt_deal n) = Some q" "gm_get (in_openSectors inp1) sn = Some ?os"
    using p1 o1 q(1) assms(4) by simp_all
  have room: "\<not> mt_size n > freeSpace me ssize ?os" using assms(11) f by simp
  show ?thesis
  proof (cases "mt_dealEnd m \<le> mt_claimTermEnd n")
    case True
    have last: "\<not> os_lastDealEnd ?os > mt_claimTermEnd n" using True assms(10) by simp
    obtain inp2 out2 where b: "assignMatch me n ?os q inp1 = Some (inp2, out2)"
      and o2: "in_openSectors inp2 = gm_set sn (?os\<lparr>os_used := os_used ?os + (mt_padding n + mt_size n),
         os_lastDealEnd := max (os_lastDealEnd ?os) (mt_dealEnd n)\<rparr>) (in_openSectors inp1)"
      and t2: "assigned_to inp2 sn = assigned_to inp1 sn @ [mt_deal n]"
      using assignMatch_told [of me n ?os q inp1] told assms(3) by metis
    have "assign_loop me ssize [n] (removeAll (mt_deal m) [c, d]) inp1
        = Some (removeAll (mt_deal n) (removeAll (mt_deal m) [c, d]), inp2, out2)"
      using g q(2) assms(3) room last b by simp
    then show ?thesis using first True t1 t2 o2 by (auto simp: max.assoc)
  next
    case False
    then have last: "os_lastDealEnd ?os > mt_claimTermEnd n" by simp
    have "assign_loop me ssize [n] (removeAll (mt_deal m) [c, d]) inp1 = Some (removeAll (mt_deal m) [c, d], inp1, [])"
      using g q(2) assms(3) room last by simp
    then show ?thesis using first False t1 o1 by auto
  qed
qed

lemma acceptable_claim: "acceptable me ssize os piece \<Longrightarrow> os_lastDealEnd os \<le> pn_claimTermEnd piece"
  by (auto simp: acceptable_def checkDealAssignable_def split: if_splits)

text \<open>The match of the first piece is tried before that of the second one.\<close>

abbreviation triedFirst :: "match_env \<Rightarrow> dealMatch \<Rightarrow> dealMatch \<Rightarrow> bool" where
  "triedFirst me m n \<equiv> matchKey m < matchKey n \<or> matchKey m = matchKey n \<and> me_tie me 0 \<le> me_tie me 1"

text \<open>
  Property C39. Two deals wait for the only open sector, which takes each of them and has room for both;
  the claim of the first ends before the second deal does. What \<^verbatim>\<open>updateInput\<close> does
  depends on which match the sort puts first, by padding, size and, for equal ones, as it happens: if it
  is the deal with the short claim, both are assigned, and the sector has to live until
  a deal ends that outlives the claim; otherwise only the other deal is assigned. The end of a new deal is
  never compared with the claims of the deals assigned before.
\<close>

theorem claim_terms_depend_on_order:
  assumes "sv_SectorSize (me_env me) sp = Some ssize" and "me_send me sn SectorAddPiece"
    and "in_openSectors inp = [(sn, os)]" and "in_pendingPieces inp = [(c, p), (d, q)]" "c \<noteq> d"
    and "acceptable me ssize os p" "acceptable me ssize os q"
    and "pn_size q \<le> freeSpace me ssize os - (freeSpace me ssize os mod pn_size p + pn_size p)"
    and "pn_size p \<le> freeSpace me ssize os - (freeSpace me ssize os mod pn_size q + pn_size q)"
    and "dealEndOf p \<le> pn_claimTermEnd q" "pn_claimTermEnd p < dealEndOf q"
  shows "\<exists>r inp' ss' out. updateInput me sp inp ss = (r, inp', ss', out)
    \<and> (if triedFirst me (matchWith me ssize sn os (c, p)) (matchWith me ssize sn os (d, q))
       then assigned_to inp' sn = assigned_to inp sn @ [c, d]
         \<and> (\<exists>os'. gm_get (in_openSectors inp') sn = Some os' \<and> pn_claimTermEnd p < os_lastDealEnd os')
       else assigned_to inp' sn = assigned_to inp sn @ [d])"
proof -
  let ?m = "matchWith me ssize sn os (c, p)" and ?n = "matchWith me ssize sn os (d, q)"
  have "\<forall>(c, piece) \<in> set (in_pendingPieces inp). acceptable me ssize os piece" using assms(4,6,7) by simp
  from matchPieces_one [OF this, of sn]
  have mp: "matchPieces me ssize (in_openSectors inp) (in_pendingPieces inp) = Some ([?m, ?n], [c, d])"
    using assms(3,4) by simp
  have k: "mt_sector ?m = sn" "mt_sector ?n = sn" "mt_deal ?m = c" "mt_deal ?n = d"
    "mt_size ?m = pn_size p" "mt_size ?n = pn_size q" "mt_claimTermEnd ?m = pn_claimTermEnd p" "mt_claimTermEnd ?n = pn_claimTermEnd q"
    "mt_dealEnd ?m = dealEndOf p" "mt_dealEnd ?n = dealEndOf q"
    "mt_padding ?m = freeSpace me ssize os mod pn_size p" "mt_padding ?n = freeSpace me ssize os mod pn_size q"
    by (simp_all add: matchWith_def)
  have un: "\<not> pn_assigned p" "\<not> pn_assigned q" "pn_size p \<le> freeSpace me ssize os" "pn_size q \<le> freeSpace me ssize os"
    using assms(6,7) by (simp_all add: acceptable_def)
  note cl = acceptable_claim [OF assms(6)] acceptable_claim [OF assms(7)]
  have g: "gm_get (in_openSectors inp) sn = Some os" using assms(3) by simp
  have w: "map_option pn_assigned (gm_get (in_pendingPieces inp) c) = Some False"
    "map_option pn_assigned (gm_get (in_pendingPieces inp) d) = Some False"
    using assms(4,5) un by simp_all
  show ?thesis
  proof (cases "triedFirst me ?m ?n")
    case True
    then have srt: "sortMatches me [?m, ?n] = [?m, ?n]" by (simp only: sortMatches_two if_True)
    obtain inp' out where l: "assign_loop me ssize [?m, ?n] [c, d] inp = Some ([], inp', out)"
      "assigned_to inp' sn = assigned_to inp sn @ [c, d]"
      "map_option os_lastDealEnd (gm_get (in_openSectors inp') sn) = Some (max (os_lastDealEnd os) (max (dealEndOf p) (dealEndOf q)))"
      using assign_two [of me sn ?m ?n inp os ssize c d] assms(2,5,8,10) k g w un cl by auto
    have "matchAndAssign me ssize inp = Some ([], inp', out)" using mp srt l(1) by (simp add: matchAndAssign_def)
    from updateInput_done [OF this assms(1), of ss] have u: "updateInput me sp inp ss = (GoOk (), inp', ss, out)" .
    obtain os' where "gm_get (in_openSectors inp') sn = Some os'" "pn_claimTermEnd p < os_lastDealEnd os'"
      using l(3) assms(11) by auto
    then show ?thesis using True u l(2) by auto
  next
    case False
    then have srt: "sortMatches me [?m, ?n] = [?n, ?m]" by (simp only: sortMatches_two if_False)
    have late: "\<not> mt_dealEnd ?n \<le> mt_claimTermEnd ?m" using assms(11) k by simp
    obtain inp1 out1 where l: "assign_loop me ssize [?n, ?m] [c, d] inp = Some ([c], inp1, out1)"
      "assigned_to inp1 sn = assigned_to inp sn @ [d]"
      using assign_two [of me sn ?n ?m inp os ssize c d] assms(2,5,9) late k g w un cl by auto
    have "matchAndAssign me ssize inp = Some ([c], inp1, out1)" using mp srt l(1) by (simp add: matchAndAssign_def)
    from updateInput_assigned [OF this assms(1), of ss] obtain r inp' ss' out
      where "updateInput me sp inp ss = (r, inp', ss', out)" "in_assignedPieces inp' = in_assignedPieces inp1"
      by blast
    then show ?thesis using False l(2) by (auto simp: assigned_to_def)
  qed
qed

text \<open>
  Witness of C39: two deals of half a sector each; the claim of the first ends at 700000, the
  second deal at 800000.
\<close>

definition claimInput :: inputState where
  "claimInput = emptyInput\<lparr>
     in_openSectors := [(3, \<lparr>os_used = 0, os_lastDealEnd = 0, os_number = 3, os_ccUpdate = False\<rparr>)],
     in_pendingPieces := [(1, waitingPiece 1 1016 600000 700000), (2, waitingPiece 2 1016 800000 900000)]\<rparr>"

theorem claim_terms_depend_on_order_witness:
  "\<exists>r inp' ss' out. updateInput matchEnv 8 claimInput zeroStats = (r, inp', ss', out) \<and> assigned_to inp' 3 = [1, 2]"
proof -
  let ?os = "\<lparr>os_used = 0, os_lastDealEnd = 0, os_number = 3, os_ccUpdate = False\<rparr>"
  let ?p = "waitingPiece 1 1016 600000 700000" and ?q = "waitingPiece 2 1016 800000 900000"
  have f: "freeSpace matchEnv 2048 ?os = 2032" by (simp add: freeSpace_def matchEnv_def fine_defs)
  have a: "acceptable matchEnv 2048 ?os ?p" "acceptable matchEnv 2048 ?os ?q"
    unfolding acceptable_def f by (simp_all add: waitingPiece_def dealOf_def dealEndOf_def checkDealAssignable_def)
  have i: "in_openSectors claimInput = [(3, ?os)]" "in_pendingPieces claimInput = [(1, ?p), (2, ?q)]" "me_send matchEnv 3 SectorAddPiece"
    by (simp_all add: claimInput_def matchEnv_def)
  have z: "pn_size ?q \<le> freeSpace matchEnv 2048 ?os - (freeSpace matchEnv 2048 ?os mod pn_size ?p + pn_size ?p)"
    "pn_size ?p \<le> freeSpace matchEnv 2048 ?os - (freeSpace matchEnv 2048 ?os mod pn_size ?q + pn_size ?q)"
    "dealEndOf ?p \<le> pn_claimTermEnd ?q" "pn_claimTermEnd ?p < dealEndOf ?q"
    unfolding f by (simp_all add: waitingPiece_def dealOf_def dealEndOf_def)
  have t: "triedFirst matchEnv (matchWith matchEnv 2048 3 ?os (1, ?p)) (matchWith matchEnv 2048 3 ?os (2, ?q))"
    by (simp add: matchWith_def waitingPiece_def matchEnv_def)
  have "(1 :: cid) \<noteq> 2" by simp
  from claim_terms_depend_on_order [OF matchEnv_size(1) i(3,1,2) this a z, of zeroStats, unfolded if_P [OF t]]
  show ?thesis by (auto simp: assigned_to_def claimInput_def emptyInput_def)
qed

end
