(* ===== verification/Spec2Isabelle.thy ===== *)
theory Spec2Isabelle
  imports State_Tree Fund_Process Sync_Steps Gas_Fees Rlp Fr32 Sealing_Records Sealing_Loop Sealing_Outcomes Sealing_Packing
    Sealing_Receive Sealing_Upgrade Sealing_Match_Limits
begin

text \<open>
  A verification development for Lotus, a node and storage miner of the Filecoin network.

  \<^bold>\<open>The program.\<close> A node follows a chain of tipsets. Its sync manager collects the heads that peers
  report and decides what to sync; messages change the state tree and pay gas; the fund manager keeps
  the market balances of the node's addresses. A storage miner puts the data of deals into sectors,
  pads it, seals each sector through a long state machine and commits it to the chain. The parts
  modelled here, with paths relative to src:

  \<^item> \<open>Lotus_Prelude\<close> has the shared vocabulary: cids, Go maps as association lists, results of Go
    calls (value, error, panic), machine integers, and lemmas on them.
  \<^item> \<open>State_Snaps\<close> and \<open>State_Tree\<close> model chain/state/statetree.go: the snapshot layers, and on top
    of them reading, writing, deleting, registering, snapshots, flush, load and iteration.
  \<^item> \<open>Fund_Manager\<close> and \<open>Fund_Process\<close> model chain/market/fundmanager.go: the request queues of an
    address and their processing; the second theory has the steps of an address over time.
  \<^item> \<open>Tipset\<close> models tipset.go, tipset_key.go and parts of blockheader.go of chain/types.
  \<^item> \<open>Sync_Manager\<close> and \<open>Sync_Steps\<close> model chain/sync_manager.go on top of \<open>Tipset\<close>: buckets,
    target selection, workers, and the scheduler's events as a step relation.
  \<^item> \<open>Gas_Fees\<close> models chain/vm/burn.go and chain/store/basefee.go, \<open>Rlp\<close> the codec of
    chain/types/ethtypes/rlp.go, and \<open>Fr32\<close> the padding of storage/sealer/fr32/fr32.go.
  \<^item> \<open>Sealing_Fsm\<close> and \<open>Sealing_Plan\<close> model fsm.go, fsm_events.go, sector_state.go, types.go and
    stats.go of storage/pipeline: a sector's record, its states and events, the table of
    planners and \<open>Plan\<close>.
  \<^item> \<open>Sealing_Env\<close>, \<open>Sealing_Checks\<close>, \<open>Sealing_Deals\<close>, \<open>Sealing_Input\<close>, \<open>Sealing_Handlers\<close> and
    \<open>Sealing_Recovery\<close> model what the states do: checks.go, currentdealinfo.go, input.go,
    states_sealing.go, states_failed.go, states_replica_update.go and states_proving.go.
    \<open>runHandler\<close> runs the handler that planning selected.
  \<^item> \<open>Sealing_Match\<close> models the other half of input.go: adding pieces, matching them to open
    sectors, upgrading or creating a sector. \<open>Sealing_Receive\<close> models receive.go, the import of
    sectors sealed elsewhere.
\<close>

text \<open>
  \<^bold>\<open>State and operations.\<close> A Go struct is a record with a prefix for its fields (\<open>si_\<close> for
  \<^verbatim>\<open>SectorInfo\<close>, \<open>fa_\<close> for \<^verbatim>\<open>fundedAddress\<close>, \<open>sm_\<close> for \<^verbatim>\<open>syncManager\<close>, \<open>in_\<close> for what
  \<^verbatim>\<open>inputLk\<close> guards), a method is a function that returns the new state, and an error or a panic
  is a value of the result. Code outside the repository and services are the fields of an
  environment record that the operations take as an argument: the HAMT and block store
  (\<open>tree_env\<close>), the node (\<open>fund_env\<close>, \<open>sealing_env\<close>), hashing (\<open>ts_env\<close>), the sending of events
  and the sector store (\<open>match_env\<close>, \<open>receive_env\<close>). Where Go's map order matters it is the
  order of the association list or an argument; so is the order in which an unstable sort leaves equal
  elements (\<open>go_sort\<close>, \<open>me_tie\<close>). A handler is a function from the environment, the
  sector and the input state to the events it sends; goroutines and channels are step
  relations (\<open>fa_step\<close>, \<open>sm_step\<close>, \<open>runs\<close>, \<open>pipeline\<close>).

  \<^bold>\<open>Interfaces.\<close> The locale \<open>snapshot_stack\<close> states what a stack of snapshots promises; it is
  interpreted on the pending actors and on the resolve cache (\<open>State_Snaps\<close>) and on the whole tree
  (\<open>State_Tree\<close>). The locale \<open>planner_invariant\<close> has as laws that every event and every rule of the
  planner table keep an invariant, and \<open>sector_invariant\<close> extends it to whole runs; they are
  interpreted for the commit gate, the pieces of an upgrade, the sector's number and the log.
\<close>

text \<open>
  \<^bold>\<open>What is shown.\<close>

  \<^item> State tree: reverting a snapshot restores every actor, the hinted search for a
    resolved address is a full search, flush and load are a round trip, iteration visits every live
    actor once.
  \<^item> Fund manager: an invariant of all reachable states, reservations are covered, withdrawals
    spare what is reserved, every request is answered; one path completes a request twice and panics.
  \<^item> Tipsets and sync: a tipset does not depend on the order of its blocks; the scheduler does not
    panic and keeps its limit of workers; the first target is the heaviest, with and without
    coalescing; exactly which heads start a worker; the ring of synced tipsets implements a list. Two
    theorems show targets dropped or synced twice.
  \<^item> Gas, RLP, fr32: fees add up and the base fee is bounded; the codecs are round trips and total;
    an unaligned split over threads leaves output unwritten.
  \<^item> State machine of a sector: aborting an upgrade restores the sector, removal works
    in every state and is final, planning makes progress, the statistics count the sectors.
  \<^item> Handlers: \<open>Sealing_Emits\<close> lists the events of each handler, \<open>Sealing_Loop\<close> shows
    that the planner of the state takes them (two exceptions). \<open>Sealing_Safety\<close> closes handlers
    and planners into runs: a sector is in an on-chain state only if its commit was seen to land.
    \<open>Sealing_Outcomes\<close> has the verification of proofs, the bounds on a precommit's expiration and
    the recovery of deals, \<open>Sealing_Packing\<close> that fillers make a sector exactly full.
  \<^item> Deals and imports: \<open>Sealing_Match_Props\<close> shows that a piece is assigned once and to a sector it
    matches; \<open>Sealing_Upgrade\<close> that an upgraded sector takes a waiting deal, by an account of the
    bytes per epoch, and that no other is asked for until it is open; \<open>Sealing_Match_Limits\<close> has
    the two ways in which the bookkeeping of a run goes wrong. \<open>Sealing_Receive\<close> shows which checks
    an imported sector has passed.

  \<^bold>\<open>Bounds and fuel.\<close> Loops are structural recursions or have a termination proof. Loops that wait
  for the world have fuel: \<open>drain\<close>, for which \<open>fa_work\<close> steps are proved to be enough, and the retries
  and waiting loops of handlers, which follow \<open>sv_fuel\<close> rounds. Those need not end in the program
  either; the theorems about them are safety properties, for every amount of fuel. Sizes of pieces,
  statistics and encoded lengths are 64-bit words; token amounts are unbounded as in the
  program. Epochs of the pipeline are \<^verbatim>\<open>int64\<close> values with the wrap-around written out, except for
  the epoch of the seed, which is taken to be in range; the identifiers of sync workers are
  unbounded.

  \<^bold>\<open>Not modelled.\<close> The batchers of messages (timers and gas estimates), the assignment of
  sector numbers (bitfields of another package in a datastore) and the sealer (workers, disk, proofs
  library), which the pipeline sees as parameters; the restart of all sectors; JSON and CBOR
  forms; the difference of two state trees; the virtual machine, chain store, message pool,
  consensus, state manager, wallet, payment channels, markets, API proxies and command line tools,
  which are input and output, generated code, floating point heuristics or wrappers of other
  packages.
\<close>

end
